(* ===== verification/Prelude.thy ===== *)
theory Prelude
  imports Main "HOL-Library.Char_ord" "HOL-Library.List_Lexorder" "HOL-Library.Sublist"
begin

text \<open>
  Shared vocabulary of the development: how the values of the Go program are represented,
  the parts of Go's standard library the sources call on strings, and the generic lemmas the
  component theories use.

  \<^item> A Go \<^verbatim>\<open>string\<close> or \<^verbatim>\<open>[]byte\<close> is a \<open>string\<close>, a list of bytes; \<open><\<close> on it is Go's
    bytewise order (Char\_ord and List\_Lexorder).
  \<^item> Go's \<^verbatim>\<open>int\<close> is an \<open>int\<close>; \<open>wrap64\<close> is used where a 64-bit overflow can happen.
  \<^item> A \<^verbatim>\<open>time.Time\<close> is the \<open>int\<close> number of nanoseconds since Go's zero time
    (January 1, year 1, 00:00 UTC). \<^verbatim>\<open>Equal\<close>, \<^verbatim>\<open>Before\<close>, \<^verbatim>\<open>After\<close> and \<^verbatim>\<open>IsZero\<close> compare
    instants, so they are \<open>=\<close>, \<open><\<close>, \<open>>\<close> and \<open>= 0\<close>.
  \<^item> A call that returns \<^verbatim>\<open>(v, err)\<close> is a value of \<open>goerr + 'a\<close>: \<open>Inl\<close> the error,
    \<open>Inr\<close> the value. An error remembers the sentinels it wraps with \<^verbatim>\<open>%w\<close>, which is what
    \<^verbatim>\<open>errors.Is\<close> looks for.
  \<^item> A nil slice and an empty slice are both \<open>[]\<close>.
  \<^item> The Unicode tables behind \<^verbatim>\<open>strings.ToLower\<close> and its kin are a parameter, the record
    \<open>unicode\<close>: on a string of ASCII bytes the functions are written out, on any other string
    they are the field of the record.
\<close>

named_theorems go_defs \<open>definitions of the Go string functions\<close>
named_theorems err_simps \<open>evaluation of errors.Is\<close>

type_synonym time = int
type_synonym duration = int

section \<open>Go strings\<close>

definition is_ascii :: "string \<Rightarrow> bool" where
  "is_ascii s = list_all (\<lambda>c. of_char c < (128::nat)) s"

definition is_upper_char :: "char \<Rightarrow> bool" where
  "is_upper_char c = (65 \<le> (of_char c :: nat) \<and> of_char c \<le> (90::nat))"

definition is_lower_char :: "char \<Rightarrow> bool" where
  "is_lower_char c = (97 \<le> (of_char c :: nat) \<and> of_char c \<le> (122::nat))"

definition is_digit_char :: "char \<Rightarrow> bool" where
  "is_digit_char c = (48 \<le> (of_char c :: nat) \<and> of_char c \<le> (57::nat))"

definition is_alpha_char :: "char \<Rightarrow> bool" where
  "is_alpha_char c = (is_upper_char c \<or> is_lower_char c)"

definition lower_char :: "char \<Rightarrow> char" where
  "lower_char c = (if is_upper_char c then char_of ((of_char c :: nat) + 32) else c)"

definition upper_char :: "char \<Rightarrow> char" where
  "upper_char c = (if is_lower_char c then char_of ((of_char c :: nat) - 32) else c)"

definition is_space_char :: "char \<Rightarrow> bool" where
  "is_space_char c = (of_char c \<in> {9::nat, 10, 11, 12, 13, 32})"

text \<open>
  The Unicode part of Go's \<^verbatim>\<open>strings\<close> package, used on strings that are not pure ASCII:
  \<^verbatim>\<open>Map(unicode.ToLower, s)\<close>, \<^verbatim>\<open>Map(unicode.ToUpper, s)\<close>, \<^verbatim>\<open>TrimFunc(s, unicode.IsSpace)\<close>,
  \<^verbatim>\<open>EqualFold\<close>, and \<^verbatim>\<open>strconv.Quote\<close>.
\<close>

record unicode =
  uni_lower :: "string \<Rightarrow> string"
  uni_upper :: "string \<Rightarrow> string"
  uni_trim :: "string \<Rightarrow> string"
  uni_fold :: "string \<Rightarrow> string \<Rightarrow> bool"
  uni_quote :: "string \<Rightarrow> string"

text \<open>A concrete instance for evaluation: every non-ASCII string is left as it is.\<close>

definition ascii_only :: unicode where
  "ascii_only = \<lparr>uni_lower = (\<lambda>s. s), uni_upper = (\<lambda>s. s), uni_trim = (\<lambda>s. s),
     uni_fold = (\<lambda>s t. s = t), uni_quote = (\<lambda>s. s)\<rparr>"

definition ToLower :: "unicode \<Rightarrow> string \<Rightarrow> string" where
  "ToLower U s = (if is_ascii s then map lower_char s else uni_lower U s)"

definition ToUpper :: "unicode \<Rightarrow> string \<Rightarrow> string" where
  "ToUpper U s = (if is_ascii s then map upper_char s else uni_upper U s)"

definition trim_ascii :: "string \<Rightarrow> string" where
  "trim_ascii s = rev (dropWhile is_space_char (rev (dropWhile is_space_char s)))"

definition TrimSpace :: "unicode \<Rightarrow> string \<Rightarrow> string" where
  "TrimSpace U s = (if is_ascii s then trim_ascii s else uni_trim U s)"

definition EqualFold :: "unicode \<Rightarrow> string \<Rightarrow> string \<Rightarrow> bool" where
  "EqualFold U s t =
     (if is_ascii s \<and> is_ascii t then map lower_char s = map lower_char t else uni_fold U s t)"

definition HasPrefix :: "string \<Rightarrow> string \<Rightarrow> bool" where
  "HasPrefix s p = prefix p s"

definition HasSuffix :: "string \<Rightarrow> string \<Rightarrow> bool" where
  "HasSuffix s p = suffix p s"

definition TrimPrefix :: "string \<Rightarrow> string \<Rightarrow> string" where
  "TrimPrefix s p = (if prefix p s then drop (length p) s else s)"

text \<open>\<^verbatim>\<open>strings.IndexByte\<close>: \<open>None\<close> is Go's -1.\<close>

fun IndexByte :: "string \<Rightarrow> char \<Rightarrow> nat option" where
  "IndexByte [] c = None"
| "IndexByte (x # xs) c = (if x = c then Some 0 else map_option Suc (IndexByte xs c))"

text \<open>\<^verbatim>\<open>strings.Split(s, sep)\<close> for a one-byte separator.\<close>

fun Split :: "string \<Rightarrow> char \<Rightarrow> string list" where
  "Split [] c = [[]]"
| "Split (x # xs) c =
     (if x = c then [] # Split xs c
      else (case Split xs c of [] \<Rightarrow> [[x]] | y # ys \<Rightarrow> (x # y) # ys))"

text \<open>\<^verbatim>\<open>bytes.Cut(s, sep)\<close>: the parts before and after the first occurrence of \<open>sep\<close>.\<close>

fun Cut :: "string \<Rightarrow> string \<Rightarrow> (string \<times> string) option" where
  "Cut s sep =
     (if prefix sep s then Some ([], drop (length sep) s)
      else (case s of [] \<Rightarrow> None
            | x # xs \<Rightarrow> map_option (\<lambda>(a, b). (x # a, b)) (Cut xs sep)))"

declare Cut.simps [simp del]

fun Join :: "string list \<Rightarrow> string \<Rightarrow> string" where
  "Join [] sep = []"
| "Join [x] sep = x"
| "Join (x # y # ys) sep = x @ sep @ Join (y # ys) sep"

lemmas [go_defs] = is_ascii_def is_upper_char_def is_lower_char_def is_digit_char_def
  is_alpha_char_def lower_char_def upper_char_def is_space_char_def ascii_only_def
  ToLower_def ToUpper_def trim_ascii_def TrimSpace_def EqualFold_def HasPrefix_def
  HasSuffix_def TrimPrefix_def

section \<open>Decimal numbers\<close>

definition digit_char :: "nat \<Rightarrow> char" where
  "digit_char n = char_of (48 + n)"

definition digit_val :: "char \<Rightarrow> nat" where
  "digit_val c = of_char c - 48"

fun show_nat :: "nat \<Rightarrow> string" where
  "show_nat n = (if n < 10 then [digit_char n] else show_nat (n div 10) @ [digit_char (n mod 10)])"

declare show_nat.simps [simp del]

text \<open>\<^verbatim>\<open>strconv.Itoa\<close>.\<close>

definition Itoa :: "int \<Rightarrow> string" where
  "Itoa n = (if n < 0 then ''-'' @ show_nat (nat (- n)) else show_nat (nat n))"

definition read_nat :: "string \<Rightarrow> nat" where
  "read_nat s = foldl (\<lambda>a c. a * 10 + digit_val c) 0 s"

definition int64_min :: int where "int64_min = - (2 ^ 63)"
definition int64_max :: int where "int64_max = 2 ^ 63 - 1"

text \<open>Two's complement reduction of an exact result to Go's 64-bit \<^verbatim>\<open>int\<close>.\<close>

definition wrap64 :: "int \<Rightarrow> int" where
  "wrap64 n = (n + 2 ^ 63) mod 2 ^ 64 - 2 ^ 63"

text \<open>
  \<^verbatim>\<open>strconv.Atoi\<close>: an optional sign, at least one digit, nothing else, and a value that fits
  64 bits; \<open>None\<close> is any error.
\<close>

definition Atoi :: "string \<Rightarrow> int option" where
  "Atoi s =
     (let neg = (case s of c # _ \<Rightarrow> c = CHR ''-'' | [] \<Rightarrow> False);
          ds = (case s of c # r \<Rightarrow> if c = CHR ''-'' \<or> c = CHR ''+'' then r else s | [] \<Rightarrow> []);
          v = (if neg then - int (read_nat ds) else int (read_nat ds))
      in if ds = [] \<or> \<not> list_all is_digit_char ds then None
         else if v < int64_min \<or> int64_max < v then None
         else Some v)"

section \<open>Errors\<close>

text \<open>
  The sentinel errors of the program (\<^verbatim>\<open>errors.New\<close> values compared with \<^verbatim>\<open>errors.Is\<close>):
  those of \<^verbatim>\<open>internal/domain/errors.go\<close>, and the package-level ones of the other packages,
  among them the context errors of the standard library.
\<close>

datatype sentinel =
    ErrNotFound | ErrInvalidInput | ErrConflict | ErrUpstream | ErrUnauthenticated | ErrRateLimited
  | ErrNoTypes | ErrInvalidSort | ErrInvalid | ErrBadFilter | ErrBadSort | ErrCursorSortMismatch
  | ErrPanicRecovered | ErrShutdownTimedOut | ErrUnavailable
  | ContextCanceled | ContextDeadlineExceeded

fun sentinel_text :: "sentinel \<Rightarrow> string" where
  "sentinel_text ErrNotFound = ''not found''"
| "sentinel_text ErrInvalidInput = ''invalid input''"
| "sentinel_text ErrConflict = ''conflict''"
| "sentinel_text ErrUpstream = ''upstream failure''"
| "sentinel_text ErrUnauthenticated = ''unauthenticated''"
| "sentinel_text ErrRateLimited = ''rate limit exceeded''"
| "sentinel_text ErrNoTypes = ''registry: no document types configured''"
| "sentinel_text ErrInvalidSort = ''list: invalid sort''"
| "sentinel_text ErrInvalid = ''cursor: invalid''"
| "sentinel_text ErrBadFilter = ''bad filter''"
| "sentinel_text ErrBadSort = ''bad sort''"
| "sentinel_text ErrCursorSortMismatch = ''cursor sort mismatch''"
| "sentinel_text ErrPanicRecovered = ''panic recovered''"
| "sentinel_text ErrShutdownTimedOut = ''shutdown exceeded budget''"
| "sentinel_text ErrUnavailable = ''meilisearch: unavailable''"
| "sentinel_text ContextCanceled = ''context canceled''"
| "sentinel_text ContextDeadlineExceeded = ''context deadline exceeded''"

text \<open>
  An error is a sentinel, an anonymous \<^verbatim>\<open>errors.New\<close>, or a \<^verbatim>\<open>fmt.Errorf\<close>: a format as the
  list of its pieces, literal text and the arguments of \<^verbatim>\<open>%s\<close>, \<^verbatim>\<open>%q\<close>, \<^verbatim>\<open>%d\<close> and \<^verbatim>\<open>%w\<close>.
\<close>

datatype goerr = Sentinel sentinel | New string | Errorf "frag list"
  and frag = Lit string | Quo string | Dec int | Wrap goerr

fun error_is :: "goerr \<Rightarrow> sentinel \<Rightarrow> bool"
  and frags_are :: "frag list \<Rightarrow> sentinel \<Rightarrow> bool" where
  "error_is (Sentinel x) s = (x = s)"
| "error_is (New m) s = False"
| "error_is (Errorf fs) s = frags_are fs s"
| "frags_are [] s = False"
| "frags_are (Wrap e # fs) s = (error_is e s \<or> frags_are fs s)"
| "frags_are (Lit m # fs) s = frags_are fs s"
| "frags_are (Quo m # fs) s = frags_are fs s"
| "frags_are (Dec n # fs) s = frags_are fs s"

definition Quote :: "unicode \<Rightarrow> string \<Rightarrow> string" where
  "Quote U s =
     (if list_all (\<lambda>c. 32 \<le> (of_char c :: nat) \<and> of_char c < (127::nat)
          \<and> c \<noteq> CHR 0x22 \<and> c \<noteq> CHR 0x5C) s
      then CHR 0x22 # s @ [CHR 0x22] else uni_quote U s)"

text \<open>\<^verbatim>\<open>err.Error()\<close>.\<close>

fun Error :: "unicode \<Rightarrow> goerr \<Rightarrow> string"
  and Errors :: "unicode \<Rightarrow> frag list \<Rightarrow> string" where
  "Error U (Sentinel x) = sentinel_text x"
| "Error U (New m) = m"
| "Error U (Errorf fs) = Errors U fs"
| "Errors U [] = []"
| "Errors U (Lit m # fs) = m @ Errors U fs"
| "Errors U (Quo m # fs) = Quote U m @ Errors U fs"
| "Errors U (Dec n # fs) = Itoa n @ Errors U fs"
| "Errors U (Wrap e # fs) = Error U e @ Errors U fs"

type_synonym 'a result = "goerr + 'a"

text \<open>The idiom \<^verbatim>\<open>if err != nil { return err }\<close>.\<close>

definition bindR :: "'a result \<Rightarrow> ('a \<Rightarrow> 'b result) \<Rightarrow> 'b result" where
  "bindR m f = (case m of Inl e \<Rightarrow> Inl e | Inr v \<Rightarrow> f v)"

lemma bindR_simps [simp]: "bindR (Inl e) f = Inl e" "bindR (Inr v) f = f v"
  by (simp_all add: bindR_def)

lemma bindR_Inr: "bindR m f = Inr y \<longleftrightarrow> (\<exists>v. m = Inr v \<and> f v = Inr y)"
  by (cases m) auto

lemma bindR_Inl: "bindR m f = Inl e \<longleftrightarrow> m = Inl e \<or> (\<exists>v. m = Inr v \<and> f v = Inl e)"
  by (cases m) auto

lemmas [err_simps] = error_is.simps

section \<open>Generic lemmas\<close>

lemma of_char_less_256 [simp]: "of_char c < (256::nat)"
  by (cases c) (simp add: of_char_def)

lemma is_ascii_Nil [simp]: "is_ascii []"
  by (simp add: is_ascii_def)

lemma is_ascii_append [simp]: "is_ascii (s @ t) \<longleftrightarrow> is_ascii s \<and> is_ascii t"
  by (simp add: is_ascii_def)

lemma is_ascii_take [intro]: "is_ascii s \<Longrightarrow> is_ascii (take n s)"
  by (auto simp: is_ascii_def list_all_iff dest: in_set_takeD)

lemma is_ascii_drop [intro]: "is_ascii s \<Longrightarrow> is_ascii (drop n s)"
  by (auto simp: is_ascii_def list_all_iff dest: in_set_dropD)

lemma of_char_upper_char:
  "(of_char (upper_char c) :: nat) = (if is_lower_char c then of_char c - 32 else of_char c)"
  by (auto simp: upper_char_def is_lower_char_def)

lemma of_char_lower_char:
  "(of_char (lower_char c) :: nat) = (if is_upper_char c then of_char c + 32 else of_char c)"
  by (auto simp: lower_char_def is_upper_char_def)

lemma of_char_inject: "(of_char c = (of_char d :: nat)) \<longleftrightarrow> c = d"
  by simp

lemma lower_upper_char: "lower_char (upper_char c) = lower_char c"
proof -
  have "(of_char (lower_char (upper_char c)) :: nat) = of_char (lower_char c)"
    by (auto simp: of_char_lower_char of_char_upper_char is_upper_char_def is_lower_char_def)
  then show ?thesis by simp
qed

lemma upper_lower_char: "upper_char (lower_char c) = upper_char c"
proof -
  have "(of_char (upper_char (lower_char c)) :: nat) = of_char (upper_char c)"
    by (auto simp: of_char_lower_char of_char_upper_char is_upper_char_def is_lower_char_def)
  then show ?thesis by simp
qed

lemma lower_lower_char [simp]: "lower_char (lower_char c) = lower_char c"
  by (simp add: lower_char_def is_upper_char_def)

lemma upper_upper_char [simp]: "upper_char (upper_char c) = upper_char c"
  by (auto simp: upper_char_def is_lower_char_def)

lemma is_ascii_map_upper [simp]: "is_ascii s \<Longrightarrow> is_ascii (map upper_char s)"
  by (auto simp: is_ascii_def list_all_iff of_char_upper_char)

lemma is_ascii_map_lower [simp]: "is_ascii s \<Longrightarrow> is_ascii (map lower_char s)"
  by (auto simp: is_ascii_def list_all_iff of_char_lower_char is_upper_char_def)

lemma ToLower_ToUpper_ascii: "is_ascii s \<Longrightarrow> ToLower U (ToUpper U s) = ToLower U s"
  by (simp add: ToLower_def ToUpper_def lower_upper_char)

lemma ToLower_ascii: "is_ascii s \<Longrightarrow> ToLower U s = map lower_char s"
  by (simp add: ToLower_def)

lemma ToUpper_ascii: "is_ascii s \<Longrightarrow> ToUpper U s = map upper_char s"
  by (simp add: ToUpper_def)

lemma upper_char_eq_dash: "upper_char c = CHR ''-'' \<longleftrightarrow> c = CHR ''-''"
proof -
  have "(of_char (upper_char c) :: nat) = of_char (CHR ''-'') \<longleftrightarrow> (of_char c :: nat) = of_char (CHR ''-'')"
    by (auto simp: of_char_upper_char is_lower_char_def)
  then show ?thesis by (simp only: of_char_inject)
qed

lemma IndexByte_None: "IndexByte s c = None \<longleftrightarrow> c \<notin> set s"
  by (induction s) auto

lemma IndexByte_append:
  "IndexByte (s @ t) c =
     (case IndexByte s c of Some i \<Rightarrow> Some i | None \<Rightarrow> map_option (\<lambda>i. length s + i) (IndexByte t c))"
proof (induction s)
  case Nil
  then show ?case by (cases "IndexByte t c") auto
next
  case (Cons x s)
  then show ?case by (cases "IndexByte t c") (auto split: option.splits)
qed

lemma IndexByte_Some:
  "IndexByte s c = Some i \<longleftrightarrow> i < length s \<and> s ! i = c \<and> c \<notin> set (take i s)"
proof (induction s arbitrary: i)
  case Nil
  then show ?case by simp
next
  case (Cons x xs)
  then show ?case by (cases i) auto
qed

subsection \<open>Decimal round trip\<close>

lemma digit_char_digit [simp]: "n < 10 \<Longrightarrow> is_digit_char (digit_char n)"
  by (simp add: is_digit_char_def digit_char_def)

lemma digit_val_char [simp]: "n < 10 \<Longrightarrow> digit_val (digit_char n) = n"
  by (simp add: digit_val_def digit_char_def)

lemma show_nat_digits: "list_all is_digit_char (show_nat n)"
proof (induction n rule: show_nat.induct)
  case (1 n)
  then show ?case by (subst show_nat.simps) auto
qed

lemma show_nat_nonempty [simp]: "show_nat n \<noteq> []"
  by (subst show_nat.simps) simp

lemma read_show_nat [simp]: "read_nat (show_nat n) = n"
proof (induction n rule: show_nat.induct)
  case (1 n)
  show ?case
  proof (cases "n < 10")
    case True
    then show ?thesis by (subst show_nat.simps) (simp add: read_nat_def)
  next
    case False
    with 1 have "read_nat (show_nat (n div 10)) = n div 10" by simp
    with False show ?thesis by (subst show_nat.simps) (simp add: read_nat_def)
  qed
qed

lemma show_nat_inject [simp]: "show_nat m = show_nat n \<longleftrightarrow> m = n"
  by (metis read_show_nat)

lemma digit_not_sign: "is_digit_char c \<Longrightarrow> c \<noteq> CHR ''-'' \<and> c \<noteq> CHR ''+''"
  by (auto simp: is_digit_char_def)

lemma show_nat_head:
  obtains c r where "show_nat n = c # r" "c \<noteq> CHR ''-''" "c \<noteq> CHR ''+''"
proof (cases "show_nat n")
  case Nil
  then show ?thesis by simp
next
  case (Cons c r)
  with show_nat_digits [of n] have "is_digit_char c" by simp
  with Cons that show ?thesis using digit_not_sign by blast
qed

lemma Atoi_Itoa:
  assumes "int64_min \<le> n" and "n \<le> int64_max"
  shows "Atoi (Itoa n) = Some n"
proof (cases "n < 0")
  case True
  then show ?thesis
    using assms show_nat_digits [of "nat (- n)"] by (simp add: Atoi_def Itoa_def)
next
  case False
  obtain c r where "show_nat (nat n) = c # r" "c \<noteq> CHR ''-''" "c \<noteq> CHR ''+''"
    by (rule show_nat_head)
  moreover have "list_all is_digit_char (c # r)"
    using show_nat_digits [of "nat n"] calculation by simp
  moreover have "read_nat (c # r) = nat n"
    using read_show_nat [of "nat n"] calculation by simp
  ultimately show ?thesis using assms False by (simp add: Atoi_def Itoa_def)
qed

lemma Atoi_bounds: "Atoi s = Some n \<Longrightarrow> int64_min \<le> n \<and> n \<le> int64_max"
  by (auto simp: Atoi_def Let_def split: if_splits)

subsection \<open>Indexes built from a list\<close>

text \<open>A Go map filled in a loop, keyed by a field of the elements, is \<open>index_by f ts\<close>.\<close>

definition index_by :: "('a \<Rightarrow> 'k) \<Rightarrow> 'a list \<Rightarrow> 'k \<rightharpoonup> 'a" where
  "index_by f ts = map_of (map (\<lambda>t. (f t, t)) ts)"

lemma index_by_Nil [simp]: "index_by f [] = Map.empty"
  by (simp add: index_by_def)

lemma index_by_Cons [simp]: "index_by f (t # ts) = (index_by f ts)(f t \<mapsto> t)"
  by (simp add: index_by_def)

lemma index_by_None [simp]: "index_by f ts k = None \<longleftrightarrow> k \<notin> set (map f ts)"
  by (induction ts) auto

lemma index_by_snoc: "f t \<notin> set (map f ts) \<Longrightarrow> index_by f (ts @ [t]) = (index_by f ts)(f t \<mapsto> t)"
  by (induction ts) (auto simp: fun_eq_iff)

lemma index_by_Some:
  "distinct (map f ts) \<Longrightarrow> index_by f ts k = Some t \<longleftrightarrow> t \<in> set ts \<and> f t = k"
  by (induction ts) (auto intro: rev_image_eqI)

lemma index_by_mem: "index_by f ts k = Some t \<Longrightarrow> t \<in> set ts \<and> f t = k"
  by (induction ts) (auto split: if_splits)

end
