(* ===== verification/Slug.thy ===== *)
theory Slug
  imports Prelude "HOL-Library.AList"
begin

text \<open>
  Heading slugs, \<^verbatim>\<open>internal/slug\<close>: the slug of one heading and the collision tracker of a document.
  The regular expression over Unicode classes is written out on ASCII strings; on others it is the
  argument \<open>strip\<close>.
\<close>

definition keep_char :: "char \<Rightarrow> bool" where
  "keep_char c = (is_alpha_char c \<or> is_digit_char c \<or> c = CHR ''_'' \<or> c = CHR ''-'' \<or> c = CHR '' '')"

text \<open>\<^verbatim>\<open>keepRune.ReplaceAllString(s, "")\<close>.\<close>

definition strip_runes :: "(string \<Rightarrow> string) \<Rightarrow> string \<Rightarrow> string" where
  "strip_runes strip s = (if is_ascii s then filter keep_char s else strip s)"

definition slug_of :: "unicode \<Rightarrow> (string \<Rightarrow> string) \<Rightarrow> string \<Rightarrow> string" where
  "slug_of U strip s = map (\<lambda>c. if c = CHR '' '' then CHR ''-'' else c) (strip_runes strip (ToLower U s))"

text \<open>The tracker: the map of emitted slugs to the last suffix used, as an association list.\<close>

type_synonym Slugger = "(string \<times> nat) list"

definition NewSlugger :: Slugger where
  "NewSlugger = []"

definition suffixed :: "string \<Rightarrow> nat \<Rightarrow> string" where
  "suffixed base n = base @ ''-'' @ show_nat n"

lemma suffixed_inject: "suffixed base m = suffixed base n \<longleftrightarrow> m = n"
  by (simp add: suffixed_def)

lemma finite_suffixes: "finite {k. suffixed base k \<in> set seen}"
proof -
  have "inj (suffixed base)" by (rule injI) (simp add: suffixed_inject)
  then have "finite (suffixed base -` set seen)" by (intro finite_vimageI) simp_all
  then show ?thesis by (simp add: vimage_def)
qed

text \<open>The loop: count the suffix of the base up until the slug is new.\<close>

function free_suffix :: "string list \<Rightarrow> string \<Rightarrow> nat \<Rightarrow> nat" where
  "free_suffix seen base n = (if suffixed base n \<in> set seen then free_suffix seen base (Suc n) else n)"
  by pat_completeness auto

termination
proof (relation "measure (\<lambda>(seen, base, n). card {k. n \<le> k \<and> suffixed base k \<in> set seen})")
  fix seen :: "string list" and base n
  assume "suffixed base n \<in> set seen"
  then have "n \<in> {k. n \<le> k \<and> suffixed base k \<in> set seen} - {k. Suc n \<le> k \<and> suffixed base k \<in> set seen}" by simp
  moreover have "finite {k. n \<le> k \<and> suffixed base k \<in> set seen}" using finite_suffixes by (rule finite_subset [rotated]) blast
  moreover have "{k. Suc n \<le> k \<and> suffixed base k \<in> set seen} \<subseteq> {k. n \<le> k \<and> suffixed base k \<in> set seen}" by auto
  ultimately have "card {k. Suc n \<le> k \<and> suffixed base k \<in> set seen} < card {k. n \<le> k \<and> suffixed base k \<in> set seen}"
    by (metis (no_types, lifting) DiffE psubsetI psubset_card_mono)
  then show "((seen, base, Suc n), (seen, base, n)) \<in> measure (\<lambda>(seen, base, n). card {k. n \<le> k \<and> suffixed base k \<in> set seen})"
    by simp
qed simp

declare free_suffix.simps [simp del]

definition Slugger_Slug :: "unicode \<Rightarrow> (string \<Rightarrow> string) \<Rightarrow> string \<Rightarrow> Slugger \<Rightarrow> string \<times> Slugger" where
  "Slugger_Slug U strip s seen =
     (let base = slug_of U strip s in
      case map_of seen base of
        None \<Rightarrow> (base, AList.update base 0 seen)
      | Some n \<Rightarrow>
          let k = free_suffix (map fst seen) base (Suc n); result = suffixed base k
          in (result, AList.update result 0 (AList.update base k seen)))"

text \<open>The slugs of the headings of a document, in order.\<close>

fun slugs :: "unicode \<Rightarrow> (string \<Rightarrow> string) \<Rightarrow> string list \<Rightarrow> Slugger \<Rightarrow> string list" where
  "slugs U strip [] seen = []"
| "slugs U strip (s # ss) seen = (case Slugger_Slug U strip s seen of (r, seen') \<Rightarrow> r # slugs U strip ss seen')"

section \<open>Uniqueness\<close>

lemma free_suffix_new: "suffixed base (free_suffix seen base n) \<notin> set seen"
  by (induction seen base n rule: free_suffix.induct) (subst free_suffix.simps, simp)

lemma free_suffix_least: "n \<le> k \<Longrightarrow> k < free_suffix seen base n \<Longrightarrow> suffixed base k \<in> set seen"
proof (induction seen base n rule: free_suffix.induct)
  case (1 seen base n)
  then show ?case by (cases "k = n") (auto simp: free_suffix.simps [of seen base n] split: if_splits)
qed

lemma keys_update: "set (map fst (AList.update k v m)) = insert k (set (map fst m))"
  using dom_update [of k v m] by simp

lemma Slugger_step:
  assumes "Slugger_Slug U strip s seen = (r, seen')"
  shows "r \<notin> fst ` set seen \<and> fst ` set seen' = insert r (fst ` set seen)"
proof (cases "map_of seen (slug_of U strip s)")
  case None
  then have "slug_of U strip s \<notin> fst ` set seen" by (simp add: map_of_eq_None_iff)
  then show ?thesis using assms None keys_update [of "slug_of U strip s" 0 seen] by (auto simp: Slugger_Slug_def Let_def)
next
  case (Some n)
  let ?b = "slug_of U strip s" and ?k = "free_suffix (map fst seen) (slug_of U strip s) (Suc n)"
  have b: "?b \<in> fst ` set seen" using Some by (metis domI dom_map_of_conv_image_fst)
  have r: "r = suffixed ?b ?k" "seen' = AList.update r 0 (AList.update ?b ?k seen)"
    using assms Some by (auto simp: Slugger_Slug_def Let_def)
  show ?thesis
    using free_suffix_new [of ?b "map fst seen" "Suc n"] b
      keys_update [of r 0 "AList.update ?b ?k seen"] keys_update [of ?b ?k seen]
    by (auto simp: r)
qed

lemma slugs_fresh: "distinct (slugs U strip ss seen) \<and> set (slugs U strip ss seen) \<inter> fst ` set seen = {}"
proof (induction ss arbitrary: seen)
  case Nil
  then show ?case by simp
next
  case (Cons s ss)
  obtain r seen' where r: "Slugger_Slug U strip s seen = (r, seen')" by (rule prod.exhaust)
  show ?case using Cons [of seen'] Slugger_step [OF r] by (auto simp: r)
qed

text \<open>The anchors of a document are unambiguous: whatever its headings are, the tracker terminates and
  gives every heading a slug of its own; a heading whose plain slug has not been emitted yet gets the
  plain slug, any other the plain slug with the least free suffix after the last one used.\<close>

theorem slugs_unique:
  "length (slugs U strip ss NewSlugger) = length ss \<and> distinct (slugs U strip ss NewSlugger)
   \<and> (\<forall>s seen. fst (Slugger_Slug U strip s seen) =
        (case map_of seen (slug_of U strip s) of None \<Rightarrow> slug_of U strip s
         | Some n \<Rightarrow> suffixed (slug_of U strip s)
             (LEAST k. n < k \<and> suffixed (slug_of U strip s) k \<notin> fst ` set seen)))"
proof -
  have len: "length (slugs U strip ss seen) = length ss" for seen
    by (induction ss arbitrary: seen) (simp_all split: prod.split)
  have least: "(LEAST k. n < k \<and> suffixed b k \<notin> fst ` set seen) = free_suffix (map fst seen) b (Suc n)"
    for n b and seen :: Slugger
  proof (rule Least_equality)
    have "Suc n \<le> free_suffix ks b (Suc n)" for ks
      by (induction ks b "Suc n" arbitrary: n rule: free_suffix.induct) (subst free_suffix.simps, force)
    then show "n < free_suffix (map fst seen) b (Suc n) \<and> suffixed b (free_suffix (map fst seen) b (Suc n)) \<notin> fst ` set seen"
      using free_suffix_new [of b "map fst seen" "Suc n"] by (simp add: Suc_le_lessD)
    show "n < k \<and> suffixed b k \<notin> fst ` set seen \<Longrightarrow> free_suffix (map fst seen) b (Suc n) \<le> k" for k
      using free_suffix_least [of "Suc n" k "map fst seen" b] by (rule_tac ccontr) simp
  qed
  show ?thesis
    using slugs_fresh [of U strip ss NewSlugger] len least
    by (auto simp: Slugger_Slug_def Let_def split: option.split)
qed

end
