(* ===== verification/Json.thy ===== *)
theory Json
  imports Prelude
begin

text \<open>
  JSON values as \<^verbatim>\<open>encoding/json\<close> and the \<^verbatim>\<open>jsonb\<close> columns exchange them, and the part of
  \<^verbatim>\<open>json.Unmarshal\<close> into a struct that the sources use: a member is assigned to a field when
  its key equals the field's name or matches it under JSON's case folding, later members
  override earlier ones, \<^verbatim>\<open>null\<close> leaves a field alone, and a value of the wrong kind is an
  error. A number is kept as its literal text.
\<close>

datatype json = JNull | JBool bool | JNum string | JStr string | JArr "json list"
  | JObj "(string \<times> json) list"

text \<open>
  \<^verbatim>\<open>encoding/json\<close>'s \<open>foldName\<close> on the names used here: ASCII letters to upper case, the two
  non-ASCII runes that fold to an ASCII letter (U+017F and U+212A), every other byte unchanged.
\<close>

fun fold_name :: "string \<Rightarrow> string" where
  "fold_name [] = []"
| "fold_name [a] = [upper_char a]"
| "fold_name [a, b] =
     (if a = CHR 0xC5 \<and> b = CHR 0xBF then ''S'' else upper_char a # fold_name [b])"
| "fold_name (a # b # c # r) =
     (if a = CHR 0xC5 \<and> b = CHR 0xBF then CHR ''S'' # fold_name (c # r)
      else if a = CHR 0xE2 \<and> b = CHR 0x84 \<and> c = CHR 0xAA then CHR ''K'' # fold_name r
      else upper_char a # fold_name (b # c # r))"

definition field_match :: "string \<Rightarrow> string \<Rightarrow> bool" where
  "field_match name k = (k = name \<or> fold_name k = fold_name name)"

text \<open>The members of the value a struct is decoded from; \<open>None\<close> is a type error.\<close>

fun obj_members :: "json \<Rightarrow> (string \<times> json) list option" where
  "obj_members (JObj ms) = Some ms"
| "obj_members JNull = Some []"
| "obj_members _ = None"

text \<open>One field: \<open>dec old v\<close> decodes a member's value over the value assigned so far.\<close>

fun field :: "('a \<Rightarrow> json \<Rightarrow> 'a option) \<Rightarrow> string \<Rightarrow> 'a \<Rightarrow> (string \<times> json) list \<Rightarrow> 'a option" where
  "field dec name old [] = Some old"
| "field dec name old ((k, v) # ms) =
     (if field_match name k
      then (case dec old v of None \<Rightarrow> None | Some new \<Rightarrow> field dec name new ms)
      else field dec name old ms)"

fun dec_string :: "string \<Rightarrow> json \<Rightarrow> string option" where
  "dec_string old (JStr s) = Some s"
| "dec_string old JNull = Some old"
| "dec_string old _ = None"

fun dec_int :: "int \<Rightarrow> json \<Rightarrow> int option" where
  "dec_int old (JNum lit) = Atoi lit"
| "dec_int old JNull = Some old"
| "dec_int old _ = None"

fun dec_strings :: "string list \<Rightarrow> json \<Rightarrow> string list option" where
  "dec_strings old (JArr vs) = those (map (dec_string []) vs)"
| "dec_strings old JNull = Some []"
| "dec_strings old _ = None"

text \<open>A list of structs, each decoded from its zero value.\<close>

fun dec_list :: "(json \<Rightarrow> 'a option) \<Rightarrow> 'a list \<Rightarrow> json \<Rightarrow> 'a list option" where
  "dec_list dec old (JArr vs) = those (map dec vs)"
| "dec_list dec old JNull = Some []"
| "dec_list dec old _ = None"

abbreviation str_field :: "string \<Rightarrow> (string \<times> json) list \<Rightarrow> string option" where
  "str_field name ms \<equiv> field dec_string name [] ms"

abbreviation int_field :: "string \<Rightarrow> (string \<times> json) list \<Rightarrow> int option" where
  "int_field name ms \<equiv> field dec_int name 0 ms"

lemma field_match_refl [simp]: "field_match name name"
  by (simp add: field_match_def)

lemma field_no_match:
  "list_all (\<lambda>(k, v). \<not> field_match name k) ms \<Longrightarrow> field dec name old ms = Some old"
  by (induction ms) auto

end
