(* ===== verification/JsonText.thy ===== *)
theory JsonText
  imports Json
begin

text \<open>
  The text side of \<^verbatim>\<open>encoding/json\<close>: how a string is quoted by \<^verbatim>\<open>json.Marshal\<close> (HTML characters
  escaped, invalid UTF-8 replaced), and how a document is parsed by \<^verbatim>\<open>json.Unmarshal\<close>. The main
  result is that a string of valid UTF-8 survives quoting and parsing, and that the fuel of the
  parser never decides the outcome.
\<close>

section \<open>UTF-8\<close>

definition byte_in :: "nat \<Rightarrow> nat \<Rightarrow> char \<Rightarrow> bool" where
  "byte_in lo hi c = (lo \<le> (of_char c :: nat) \<and> of_char c \<le> hi)"

text \<open>The number of bytes of the rune a string starts with, 0 where \<^verbatim>\<open>utf8.DecodeRune\<close> reports
  an encoding error; the second byte's range depends on the first.\<close>

definition second_range :: "char \<Rightarrow> nat \<times> nat" where
  "second_range a =
     (if a = CHR 0xE0 then (160, 191) else if a = CHR 0xED then (128, 159)
      else if a = CHR 0xF0 then (144, 191) else if a = CHR 0xF4 then (128, 143) else (128, 191))"

definition rune_width :: "char \<Rightarrow> nat" where
  "rune_width a =
     (if byte_in 0 127 a then 1 else if byte_in 194 223 a then 2
      else if byte_in 224 239 a then 3 else if byte_in 240 244 a then 4 else 0)"

definition rune_len :: "string \<Rightarrow> nat" where
  "rune_len s =
     (case s of [] \<Rightarrow> 0
      | a # r \<Rightarrow>
          let n = rune_width a; rest = take (n - 1) r in
          if n \<le> 1 then n
          else if length rest < n - 1 then 0
          else if byte_in (fst (second_range a)) (snd (second_range a)) (hd rest)
                \<and> list_all (byte_in 128 191) (tl rest) then n else 0)"

lemma rune_width_le: "rune_width a \<le> 4"
  by (simp add: rune_width_def)

lemma rune_len_le: "rune_len s \<le> length s"
  by (auto simp: rune_len_def Let_def split: list.splits if_splits)

text \<open>\<^verbatim>\<open>utf8.ValidString\<close>.\<close>

function valid_utf8 :: "string \<Rightarrow> bool" where
  "valid_utf8 s =
     (if s = [] then True else if rune_len s = 0 then False else valid_utf8 (drop (rune_len s) s))"
  by auto
termination by (relation "measure length") auto

declare valid_utf8.simps [simp del]

text \<open>\<^verbatim>\<open>utf8.AppendRune\<close> of a code point outside the surrogate range.\<close>

definition encode_rune :: "nat \<Rightarrow> string" where
  "encode_rune n =
     (if n < 128 then [char_of n]
      else if n < 2048 then [char_of (192 + n div 64), char_of (128 + n mod 64)]
      else if n < 65536
      then [char_of (224 + n div 4096), char_of (128 + n div 64 mod 64), char_of (128 + n mod 64)]
      else [char_of (240 + n div 262144), char_of (128 + n div 4096 mod 64),
            char_of (128 + n div 64 mod 64), char_of (128 + n mod 64)])"

definition rune_error :: string where
  "rune_error = [CHR 0xEF, CHR 0xBF, CHR 0xBD]"

section \<open>Quoting\<close>

definition hex_char :: "nat \<Rightarrow> char" where
  "hex_char n = (if n < 10 then char_of (48 + n) else char_of (87 + n))"

text \<open>One ASCII byte, as \<^verbatim>\<open>appendString\<close> with \<^verbatim>\<open>escapeHTML\<close> writes it.\<close>

definition esc_char :: "char \<Rightarrow> string" where
  "esc_char c =
     (if c = CHR 0x22 \<or> c = CHR 0x5C then [CHR 0x5C, c]
      else if c = CHR 0x08 then [CHR 0x5C, CHR ''b'']
      else if c = CHR 0x0C then [CHR 0x5C, CHR ''f'']
      else if c = CHR 0x0A then [CHR 0x5C, CHR ''n'']
      else if c = CHR 0x0D then [CHR 0x5C, CHR ''r'']
      else if c = CHR 0x09 then [CHR 0x5C, CHR ''t'']
      else if of_char c < (32::nat) \<or> c = CHR ''<'' \<or> c = CHR ''>'' \<or> c = CHR ''&''
      then [CHR 0x5C, CHR ''u'', CHR ''0'', CHR ''0'', hex_char (of_char c div 16), hex_char (of_char c mod 16)]
      else [c])"

definition esc_rune :: "string \<Rightarrow> string" where
  "esc_rune u =
     (if u = [CHR 0xE2, CHR 0x80, CHR 0xA8] then CHR 0x5C # ''u2028''
      else if u = [CHR 0xE2, CHR 0x80, CHR 0xA9] then CHR 0x5C # ''u2029''
      else u)"

function quote_body :: "string \<Rightarrow> string" where
  "quote_body [] = []"
| "quote_body (c # r) =
     (if of_char c < (128::nat) then esc_char c @ quote_body r
      else if rune_len (c # r) = 0 then CHR 0x5C # ''ufffd'' @ quote_body r
      else esc_rune (take (rune_len (c # r)) (c # r)) @ quote_body (drop (rune_len (c # r)) (c # r)))"
  by pat_completeness auto
termination by (relation "measure length") auto

definition json_quote :: "string \<Rightarrow> string" where
  "json_quote s = CHR 0x22 # quote_body s @ [CHR 0x22]"

section \<open>Parsing\<close>

definition hex_val :: "char \<Rightarrow> nat option" where
  "hex_val c =
     (if is_digit_char c then Some (of_char c - 48)
      else if byte_in 97 102 c then Some (of_char c - 87)
      else if byte_in 65 70 c then Some (of_char c - 55) else None)"

fun hex4 :: "string \<Rightarrow> (nat \<times> string) option" where
  "hex4 (a # b # c # d # r) =
     (case (hex_val a, hex_val b, hex_val c, hex_val d) of
        (Some w, Some x, Some y, Some z) \<Rightarrow> Some (w * 4096 + x * 256 + y * 16 + z, r)
      | _ \<Rightarrow> None)"
| "hex4 _ = None"

definition simple_escape :: "char \<Rightarrow> char option" where
  "simple_escape e =
     (if e = CHR 0x22 \<or> e = CHR 0x5C \<or> e = CHR ''/'' then Some e
      else if e = CHR ''b'' then Some (CHR 0x08) else if e = CHR ''f'' then Some (CHR 0x0C)
      else if e = CHR ''n'' then Some (CHR 0x0A) else if e = CHR ''r'' then Some (CHR 0x0D)
      else if e = CHR ''t'' then Some (CHR 0x09) else None)"

text \<open>
  \<^verbatim>\<open>\uXXXX\<close> after its introducer: a surrogate pair is one rune, an unpaired surrogate the
  replacement rune. The second half is looked at only where it is itself a well-formed escape;
  where it is not, the scan rejects the string when it gets there.
\<close>

definition unicode_escape :: "string \<Rightarrow> (string \<times> string) option" where
  "unicode_escape s =
     (case hex4 s of None \<Rightarrow> None
      | Some (n, r) \<Rightarrow>
          if n < 55296 \<or> 57343 < n then Some (encode_rune n, r)
          else (case r of
                  b # u # r' \<Rightarrow>
                    if b = CHR 0x5C \<and> u = CHR ''u'' then
                      (case hex4 r' of
                         Some (m, r'') \<Rightarrow>
                           if n < 56320 \<and> 56320 \<le> m \<and> m < 57344
                           then Some (encode_rune ((n - 55296) * 1024 + (m - 56320) + 65536), r'')
                           else Some (rune_error, r)
                       | None \<Rightarrow> Some (rune_error, r))
                    else Some (rune_error, r)
                | _ \<Rightarrow> Some (rune_error, r)))"

lemma hex4_length: "hex4 s = Some (n, r) \<Longrightarrow> length r < length s"
  by (induction s rule: hex4.induct) (auto split: option.splits)

lemma unicode_escape_length: "unicode_escape s = Some (t, r) \<Longrightarrow> length r < length s"
  by (auto simp: unicode_escape_def split: option.splits if_splits list.splits dest!: hex4_length)

text \<open>A string literal after its opening quote: the decoded text and what follows the closing
  quote.\<close>

function parse_str :: "string \<Rightarrow> (string \<times> string) option" where
  "parse_str [] = None"
| "parse_str (c # r) =
     (if c = CHR 0x22 then Some ([], r)
      else if c = CHR 0x5C then
        (case r of [] \<Rightarrow> None
         | e # r' \<Rightarrow>
             if e = CHR ''u'' then
               (case unicode_escape r' of None \<Rightarrow> None
                | Some (u, r'') \<Rightarrow> map_option (\<lambda>(t, q). (u @ t, q)) (parse_str r''))
             else
               (case simple_escape e of None \<Rightarrow> None
                | Some x \<Rightarrow> map_option (\<lambda>(t, q). (x # t, q)) (parse_str r')))
      else if of_char c < (32::nat) then None
      else if rune_len (c # r) = 0
      then map_option (\<lambda>(t, q). (rune_error @ t, q)) (parse_str r)
      else map_option (\<lambda>(t, q). (take (rune_len (c # r)) (c # r) @ t, q))
             (parse_str (drop (rune_len (c # r)) (c # r))))"
  by pat_completeness auto
termination by (relation "measure length") (auto dest!: unicode_escape_length)

definition is_ws :: "char \<Rightarrow> bool" where
  "is_ws c = (c = CHR '' '' \<or> c = CHR 0x09 \<or> c = CHR 0x0A \<or> c = CHR 0x0D)"

abbreviation skip_ws :: "string \<Rightarrow> string" where
  "skip_ws \<equiv> dropWhile is_ws"

text \<open>The number grammar: the literal and the rest.\<close>

definition num_int :: "string \<Rightarrow> (string \<times> string) option" where
  "num_int s =
     (case s of [] \<Rightarrow> None
      | c # r \<Rightarrow> if c = CHR ''0'' then Some ([c], r)
          else if is_digit_char c then Some (c # takeWhile is_digit_char r, dropWhile is_digit_char r)
          else None)"

definition num_frac :: "string \<Rightarrow> (string \<times> string) option" where
  "num_frac s =
     (case s of c # r \<Rightarrow>
        if c = CHR ''.'' then
          (if takeWhile is_digit_char r = [] then None
           else Some (c # takeWhile is_digit_char r, dropWhile is_digit_char r))
        else Some ([], s)
      | [] \<Rightarrow> Some ([], s))"

definition num_exp :: "string \<Rightarrow> (string \<times> string) option" where
  "num_exp s =
     (case s of c # r \<Rightarrow>
        if c = CHR ''e'' \<or> c = CHR ''E'' then
          (let sg = (case r of x # _ \<Rightarrow> if x = CHR ''+'' \<or> x = CHR ''-'' then [x] else [] | [] \<Rightarrow> []);
               ds = drop (length sg) r
           in if takeWhile is_digit_char ds = [] then None
              else Some (c # sg @ takeWhile is_digit_char ds, dropWhile is_digit_char ds))
        else Some ([], s)
      | [] \<Rightarrow> Some ([], s))"

definition parse_num :: "string \<Rightarrow> (string \<times> string) option" where
  "parse_num s =
     (let sg = (case s of x # _ \<Rightarrow> if x = CHR ''-'' then [x] else [] | [] \<Rightarrow> [])
      in Option.bind (num_int (drop (length sg) s)) (\<lambda>(i, r1).
         Option.bind (num_frac r1) (\<lambda>(f, r2).
         Option.bind (num_exp r2) (\<lambda>(e, r3). Some (sg @ i @ f @ e, r3)))))"

text \<open>
  A value, the members of an object after its opening brace, the elements of an array. The
  first argument is fuel; \<open>parse_json\<close> gives more than twice the length of the input.
\<close>

fun parse_value :: "nat \<Rightarrow> string \<Rightarrow> (json \<times> string) option"
  and parse_members :: "nat \<Rightarrow> string \<Rightarrow> ((string \<times> json) list \<times> string) option"
  and parse_elems :: "nat \<Rightarrow> string \<Rightarrow> (json list \<times> string) option" where
  "parse_value 0 s = None"
| "parse_members 0 s = None"
| "parse_elems 0 s = None"
| "parse_value (Suc f) s =
     (case skip_ws s of [] \<Rightarrow> None
      | c # r \<Rightarrow>
          if c = CHR 0x22 then map_option (\<lambda>(t, q). (JStr t, q)) (parse_str r)
          else if c = CHR ''{'' then
            (case skip_ws r of [] \<Rightarrow> None
             | d # q \<Rightarrow> if d = CHR ''}'' then Some (JObj [], q)
                 else map_option (\<lambda>(ms, p). (JObj ms, p)) (parse_members f (d # q)))
          else if c = CHR ''['' then
            (case skip_ws r of [] \<Rightarrow> None
             | d # q \<Rightarrow> if d = CHR '']'' then Some (JArr [], q)
                 else map_option (\<lambda>(vs, p). (JArr vs, p)) (parse_elems f (d # q)))
          else if prefix ''true'' (c # r) then Some (JBool True, drop 4 (c # r))
          else if prefix ''false'' (c # r) then Some (JBool False, drop 5 (c # r))
          else if prefix ''null'' (c # r) then Some (JNull, drop 4 (c # r))
          else map_option (\<lambda>(n, p). (JNum n, p)) (parse_num (c # r)))"
| "parse_members (Suc f) s =
     (case skip_ws s of [] \<Rightarrow> None
      | c # r \<Rightarrow> if c \<noteq> CHR 0x22 then None else
         (case parse_str r of None \<Rightarrow> None
          | Some (k, r1) \<Rightarrow>
             (case skip_ws r1 of [] \<Rightarrow> None
              | d # r2 \<Rightarrow> if d \<noteq> CHR '':'' then None else
                 (case parse_value f r2 of None \<Rightarrow> None
                  | Some (v, r3) \<Rightarrow>
                     (case skip_ws r3 of [] \<Rightarrow> None
                      | e # r4 \<Rightarrow>
                          if e = CHR ''}'' then Some ([(k, v)], r4)
                          else if e = CHR '','' then
                            map_option (\<lambda>(ms, p). ((k, v) # ms, p)) (parse_members f r4)
                          else None)))))"
| "parse_elems (Suc f) s =
     (case parse_value f s of None \<Rightarrow> None
      | Some (v, r) \<Rightarrow>
         (case skip_ws r of [] \<Rightarrow> None
          | e # q \<Rightarrow>
              if e = CHR '']'' then Some ([v], q)
              else if e = CHR '','' then map_option (\<lambda>(vs, p). (v # vs, p)) (parse_elems f q)
              else None))"

text \<open>A whole document; trailing bytes other than white space are a syntax error.\<close>

definition parse_json :: "string \<Rightarrow> json option" where
  "parse_json s =
     (case parse_value (2 * length s + 2) s of
        Some (v, r) \<Rightarrow> if skip_ws r = [] then Some v else None
      | None \<Rightarrow> None)"

section \<open>The fuel is enough\<close>

lemma skip_ws_length: "length (skip_ws s) \<le> length s"
  by (rule length_dropWhile_le)

lemma skip_ws_Cons: "skip_ws s = c # r \<Longrightarrow> length r < length s"
  using skip_ws_length [of s] by simp

lemma parse_str_length: "parse_str s = Some (t, r) \<Longrightarrow> length r < length s"
proof (induction s arbitrary: t r rule: parse_str.induct)
  case 1
  then show ?case by simp
next
  case (2 c s)
  show ?case
  proof (cases "c = CHR 0x22 \<or> c = CHR 0x5C")
    case True
    then show ?thesis
      using "2.prems" 2(1,2) by (fastforce split: list.splits option.splits if_splits dest!: unicode_escape_length)
  next
    case False
    then show ?thesis
      using "2.prems" 2(3,4) by (fastforce split: if_splits)
  qed
qed

lemma num_parts:
  "num_int s = Some (i, r) \<Longrightarrow> s = i @ r \<and> i \<noteq> []"
  "num_frac s = Some (i, r) \<Longrightarrow> s = i @ r"
  "num_exp s = Some (i, r) \<Longrightarrow> s = i @ r"
  by (auto simp: num_int_def num_frac_def num_exp_def Let_def split: list.splits if_splits)

lemma parse_num_length: "parse_num s = Some (n, r) \<Longrightarrow> length r < length s"
proof -
  assume "parse_num s = Some (n, r)"
  then obtain k i r1 f r2 e where "num_int (drop k s) = Some (i, r1)" "num_frac r1 = Some (f, r2)"
    "num_exp r2 = Some (e, r)"
    by (auto simp: parse_num_def Let_def bind_eq_Some_conv)
  then have "drop k s = i @ f @ e @ r" "i \<noteq> []" by (auto dest!: num_parts)
  then have "length (drop k s) = length (i @ f @ e @ r)" "0 < length i" by simp_all
  then show ?thesis unfolding length_drop length_append by linarith
qed

lemma parse_length:
  "parse_value f s = Some (v, r) \<Longrightarrow> length r < length s"
  "parse_members f s = Some (ms, r) \<Longrightarrow> length r < length s"
  "parse_elems f s = Some (vs, r) \<Longrightarrow> length r < length s"
proof (induction f s and f s and f s arbitrary: v r and ms r and vs r rule: parse_value_parse_members_parse_elems.induct)
  case (4 f s)
  then obtain c q where c: "skip_ws s = c # q" by (auto split: list.splits)
  note q = skip_ws_Cons [OF c]
  have p: "(case skip_ws s of [] \<Rightarrow> None | c # r \<Rightarrow> g c r) = g c q" for g :: "char \<Rightarrow> string \<Rightarrow> (json \<times> string) option"
    by (simp add: c)
  have drops: "length (drop n (c # q)) < length s" if "0 < n" for n
    using q that by (cases n) auto
  note P = "4.prems" [unfolded parse_value.simps p]
  consider "c = CHR 0x22" | "c = CHR ''{''" | "c = CHR ''[''" | "c \<noteq> CHR 0x22" "c \<noteq> CHR ''{''" "c \<noteq> CHR ''[''"
    by blast
  then show ?case
  proof cases
    case 1
    then show ?thesis using P q by (auto dest!: parse_str_length)
  next
    case 2
    then obtain d p where d: "skip_ws q = d # p" using P by (auto split: list.splits)
    then show ?thesis
      using P 2 q skip_ws_Cons [OF d] skip_ws_length [of q] 4(1) [OF c _ 2 d]
      by (fastforce split: if_splits)
  next
    case 3
    then obtain d p where d: "skip_ws q = d # p" using P by (auto split: list.splits)
    then show ?thesis
      using P 3 q skip_ws_Cons [OF d] skip_ws_length [of q] 4(2) [OF c _ _ 3 d]
      by (fastforce split: if_splits)
  next
    case 4
    then consider "r = drop 4 (c # q)" | "r = drop 5 (c # q)" | n where "parse_num (c # q) = Some (n, r)"
      using P by (auto simp del: drop_Suc_Cons split: if_splits)
    then show ?thesis using drops [of 4] drops [of 5] q parse_num_length [of "c # q"] by cases auto
  qed
next
  case (5 f s)
  then show ?case
    by (fastforce split: if_splits list.splits option.splits prod.splits
        dest!: parse_str_length skip_ws_Cons)
next
  case (6 f s)
  then show ?case
    by (fastforce split: if_splits list.splits option.splits prod.splits dest!: skip_ws_Cons)
qed simp_all

text \<open>Beyond twice the length of the input, more fuel changes nothing.\<close>

lemma parse_fuel:
  "(2 * length s < f \<longrightarrow> 2 * length s < g \<longrightarrow> parse_value f s = parse_value g s)
   \<and> (2 * length s < f \<longrightarrow> 2 * length s < g \<longrightarrow> parse_members f s = parse_members g s)
   \<and> (2 * length s + 1 < f \<longrightarrow> 2 * length s + 1 < g \<longrightarrow> parse_elems f s = parse_elems g s)"
proof (induction f arbitrary: g s)
  case 0
  then show ?case by simp
next
  case (Suc f)
  show ?case
  proof (intro conjI impI)
    assume b: "2 * length s < Suc f" "2 * length s < g"
    then obtain h where h: "g = Suc h" by (cases g) auto
    have 1: "parse_members f (d # p) = parse_members h (d # p)" "parse_elems f (d # p) = parse_elems h (d # p)"
      if "skip_ws s = c # q" "skip_ws q = d # p" for c q d p
      using skip_ws_Cons [OF that(1)] skip_ws_length [of q] that(2) b h Suc [of "d # p" h] by auto
    show "parse_value (Suc f) s = parse_value g s"
    proof (cases "skip_ws s")
      case Nil
      then show ?thesis by (simp only: h parse_value.simps list.case)
    next
      case (Cons c q)
      show ?thesis
      proof (cases "skip_ws q")
        case Nil
        then show ?thesis by (simp only: h parse_value.simps Cons list.case)
      next
        case D: (Cons d p)
        then show ?thesis by (simp only: h parse_value.simps Cons D list.case 1 [OF Cons D])
      qed
    qed
  next
    assume b: "2 * length s < Suc f" "2 * length s < g"
    then obtain h where h: "g = Suc h" by (cases g) auto
    have 2: "parse_value f r2 = parse_value h r2"
      if "skip_ws s = c # r" "parse_str r = Some (k, r1)" "skip_ws r1 = d # r2" for c r k r1 d r2
      using skip_ws_Cons [OF that(1)] parse_str_length [OF that(2)] skip_ws_Cons [OF that(3)] b h Suc [of r2 h]
      by auto
    have 3: "parse_members f r4 = parse_members h r4"
      if "skip_ws s = c # r" "parse_str r = Some (k, r1)" "skip_ws r1 = d # r2"
        "parse_value h r2 = Some (v, r3)" "skip_ws r3 = e # r4" for c r k r1 d r2 v r3 e r4
      using skip_ws_Cons [OF that(1)] parse_str_length [OF that(2)] skip_ws_Cons [OF that(3)]
        parse_length(1) [OF that(4)] skip_ws_Cons [OF that(5)] b h Suc [of r4 h]
      by auto
    show "parse_members (Suc f) s = parse_members g s"
      unfolding h parse_members.simps
      by (auto simp: 2 3 simp del: dropWhile_eq_Nil_conv split: list.split option.split)
  next
    assume b: "2 * length s + 1 < Suc f" "2 * length s + 1 < g"
    then obtain h where h: "g = Suc h" by (cases g) auto
    have 4: "parse_value f s = parse_value h s" using b h Suc [of s h] by auto
    have 5: "parse_elems f q = parse_elems h q"
      if "parse_value h s = Some (v, r)" "skip_ws r = e # q" for v r e q
      using parse_length(1) [OF that(1)] skip_ws_Cons [OF that(2)] b h Suc [of q h] by auto
    show "parse_elems (Suc f) s = parse_elems g s"
      unfolding h parse_elems.simps 4
      by (auto simp: 5 simp del: dropWhile_eq_Nil_conv split: list.split option.split)
  qed
qed

lemma parse_json_fuel:
  assumes "2 * length s < f"
  shows "parse_json s = (case parse_value f s of
     Some (v, r) \<Rightarrow> if skip_ws r = [] then Some v else None | None \<Rightarrow> None)"
  using parse_fuel [of s "2 * length s + 2" f] assms by (simp add: parse_json_def)

section \<open>Quoting and parsing\<close>

lemma hex_val_char: "n < 16 \<Longrightarrow> hex_val (hex_char n) = Some n"
  by (auto simp: hex_val_def hex_char_def is_digit_char_def byte_in_def)

lemma hex4_byte:
  assumes "of_char c < (128::nat)"
  shows "hex4 (CHR ''0'' # CHR ''0'' # hex_char (of_char c div 16) # hex_char (of_char c mod 16) # r) = Some (of_char c, r)"
proof -
  have "hex_val CHR ''0'' = Some 0" by (simp add: hex_val_def is_digit_char_def)
  then show ?thesis using assms by (simp add: hex_val_char)
qed

lemma rune_len_ascii: "of_char c < (128::nat) \<Longrightarrow> rune_len (c # r) = 1"
  by (simp add: rune_len_def rune_width_def byte_in_def Let_def)

lemma parse_esc_char:
  assumes "of_char c < (128::nat)"
  shows "parse_str (esc_char c @ q) = map_option (\<lambda>(t, p). (c # t, p)) (parse_str q)"
proof -
  have u: "unicode_escape (CHR ''0'' # CHR ''0'' # hex_char (of_char c div 16) # hex_char (of_char c mod 16) # q) = Some ([c], q)"
    using assms by (simp only: unicode_escape_def hex4_byte [OF assms]) (simp add: encode_rune_def)
  have "esc_char c = [CHR 0x5C, CHR ''u'', CHR ''0'', CHR ''0'', hex_char (of_char c div 16), hex_char (of_char c mod 16)]
    \<or> (\<exists>e. esc_char c = [CHR 0x5C, e] \<and> e \<noteq> CHR ''u'' \<and> simple_escape e = Some c)
    \<or> esc_char c = [c] \<and> c \<noteq> CHR 0x22 \<and> c \<noteq> CHR 0x5C \<and> \<not> of_char c < (32::nat)"
    by (simp add: esc_char_def simple_escape_def)
  then show ?thesis
    using u rune_len_ascii [OF assms] by (auto simp del: hex4.simps)
qed

lemma rune_len_prefix:
  assumes "rune_len s \<noteq> 0"
  shows "rune_len (take (rune_len s) s @ q) = rune_len s"
proof -
  obtain a r where s: "s = a # r" using assms by (cases s) (auto simp: rune_len_def)
  have n: "rune_len s = rune_width a" "rune_width a \<noteq> 0"
    using assms by (auto simp: rune_len_def s Let_def split: if_splits)
  then obtain m where m: "rune_width a = Suc m" by (cases "rune_width a") auto
  have "m \<noteq> 0 \<Longrightarrow> length r \<ge> m"
    using assms by (auto simp: rune_len_def s m Let_def split: if_splits)
  then have l: "length r \<ge> m" by (cases m) auto
  have "rune_len (a # take m r @ q) = rune_len (a # r)"
    using l by (simp add: rune_len_def m Let_def)
  then show ?thesis using n m by (simp add: s)
qed

lemma hex4_2028: "hex4 (CHR ''2'' # CHR ''0'' # CHR ''2'' # CHR ''8'' # q) = Some (8232, q)"
  and hex4_2029: "hex4 (CHR ''2'' # CHR ''0'' # CHR ''2'' # CHR ''9'' # q) = Some (8233, q)"
  by (simp_all add: hex_val_def is_digit_char_def)

lemma encode_2028: "encode_rune 8232 = [CHR 0xE2, CHR 0x80, CHR 0xA8]"
  and encode_2029: "encode_rune 8233 = [CHR 0xE2, CHR 0x80, CHR 0xA9]"
  by (simp_all add: encode_rune_def char_of_def bit_0)

lemma parse_esc_rune:
  assumes s: "s = c # r" and c: "\<not> of_char c < (128::nat)" and n: "rune_len s \<noteq> 0"
  shows "parse_str (esc_rune (take (rune_len s) s) @ q) =
    map_option (\<lambda>(t, p). (take (rune_len s) s @ t, p)) (parse_str q)"
proof -
  let ?u = "take (rune_len s) s"
  consider "?u = [CHR 0xE2, CHR 0x80, CHR 0xA8]" | "?u = [CHR 0xE2, CHR 0x80, CHR 0xA9]" | "esc_rune ?u = ?u"
    unfolding esc_rune_def by argo
  then show ?thesis
  proof cases
    case 1
    then show ?thesis
      by (simp add: esc_rune_def unicode_escape_def hex4_2028 encode_2028 del: hex4.simps)
  next
    case 2
    then show ?thesis
      by (simp add: esc_rune_def unicode_escape_def hex4_2029 encode_2029 del: hex4.simps)
  next
    case 3
    obtain u where u: "?u = c # u" using n s by (cases "rune_len s") auto
    have "c \<noteq> CHR 0x22" "c \<noteq> CHR 0x5C" "\<not> of_char c < (32::nat)" using c by auto
    moreover have "rune_len (c # u @ q) = rune_len s"
      using rune_len_prefix [OF n, of q] unfolding u by simp
    moreover have "length (c # u) = rune_len s"
      using u rune_len_le [of s] by (metis length_take min.absorb2)
    moreover have "take (length (c # u)) (c # u @ q) = c # u" "drop (length (c # u)) (c # u @ q) = q"
      by simp_all
    ultimately show ?thesis
      unfolding 3 unfolding u using n by (simp del: take_Suc_Cons drop_Suc_Cons length_Cons)
  qed
qed

lemma parse_quote_body:
  "valid_utf8 s \<Longrightarrow> parse_str (quote_body s @ CHR 0x22 # q) = Some (s, q)"
proof (induction s rule: quote_body.induct)
  case 1
  then show ?case by simp
next
  case (2 c r)
  have n: "rune_len (c # r) \<noteq> 0" and v: "valid_utf8 (drop (rune_len (c # r)) (c # r))"
    using "2.prems" by (auto simp: valid_utf8.simps [of "c # r"] split: if_splits)
  show ?case
  proof (cases "of_char c < (128::nat)")
    case True
    then show ?thesis using 2(1) v by (simp add: rune_len_ascii parse_esc_char)
  next
    case False
    then have "parse_str (quote_body (c # r) @ CHR 0x22 # q) =
      map_option (\<lambda>(t, p). (take (rune_len (c # r)) (c # r) @ t, p))
        (parse_str (quote_body (drop (rune_len (c # r)) (c # r)) @ CHR 0x22 # q))"
      using n parse_esc_rune [OF refl False n] by simp
    then show ?thesis using 2(3) False n v by simp
  qed
qed

lemma parse_value_quote:
  "valid_utf8 s \<Longrightarrow> parse_value (Suc f) (json_quote s @ q) = Some (JStr s, q)"
  by (simp add: json_quote_def is_ws_def parse_quote_body)

text \<open>Quoting writes ASCII for a string of ASCII.\<close>

lemma valid_utf8_ascii: "is_ascii s \<Longrightarrow> valid_utf8 s"
  by (induction s) (simp_all add: valid_utf8.simps rune_len_ascii is_ascii_def)

end
