(* ===== verification/Domain.thy ===== *)
theory Domain
  imports Json
begin

text \<open>
  The domain types of \<^verbatim>\<open>internal/domain\<close> (documents, authors, links, discussions, sources,
  document types), the configuration types the components share, and the identifier
  conversions of \<^verbatim>\<open>internal/domain/docid\<close>.
\<close>

section \<open>Documents\<close>

type_synonym DocumentID = string

record Author =
  a_name :: string
  a_email :: string
  a_handle :: string

record Link =
  l_direction :: string
  l_target :: DocumentID
  l_href :: string
  l_label :: string

definition LinkOutgoing :: string where "LinkOutgoing = ''outgoing''"
definition LinkIncoming :: string where "LinkIncoming = ''incoming''"

record Discussion =
  ds_url :: string
  ds_comment_count :: int
  ds_participants :: "Author list"
  ds_last_activity :: time

record Source =
  so_repo :: string
  so_path :: string
  so_commit :: string
  so_commit_time :: time

record Document =
  d_id :: DocumentID
  d_type :: string
  d_title :: string
  d_status :: string
  d_authors :: "Author list"
  d_created :: time
  d_updated :: time
  d_body :: string
  d_links :: "Link list"
  d_labels :: "string list"
  d_discussion :: "Discussion option"
  d_extensions :: "(string \<times> json) list"
  d_source :: Source

text \<open>The zero values of Go's composite literals.\<close>

definition zero_author :: Author where
  "zero_author = \<lparr>a_name = [], a_email = [], a_handle = []\<rparr>"

definition zero_discussion :: Discussion where
  "zero_discussion = \<lparr>ds_url = [], ds_comment_count = 0, ds_participants = [],
     ds_last_activity = 0\<rparr>"

definition zero_source :: Source where
  "zero_source = \<lparr>so_repo = [], so_path = [], so_commit = [], so_commit_time = 0\<rparr>"

definition zero_document :: Document where
  "zero_document = \<lparr>d_id = [], d_type = [], d_title = [], d_status = [], d_authors = [],
     d_created = 0, d_updated = 0, d_body = [], d_links = [], d_labels = [],
     d_discussion = None, d_extensions = [], d_source = zero_source\<rparr>"

section \<open>Document types and source repositories\<close>

record DocumentType =
  dt_id :: string
  dt_name :: string
  dt_prefix :: string
  dt_lifecycle :: "string list"

text \<open>\<^verbatim>\<open>config.SourceRepo\<close>: where the documents of one type come from.\<close>

record SourceRepo =
  sr_type_id :: string
  sr_repo :: string
  sr_path :: string
  sr_parser :: string
  sr_branch :: string

section \<open>Document identifiers\<close>

definition Canonical :: "unicode \<Rightarrow> string \<Rightarrow> string \<Rightarrow> DocumentID" where
  "Canonical U typeID urlID = ToUpper U typeID @ ''-'' @ urlID"

definition Parse :: "unicode \<Rightarrow> DocumentID \<Rightarrow> (string \<times> string) option" where
  "Parse U s =
     (case IndexByte s CHR ''-'' of
        None \<Rightarrow> None
      | Some idx \<Rightarrow>
          if idx = 0 \<or> idx = length s - 1 then None
          else if IndexByte (drop (Suc idx) s) CHR ''-'' \<noteq> None then None
          else Some (ToLower U (take idx s), drop (Suc idx) s))"

definition URLForm :: "unicode \<Rightarrow> DocumentID \<Rightarrow> string" where
  "URLForm U displayID = (case Parse U displayID of None \<Rightarrow> [] | Some (typeID, urlID) \<Rightarrow> urlID)"

lemma dash_upper: "CHR ''-'' \<in> set (map upper_char s) \<longleftrightarrow> CHR ''-'' \<in> set s"
  by (simp add: image_iff) (metis upper_char_eq_dash)

lemma Parse_split:
  "Parse U s = Some (t, u) \<longleftrightarrow>
     (\<exists>p. s = p @ ''-'' @ u \<and> t = ToLower U p \<and> p \<noteq> [] \<and> u \<noteq> []
        \<and> CHR ''-'' \<notin> set p \<and> CHR ''-'' \<notin> set u)"  (is "?L \<longleftrightarrow> ?R")
proof
  assume ?L
  then obtain i where i: "IndexByte s CHR ''-'' = Some i"
    by (cases "IndexByte s CHR ''-''") (simp_all add: Parse_def)
  with \<open>?L\<close> have ne: "i \<noteq> 0" "i \<noteq> length s - 1"
    and nd: "IndexByte (drop (Suc i) s) CHR ''-'' = None"
    and tu: "t = ToLower U (take i s)" "u = drop (Suc i) s"
    by (simp_all add: Parse_def split: if_splits)
  have lt: "i < length s" and at: "s ! i = CHR ''-''" and np: "CHR ''-'' \<notin> set (take i s)"
    using i by (auto simp: IndexByte_Some)
  have "s = take i s @ ''-'' @ u"
    using lt at tu(2) by (metis append_Cons append_Nil id_take_nth_drop)
  moreover have "take i s \<noteq> []" and "u \<noteq> []" using lt ne tu(2) by auto
  ultimately show ?R using np nd tu by (auto simp: IndexByte_None)
next
  assume ?R
  then obtain p where p: "s = p @ ''-'' @ u" "t = ToLower U p" "p \<noteq> []" "u \<noteq> []"
    "CHR ''-'' \<notin> set p" "CHR ''-'' \<notin> set u" by blast
  have "IndexByte p CHR ''-'' = None" "IndexByte u CHR ''-'' = None"
    using p by (auto simp: IndexByte_None)
  then have "IndexByte s CHR ''-'' = Some (length p)"
    using p(1) by (simp add: IndexByte_append)
  with p \<open>IndexByte u CHR ''-'' = None\<close> show ?L by (auto simp: Parse_def)
qed

text \<open>Docid round trip. For an ASCII type id and a URL id that contain no dash and are not
  empty, parsing the canonical display id gives back the lower-case type id and the same URL
  id, and \<open>URLForm\<close> gives the URL id.\<close>

theorem docid_roundtrip:
  assumes "is_ascii typeID" and "typeID \<noteq> []" and "CHR ''-'' \<notin> set typeID"
    and "urlID \<noteq> []" and "CHR ''-'' \<notin> set urlID"
  shows "Parse U (Canonical U typeID urlID) = Some (ToLower U typeID, urlID)
    \<and> URLForm U (Canonical U typeID urlID) = urlID"
proof -
  have "Parse U (Canonical U typeID urlID) = Some (ToLower U typeID, urlID)"
    unfolding Parse_split Canonical_def
    using assms dash_upper [of typeID]
    by (intro exI [of _ "ToUpper U typeID"])
       (simp add: ToLower_ToUpper_ascii, simp add: ToUpper_ascii)
  then show ?thesis by (simp add: URLForm_def)
qed

theorem docid_roundtrip_witness:
  "Parse ascii_only (Canonical ascii_only ''rfc'' ''0001'') = Some (''rfc'', ''0001'')
    \<and> Canonical ascii_only ''rfc'' ''0001'' = ''RFC-0001''"
proof -
  have "is_ascii ''rfc''" and "ToLower ascii_only ''rfc'' = ''rfc''"
    and "Canonical ascii_only ''rfc'' ''0001'' = ''RFC-0001''"
    by code_simp+
  then show ?thesis using docid_roundtrip [of "''rfc''" "''0001''" ascii_only] by simp
qed

end
