(* ===== verification/Registry.thy ===== *)
theory Registry
  imports Domain
begin

text \<open>
  The document-type registry, \<^verbatim>\<open>internal/domain/registry/registry.go\<close>: validation of the
  configured entries, the loop that builds the two indexes and the ordered list, and the three
  lookups of the \<^verbatim>\<open>DocumentTypeRegistry\<close> interface. The interface is the locale
  \<open>type_registry\<close>, interpreted on the model's \<open>RegGet\<close> and \<open>RegList\<close>.
\<close>

section \<open>Model\<close>

text \<open>\<^verbatim>\<open>config.DocumentType\<close>.\<close>

record ConfigDocumentType =
  ct_id :: string
  ct_name :: string
  ct_prefix :: string
  ct_lifecycle :: "string list"

record Registry =
  byID :: "string \<rightharpoonup> DocumentType"
  byPrefix :: "string \<rightharpoonup> DocumentType"
  ordered :: "DocumentType list"

definition validate :: "unicode \<Rightarrow> ConfigDocumentType \<Rightarrow> DocumentType result" where
  "validate U e =
     (let ident = TrimSpace U (ct_id e); prefix = TrimSpace U (ct_prefix e);
          name = TrimSpace U (ct_name e)
      in if ident = [] then Inl (New ''id is required'')
         else if ident \<noteq> ToLower U ident
         then Inl (Errorf [Lit ''id '', Quo (ct_id e), Lit '' must be lowercase''])
         else if prefix = [] then Inl (New ''prefix is required'')
         else if name = [] then Inl (New ''name is required'')
         else Inr \<lparr>dt_id = ident, dt_name = name, dt_prefix = ToUpper U prefix,
                dt_lifecycle = ct_lifecycle e\<rparr>)"

fun new_loop :: "unicode \<Rightarrow> nat \<Rightarrow> ConfigDocumentType list \<Rightarrow> Registry \<Rightarrow> Registry result" where
  "new_loop U i [] r = Inr r"
| "new_loop U i (e # es) r =
     (case validate U e of
        Inl err \<Rightarrow> Inl (Errorf [Lit ''document_types['', Dec (int i), Lit '']: '', Wrap err])
      | Inr t \<Rightarrow>
          if byID r (dt_id t) \<noteq> None
          then Inl (Errorf [Lit ''document_types['', Dec (int i), Lit '']: duplicate id '', Quo (dt_id t)])
          else if byPrefix r (ToLower U (dt_prefix t)) \<noteq> None
          then Inl (Errorf [Lit ''document_types['', Dec (int i), Lit '']: duplicate prefix '',
                 Quo (dt_prefix t)])
          else new_loop U (Suc i) es
                 (r\<lparr>byID := (byID r)(dt_id t \<mapsto> t),
                    byPrefix := (byPrefix r)(ToLower U (dt_prefix t) \<mapsto> t),
                    ordered := ordered r @ [t]\<rparr>))"

definition empty_registry :: Registry where
  "empty_registry = \<lparr>byID = Map.empty, byPrefix = Map.empty, ordered = []\<rparr>"

definition NewRegistry :: "unicode \<Rightarrow> ConfigDocumentType list \<Rightarrow> Registry result" where
  "NewRegistry U entries =
     (if entries = [] then Inl (Sentinel ErrNoTypes) else new_loop U 0 entries empty_registry)"

definition RegGet :: "Registry \<Rightarrow> string \<Rightarrow> DocumentType option" where
  "RegGet r i = byID r i"

definition RegByPrefix :: "unicode \<Rightarrow> Registry \<Rightarrow> string \<Rightarrow> DocumentType option" where
  "RegByPrefix U r p = byPrefix r (ToLower U p)"

definition RegList :: "Registry \<Rightarrow> DocumentType list" where
  "RegList r = ordered r"

section \<open>The interface\<close>

text \<open>
  What the rest of the program relies on: the lookup by id and the list describe the same set
  of types, with one type per id.
\<close>

locale type_registry =
  fixes get :: "'r \<Rightarrow> string \<Rightarrow> DocumentType option"
    and types :: "'r \<Rightarrow> DocumentType list"
    and inv :: "'r \<Rightarrow> bool"
  assumes get_types: "inv r \<Longrightarrow> get r i = Some t \<longleftrightarrow> t \<in> set (types r) \<and> dt_id t = i"
begin

lemma get_id: "inv r \<Longrightarrow> get r i = Some t \<Longrightarrow> dt_id t = i"
  by (simp add: get_types)

lemma known_ids: "inv r \<Longrightarrow> (get r i \<noteq> None) = (i \<in> dt_id ` set (types r))"
proof -
  assume "inv r"
  then have "(\<exists>t. get r i = Some t) = (i \<in> dt_id ` set (types r))"
    by (auto simp: get_types)
  then show ?thesis by simp
qed

lemma types_inj: "inv r \<Longrightarrow> inj_on dt_id (set (types r))"
  by (rule inj_onI) (metis get_types option.inject)

end

section \<open>Correctness of the constructor\<close>

text \<open>The registry that a list of validated types stands for, and the invariant of a loaded one.\<close>

definition registry_of :: "unicode \<Rightarrow> DocumentType list \<Rightarrow> Registry" where
  "registry_of U ts = \<lparr>byID = index_by dt_id ts,
     byPrefix = index_by (\<lambda>t. ToLower U (dt_prefix t)) ts, ordered = ts\<rparr>"

definition types_ok :: "unicode \<Rightarrow> DocumentType list \<Rightarrow> bool" where
  "types_ok U ts = (distinct (map dt_id ts) \<and> distinct (map (\<lambda>t. ToLower U (dt_prefix t)) ts))"

definition reg_wf :: "unicode \<Rightarrow> Registry \<Rightarrow> bool" where
  "reg_wf U r = (types_ok U (ordered r) \<and> r = registry_of U (ordered r))"

lemma registry_of_snoc:
  assumes "dt_id t \<notin> set (map dt_id ts)"
    and "ToLower U (dt_prefix t) \<notin> set (map (\<lambda>t. ToLower U (dt_prefix t)) ts)"
  shows "registry_of U (ts @ [t]) =
    (registry_of U ts)\<lparr>byID := (byID (registry_of U ts))(dt_id t \<mapsto> t),
       byPrefix := (byPrefix (registry_of U ts))(ToLower U (dt_prefix t) \<mapsto> t),
       ordered := ordered (registry_of U ts) @ [t]\<rparr>"
  using assms by (simp add: registry_of_def index_by_snoc)

lemma new_loop_iff:
  assumes "types_ok U ts"
  shows "new_loop U i es (registry_of U ts) = Inr r \<longleftrightarrow>
    (\<exists>ts'. map (validate U) es = map Inr ts' \<and> types_ok U (ts @ ts') \<and> r = registry_of U (ts @ ts'))"
  using assms
proof (induction es arbitrary: i ts)
  case Nil
  then show ?case by auto
next
  case (Cons e es)
  show ?case
  proof (cases "validate U e")
    case (Inl err)
    then show ?thesis by auto
  next
    case (Inr t)
    let ?dup_id = "dt_id t \<in> set (map dt_id ts)"
    let ?dup_p = "ToLower U (dt_prefix t) \<in> set (map (\<lambda>t. ToLower U (dt_prefix t)) ts)"
    have di: "byID (registry_of U ts) (dt_id t) \<noteq> None \<longleftrightarrow> ?dup_id"
      and px: "byPrefix (registry_of U ts) (ToLower U (dt_prefix t)) \<noteq> None \<longleftrightarrow> ?dup_p"
      by (simp_all add: registry_of_def del: set_map)
    show ?thesis
    proof (cases "?dup_id \<or> ?dup_p")
      case True
      then have "\<not> types_ok U (ts @ t # ts'')" for ts''
        by (auto simp: types_ok_def)
      with True di px Inr show ?thesis by (auto simp: Cons_eq_map_conv)
    next
      case False
      then have ok: "types_ok U (ts @ [t])"
        using Cons.prems by (auto simp: types_ok_def)
      have "new_loop U i (e # es) (registry_of U ts) = new_loop U (Suc i) es (registry_of U (ts @ [t]))"
        using False di px Inr by (simp add: registry_of_snoc del: set_map)
      with Cons.IH [OF ok] Inr show ?thesis by (auto simp: Cons_eq_map_conv)
    qed
  qed
qed

lemma empty_registry_of: "empty_registry = registry_of U []"
  by (simp add: empty_registry_def registry_of_def)

lemma NewRegistry_iff:
  "NewRegistry U es = Inr r \<longleftrightarrow>
    es \<noteq> [] \<and> (\<exists>ts. map (validate U) es = map Inr ts \<and> types_ok U ts \<and> r = registry_of U ts)"
  using new_loop_iff [of U "[]" 0 es r]
  by (auto simp: NewRegistry_def types_ok_def empty_registry_of [of U])

lemma NewRegistry_wf: "NewRegistry U es = Inr r \<Longrightarrow> reg_wf U r"
  by (auto simp: NewRegistry_iff reg_wf_def registry_of_def)

lemma reg_wf_byID: "reg_wf U r \<Longrightarrow> byID r = index_by dt_id (ordered r)"
  unfolding reg_wf_def registry_of_def by (metis Registry.select_convs(1))

lemma reg_wf_byPrefix:
  "reg_wf U r \<Longrightarrow> byPrefix r = index_by (\<lambda>t. ToLower U (dt_prefix t)) (ordered r)"
  unfolding reg_wf_def registry_of_def by (metis Registry.select_convs(2))

interpretation reg: type_registry RegGet RegList "reg_wf U" for U
proof
  fix r i t
  assume wf: "reg_wf U r"
  then have "distinct (map dt_id (ordered r))"
    by (simp add: reg_wf_def types_ok_def)
  then show "RegGet r i = Some t \<longleftrightarrow> t \<in> set (RegList r) \<and> dt_id t = i"
    by (simp add: RegGet_def RegList_def reg_wf_byID [OF wf] index_by_Some)
qed

section \<open>Properties\<close>

text \<open>The document types of \<^verbatim>\<open>config.defaults\<close>, as configured.\<close>

definition default_document_types :: "ConfigDocumentType list" where
  "default_document_types =
     [\<lparr>ct_id = ''rfc'', ct_name = ''Request for Comments'', ct_prefix = ''RFC'',
       ct_lifecycle = [''Draft'', ''Proposed'', ''Accepted'', ''Rejected'', ''Superseded'']\<rparr>,
      \<lparr>ct_id = ''adr'', ct_name = ''Architecture Decision Record'', ct_prefix = ''ADR'',
       ct_lifecycle = [''Proposed'', ''Accepted'', ''Deprecated'', ''Superseded'']\<rparr>]"

definition default_types :: "DocumentType list" where
  "default_types =
     [\<lparr>dt_id = ''rfc'', dt_name = ''Request for Comments'', dt_prefix = ''RFC'',
       dt_lifecycle = [''Draft'', ''Proposed'', ''Accepted'', ''Rejected'', ''Superseded'']\<rparr>,
      \<lparr>dt_id = ''adr'', dt_name = ''Architecture Decision Record'', dt_prefix = ''ADR'',
       dt_lifecycle = [''Proposed'', ''Accepted'', ''Deprecated'', ''Superseded'']\<rparr>]"

lemma default_registry:
  "NewRegistry ascii_only default_document_types = Inr (registry_of ascii_only default_types)"
proof -
  have "map (validate ascii_only) default_document_types = map Inr default_types"
    and "types_ok ascii_only default_types" and "default_document_types \<noteq> []"
    by code_simp+
  then show ?thesis unfolding NewRegistry_iff by blast
qed

text \<open>The registry constructor accepts a configuration exactly when it is not empty, every
  entry validates, no two ids are equal and no two prefixes are equal up to case.\<close>

theorem registry_accepts_iff:
  "(\<exists>r. NewRegistry U es = Inr r) \<longleftrightarrow>
     es \<noteq> [] \<and> (\<exists>ts. map (validate U) es = map Inr ts \<and> distinct (map dt_id ts)
       \<and> distinct (map (\<lambda>t. ToLower U (dt_prefix t)) ts))"
  by (auto simp: NewRegistry_iff types_ok_def)

text \<open>After a successful load \<open>RegList\<close> returns the validated types in configuration order,
  \<open>RegGet\<close> finds exactly the listed type with the given id, and \<open>RegByPrefix\<close> exactly the
  listed type whose prefix agrees with the argument up to case.\<close>

theorem registry_lookups:
  assumes "NewRegistry U es = Inr r"
  shows "map Inr (RegList r) = map (validate U) es
    \<and> (\<forall>i t. RegGet r i = Some t \<longleftrightarrow> t \<in> set (RegList r) \<and> dt_id t = i)
    \<and> (\<forall>p t. RegByPrefix U r p = Some t \<longleftrightarrow>
         t \<in> set (RegList r) \<and> ToLower U (dt_prefix t) = ToLower U p)"
proof (intro conjI allI)
  fix i p t
  have wf: "reg_wf U r" using assms by (rule NewRegistry_wf)
  then have d: "distinct (map (\<lambda>t. ToLower U (dt_prefix t)) (ordered r))"
    by (simp add: reg_wf_def types_ok_def)
  show "map Inr (RegList r) = map (validate U) es"
    using assms by (auto simp: NewRegistry_iff RegList_def registry_of_def)
  show "RegGet r i = Some t \<longleftrightarrow> t \<in> set (RegList r) \<and> dt_id t = i"
    using wf by (rule reg.get_types)
  show "RegByPrefix U r p = Some t \<longleftrightarrow>
      t \<in> set (RegList r) \<and> ToLower U (dt_prefix t) = ToLower U p"
    using index_by_Some [OF d]
    by (simp add: RegByPrefix_def RegList_def reg_wf_byPrefix [OF wf])
qed

theorem registry_lookups_witness:
  "RegGet (registry_of ascii_only default_types) ''adr'' = Some (default_types ! 1)
    \<and> RegByPrefix ascii_only (registry_of ascii_only default_types) ''rFc'' = Some (default_types ! 0)"
proof -
  have "default_types ! 1 \<in> set default_types" "default_types ! 0 \<in> set default_types"
    "dt_id (default_types ! 1) = ''adr''"
    "ToLower ascii_only (dt_prefix (default_types ! 0)) = ToLower ascii_only ''rFc''"
    by code_simp+
  then show ?thesis
    using registry_lookups [OF default_registry] by (simp add: RegList_def registry_of_def)
qed

text \<open>A type's prefix need not be its id in upper case. The constructor accepts a type with
  id \<open>rfc\<close> and prefix \<open>SEC\<close>, so the display prefix of such a type's documents (which is the
  id in upper case) differs from the prefix the registry announces.\<close>

theorem registry_prefix_independent_of_id:
  "\<exists>es r t. NewRegistry ascii_only es = Inr r \<and> t \<in> set (RegList r)
     \<and> ToLower ascii_only (dt_prefix t) \<noteq> dt_id t"
proof -
  let ?es = "[\<lparr>ct_id = ''rfc'', ct_name = ''Security'', ct_prefix = ''SEC'', ct_lifecycle = []\<rparr>]"
  let ?t = "\<lparr>dt_id = ''rfc'', dt_name = ''Security'', dt_prefix = ''SEC'', dt_lifecycle = []\<rparr>"
  have v: "map (validate ascii_only) ?es = map Inr [?t]" "types_ok ascii_only [?t]"
    and n: "ToLower ascii_only (dt_prefix ?t) \<noteq> dt_id ?t"
    by code_simp+
  have "NewRegistry ascii_only ?es = Inr (registry_of ascii_only [?t])"
    unfolding NewRegistry_iff using v by blast
  moreover have "?t \<in> set (RegList (registry_of ascii_only [?t]))"
    by (simp add: RegList_def registry_of_def)
  ultimately show ?thesis using n by blast
qed

end
