(* ===== verification/Keyset.thy ===== *)
theory Keyset
  imports Main "HOL-Library.Multiset"
begin

text \<open>
  Keyset pagination, independent of what is listed: the standard-library routines the stores
  use (\<^verbatim>\<open>sort.Slice\<close> and \<^verbatim>\<open>sort.Search\<close>), one page of a row list, a client that follows the next
  cursor from page to page, and the contract between an order and a cursor (the locale
  \<open>keyset\<close>) under which following the cursors visits every row exactly once, also when the
  rows change between the requests.
\<close>

section \<open>sort.Slice\<close>

text \<open>
  \<^verbatim>\<open>sort.Slice(rows, less)\<close>: some ordering of the rows by \<open>less\<close>. Insertion sort computes one;
  \<open>sort_slice_unique\<close> says that under a strict total order there is only one, so the choice of
  algorithm does not matter.
\<close>

fun insert_row :: "('a \<Rightarrow> 'a \<Rightarrow> bool) \<Rightarrow> 'a \<Rightarrow> 'a list \<Rightarrow> 'a list" where
  "insert_row lss x [] = [x]"
| "insert_row lss x (y # ys) = (if lss y x then y # insert_row lss x ys else x # y # ys)"

definition sort_slice :: "('a \<Rightarrow> 'a \<Rightarrow> bool) \<Rightarrow> 'a list \<Rightarrow> 'a list" where
  "sort_slice lss xs = foldr (insert_row lss) xs []"

lemma mset_insert_row [simp]: "mset (insert_row lss x ys) = add_mset x (mset ys)"
  by (induction ys) auto

lemma mset_sort_slice [simp]: "mset (sort_slice lss xs) = mset xs"
  by (induction xs) (auto simp: sort_slice_def)

lemma set_sort_slice [simp]: "set (sort_slice lss xs) = set xs"
  by (metis mset_sort_slice set_mset_mset)

lemma length_sort_slice [simp]: "length (sort_slice lss xs) = length xs"
  by (metis mset_sort_slice size_mset)

lemma distinct_sort_slice [simp]: "distinct (sort_slice lss xs) = distinct xs"
  by (metis mset_sort_slice mset_eq_imp_distinct_iff)

lemma set_insert_row [simp]: "set (insert_row lss x ys) = insert x (set ys)"
  by (induction ys) auto

text \<open>A list that is in order already is left alone.\<close>

lemma sort_slice_id: "sorted_wrt (\<lambda>a b. \<not> lss b a) xs \<Longrightarrow> sort_slice lss xs = xs"
proof (induction xs)
  case Nil
  then show ?case by (simp add: sort_slice_def)
next
  case (Cons x xs)
  then have "sort_slice lss xs = xs" by simp
  then show ?case using Cons.prems by (cases xs) (simp_all add: sort_slice_def)
qed

text \<open>With a comparison of keys the result is sorted by the key.\<close>

lemma insert_row_key:
  fixes f :: "'a \<Rightarrow> 'k :: linorder"
  shows "sorted_wrt (\<lambda>a b. f a \<le> f b) ys \<Longrightarrow> sorted_wrt (\<lambda>a b. f a \<le> f b) (insert_row (\<lambda>a b. f a < f b) x ys)"
  by (induction ys) auto

lemma sort_slice_key:
  fixes f :: "'a \<Rightarrow> 'k :: linorder"
  shows "sorted_wrt (\<lambda>a b. f a \<le> f b) (sort_slice (\<lambda>a b. f a < f b) xs)"
  by (induction xs) (auto simp: sort_slice_def insert_row_key)

section \<open>sort.Search\<close>

text \<open>\<^verbatim>\<open>sort.Search(n, f)\<close>, the binary search of the standard library on \<open>[i, j)\<close>.\<close>

function search_loop :: "(nat \<Rightarrow> bool) \<Rightarrow> nat \<Rightarrow> nat \<Rightarrow> nat" where
  "search_loop f i j =
     (if i < j then let h = (i + j) div 2
                    in if \<not> f h then search_loop f (h + 1) j else search_loop f i h
      else i)"
  by pat_completeness auto
termination
  by (relation "measure (\<lambda>(f, i, j). j - i)") auto

declare search_loop.simps [simp del]

definition sort_search :: "nat \<Rightarrow> (nat \<Rightarrow> bool) \<Rightarrow> nat" where
  "sort_search n f = search_loop f 0 n"

lemma search_loop_least:
  assumes "i \<le> k" and "k \<le> j" and "\<forall>m. i \<le> m \<and> m < k \<longrightarrow> \<not> f m" and "\<forall>m. k \<le> m \<and> m < j \<longrightarrow> f m"
  shows "search_loop f i j = k"
  using assms
proof (induction f i j rule: search_loop.induct)
  case (1 f i j)
  show ?case
  proof (cases "i < j")
    case False
    with "1.prems" show ?thesis by (subst search_loop.simps) simp
  next
    case True
    let ?h = "(i + j) div 2"
    have h: "i \<le> ?h" "?h < j" using True by auto
    show ?thesis
    proof (cases "f ?h")
      case True
      then have "k \<le> ?h" using "1.prems" h by (metis leI)
      then have "search_loop f i ?h = k"
        using "1.IH"(2) [OF \<open>i < j\<close> refl] True "1.prems" h by auto
      then show ?thesis using True \<open>i < j\<close> by (subst search_loop.simps) (simp add: Let_def)
    next
      case False
      then have "?h < k" using "1.prems" h by (metis leI)
      then have "search_loop f (?h + 1) j = k"
        using "1.IH"(1) [OF \<open>i < j\<close> refl] False "1.prems" h by auto
      then show ?thesis using False \<open>i < j\<close> by (subst search_loop.simps) (simp add: Let_def)
    qed
  qed
qed

text \<open>On a list whose elements satisfy \<open>P\<close> from some position on, the search finds that position.\<close>

lemma sort_search_drop:
  assumes "sorted_wrt (\<lambda>a b. P a \<longrightarrow> P b) rows"
  shows "drop (sort_search (length rows) (\<lambda>i. P (rows ! i))) rows = filter P rows"
proof -
  let ?k = "length (takeWhile (\<lambda>r. \<not> P r) rows)"
  have le: "?k \<le> length rows" by (rule length_takeWhile_le)
  have "\<not> P (rows ! m)" if "m < ?k" for m
    using that by (metis nth_mem set_takeWhileD takeWhile_nth)
  moreover have from_k: "P (rows ! m)" if m: "?k \<le> m" "m < length rows" for m
  proof -
    have "P (rows ! ?k)" using nth_length_takeWhile [of "\<lambda>r. \<not> P r" rows] m by auto
    then show ?thesis
      using m assms sorted_wrt_nth_less [OF assms, of ?k m] by (cases "?k = m") auto
  qed
  ultimately have "sort_search (length rows) (\<lambda>i. P (rows ! i)) = ?k"
    unfolding sort_search_def using le by (intro search_loop_least) auto
  moreover have "filter P rows = drop ?k rows"
  proof -
    have "filter P (takeWhile (\<lambda>r. \<not> P r) rows) = []"
      by (auto simp: filter_empty_conv dest: set_takeWhileD)
    moreover have "\<forall>r \<in> set (drop ?k rows). P r"
    proof
      fix r
      assume "r \<in> set (drop ?k rows)"
      then obtain i where "i < length rows - ?k" "r = rows ! (?k + i)"
        by (auto simp: in_set_conv_nth)
      then show "P r" using from_k [of "?k + i"] by simp
    qed
    moreover have "rows = takeWhile (\<lambda>r. \<not> P r) rows @ drop ?k rows"
      by (metis append_take_drop_id takeWhile_eq_take)
    ultimately show ?thesis by (metis append_Nil filter_True filter_append)
  qed
  ultimately show ?thesis by simp
qed

section \<open>Pages and clients\<close>

text \<open>
  One page: at most \<open>limit\<close> rows, and the cursor of the last one when there are more.
\<close>

definition page_of :: "('a \<Rightarrow> 'c) \<Rightarrow> nat \<Rightarrow> 'a list \<Rightarrow> 'a list \<times> 'c option" where
  "page_of cur limit rows =
     (if limit < length rows then (take limit rows, Some (cur (rows ! (limit - 1))))
      else (rows, None))"

text \<open>
  A client that asks for the page after a cursor and follows the next cursor it is given.
  Request number \<open>k\<close> is answered by the \<open>k\<close>-th element of the list (the server may have changed
  in between); the flag says whether the last page was reached.
\<close>

fun follow :: "('c option \<Rightarrow> 'a list \<times> 'c option) list \<Rightarrow> 'c option \<Rightarrow> 'a list \<times> bool" where
  "follow [] c = ([], False)"
| "follow (ask # asks) c =
     (case ask c of
        (items, None) \<Rightarrow> (items, True)
      | (items, Some c') \<Rightarrow> (case follow asks (Some c') of (more, fin) \<Rightarrow> (items @ more, fin)))"

text \<open>
  Two servers that agree on the cursors of interest, and hand out only such cursors, give a
  client the same items.
\<close>

lemma follow_cong:
  assumes "length fs = length gs" and "ok c"
    and "\<forall>i < length fs. \<forall>c. ok c \<longrightarrow> (fs ! i) c = (gs ! i) c \<and> ok (snd ((gs ! i) c))"
  shows "follow fs c = follow gs c"
  using assms
proof (induction fs gs arbitrary: c rule: list_induct2)
  case Nil
  then show ?case by simp
next
  case (Cons f fs g gs)
  have eq: "f c = g c" and nx: "ok (snd (g c))" using Cons.prems(1) Cons.prems(2) [rule_format, of 0] by auto
  have "follow fs c' = follow gs c'" if "ok c'" for c'
    by (rule Cons.IH [OF that]) (use Cons.prems(2) in force)
  then show ?case using eq nx by (auto split: prod.splits option.splits)
qed

section \<open>The contract of an order and its cursors\<close>

locale keyset =
  fixes lt :: "'a \<Rightarrow> 'a \<Rightarrow> bool"
    and after :: "'a \<Rightarrow> 'c \<Rightarrow> bool"
    and cur :: "'a \<Rightarrow> 'c"
  assumes lt_irrefl: "\<not> lt a a"
    and lt_trans: "lt a b \<Longrightarrow> lt b d \<Longrightarrow> lt a d"
    and after_cur: "after b (cur a) \<longleftrightarrow> lt a b"
    and after_mono: "after a c \<Longrightarrow> lt a b \<Longrightarrow> after b c"
begin

lemma insert_row_sorted:
  assumes "sorted_wrt lt ys" and "\<forall>y \<in> set ys. lt x y \<or> lt y x"
  shows "sorted_wrt lt (insert_row lt x ys)"
  using assms by (induction ys) (auto dest: lt_trans)

lemma sort_slice_sorted:
  assumes "distinct xs" and "\<forall>a \<in> set xs. \<forall>b \<in> set xs. a \<noteq> b \<longrightarrow> lt a b \<or> lt b a"
  shows "sorted_wrt lt (sort_slice lt xs)"
  using assms
proof (induction xs)
  case Nil
  then show ?case by (simp add: sort_slice_def)
next
  case (Cons x xs)
  then have "sorted_wrt lt (sort_slice lt xs)" by simp
  moreover have "\<forall>y \<in> set (sort_slice lt xs). lt x y \<or> lt y x"
    using Cons.prems by auto
  ultimately have "sorted_wrt lt (insert_row lt x (sort_slice lt xs))"
    by (rule insert_row_sorted)
  then show ?case by (simp add: sort_slice_def)
qed

lemma sorted_distinct: "sorted_wrt lt xs \<Longrightarrow> distinct xs"
  by (induction xs) (auto simp: lt_irrefl)

lemma sorted_unique:
  assumes "sorted_wrt lt xs" and "sorted_wrt lt ys" and "set xs = set ys"
  shows "xs = ys"
  using assms
proof (induction xs arbitrary: ys)
  case Nil
  then show ?case by simp
next
  case (Cons x xs)
  then obtain y ys' where ys: "ys = y # ys'" by (cases ys) auto
  have "x = y"
  proof (rule ccontr)
    assume "x \<noteq> y"
    then have "lt x y" and "lt y x" using Cons.prems ys by auto
    then show False using lt_trans lt_irrefl by blast
  qed
  moreover have "x \<notin> set xs" and "y \<notin> set ys'"
    using Cons.prems ys by (auto simp: lt_irrefl)
  then have "set xs = set ys'"
    using Cons.prems(3) ys \<open>x = y\<close> by (simp add: insert_ident)
  ultimately show ?case using Cons ys by auto
qed

lemma sort_slice_unique:
  assumes "distinct xs" and "\<forall>a \<in> set xs. \<forall>b \<in> set xs. a \<noteq> b \<longrightarrow> lt a b \<or> lt b a"
    and "sorted_wrt lt ys" and "mset ys = mset xs"
  shows "ys = sort_slice lt xs"
  using sorted_unique sort_slice_sorted [OF assms(1,2)] assms(3,4)
  by (metis mset_eq_setD set_sort_slice)

text \<open>The rows a request returns from: those after the cursor.\<close>

definition seek :: "'a list \<Rightarrow> 'c option \<Rightarrow> 'a list" where
  "seek rows c = (case c of None \<Rightarrow> rows | Some k \<Rightarrow> filter (\<lambda>r. after r k) rows)"

lemma sorted_seek: "sorted_wrt lt rows \<Longrightarrow> sorted_wrt lt (seek rows c)"
  by (cases c) (simp_all add: seek_def sorted_wrt_filter)

lemma after_sorted:
  "sorted_wrt lt rows \<Longrightarrow> sorted_wrt (\<lambda>a b. after a c \<longrightarrow> after b c) rows"
  by (erule sorted_wrt_mono_rel [rotated]) (auto intro: after_mono)

lemma drop_search_seek:
  assumes "sorted_wrt lt rows"
  shows "drop (sort_search (length rows) (\<lambda>i. after (rows ! i) k)) rows = seek rows (Some k)"
  using sort_search_drop [OF after_sorted [OF assms]] by (simp add: seek_def)

lemma page_split:
  assumes s: "sorted_wrt lt rows" and lim: "0 < limit"
    and p: "page_of cur limit rows = (items, Some c)"
  shows "items = take limit rows" and "r \<in> set items \<Longrightarrow> \<not> after r c"
    and "r \<in> set rows \<Longrightarrow> r \<notin> set items \<Longrightarrow> after r c"
    and "r \<in> set items \<Longrightarrow> after r' c \<Longrightarrow> lt r r'"
proof -
  let ?l = "rows ! (limit - 1)"
  from p have len: "limit < length rows" and items: "items = take limit rows" and c: "c = cur ?l"
    by (auto simp: page_of_def split: if_splits)
  show "items = take limit rows" by fact
  have upto: "lt r ?l \<or> r = ?l" if "r \<in> set items" for r
  proof -
    from that items obtain i where i: "i < limit" "r = rows ! i"
      using len by (auto simp: in_set_conv_nth)
    then show ?thesis
      using sorted_wrt_nth_less [OF s, of i "limit - 1"] len lim
      by (cases "i = limit - 1") auto
  qed
  show "r \<in> set items \<Longrightarrow> \<not> after r c"
    using upto c after_cur lt_trans lt_irrefl by blast
  show "after r c" if "r \<in> set rows" "r \<notin> set items"
  proof -
    from that(1) obtain i where i: "i < length rows" "r = rows ! i"
      by (auto simp: in_set_conv_nth)
    with that(2) items len have "limit \<le> i"
      by (metis in_set_conv_nth leI length_take min.absorb2 nth_take order_less_imp_le)
    then have "lt ?l r" using sorted_wrt_nth_less [OF s, of "limit - 1" i] i lim by simp
    then show ?thesis by (simp add: c after_cur)
  qed
  show "r \<in> set items \<Longrightarrow> after r' c \<Longrightarrow> lt r r'"
    using upto c after_cur lt_trans by blast
qed

text \<open>
  Following the cursors over a changing row list: whatever each request sees, the items are
  strictly increasing, so nothing is returned twice, they come from the rows that were seen,
  and when the client reaches the last page it has every row that was there at each request.
\<close>

abbreviation asks :: "nat \<Rightarrow> 'a list list \<Rightarrow> ('c option \<Rightarrow> 'a list \<times> 'c option) list" where
  "asks limit snaps \<equiv> map (\<lambda>rows c. page_of cur limit (seek rows c)) snaps"

lemma follow_sorted:
  assumes "\<forall>rows \<in> set snaps. sorted_wrt lt rows" and "0 < limit"
  shows "sorted_wrt lt (fst (follow (asks limit snaps) c))
    \<and> (\<forall>r \<in> set (fst (follow (asks limit snaps) c)). \<forall>k. c = Some k \<longrightarrow> after r k)"
  using assms
proof (induction snaps arbitrary: c)
  case Nil
  then show ?case by simp
next
  case (Cons rows snaps)
  have s: "sorted_wrt lt (seek rows c)" using Cons.prems by (simp add: sorted_seek)
  have sk: "\<forall>r \<in> set (seek rows c). \<forall>k. c = Some k \<longrightarrow> after r k" by (auto simp: seek_def)
  show ?case
  proof (cases "page_of cur limit (seek rows c)")
    case (Pair items nx)
    show ?thesis
    proof (cases nx)
      case None
      with Pair have "items = seek rows c" by (auto simp: page_of_def split: if_splits)
      then show ?thesis using Pair None s sk by simp
    next
      case (Some c')
      note p = page_split [OF s \<open>0 < limit\<close> Pair [unfolded Some]]
      let ?more = "fst (follow (asks limit snaps) (Some c'))"
      have IH: "sorted_wrt lt ?more" "\<forall>r \<in> set ?more. after r c'"
        using Cons.IH [of "Some c'"] Cons.prems by auto
      have "sorted_wrt lt items" using p(1) s by (simp add: sorted_wrt_take)
      moreover have "\<forall>a \<in> set items. \<forall>b \<in> set ?more. lt a b" using p(4) IH(2) by blast
      moreover have "\<forall>b \<in> set ?more. \<forall>k. c = Some k \<longrightarrow> after b k"
      proof (intro ballI allI impI)
        fix b k
        assume b: "b \<in> set ?more" and c: "c = Some k"
        have "items \<noteq> []" using p(1) Pair Some \<open>0 < limit\<close> by (auto simp: page_of_def split: if_splits)
        then obtain a where a: "a \<in> set items" by fastforce
        then have "a \<in> set (seek rows c)" using p(1) by (auto dest: in_set_takeD)
        then have "after a k" using sk c by blast
        moreover have "lt a b" using p(4) a b IH(2) by blast
        ultimately show "after b k" by (rule after_mono)
      qed
      ultimately show ?thesis
        using Pair Some IH sk p(1) by (auto simp: sorted_wrt_append split: prod.splits dest: in_set_takeD)
    qed
  qed
qed

lemma follow_complete:
  assumes "\<forall>rows \<in> set snaps. sorted_wrt lt rows" and "0 < limit"
    and "snd (follow (asks limit snaps) c)"
    and "\<forall>rows \<in> set snaps. r \<in> set rows" and "\<forall>k. c = Some k \<longrightarrow> after r k"
  shows "r \<in> set (fst (follow (asks limit snaps) c))"
  using assms
proof (induction snaps arbitrary: c)
  case Nil
  then show ?case by simp
next
  case (Cons rows snaps)
  have s: "sorted_wrt lt (seek rows c)" using Cons.prems by (simp add: sorted_seek)
  have rin: "r \<in> set (seek rows c)"
    using Cons.prems by (auto simp: seek_def split: option.splits)
  show ?case
  proof (cases "page_of cur limit (seek rows c)")
    case (Pair items nx)
    show ?thesis
    proof (cases nx)
      case None
      with Pair have "items = seek rows c" by (auto simp: page_of_def split: if_splits)
      then show ?thesis using Pair None rin by simp
    next
      case (Some c')
      note p = page_split [OF s \<open>0 < limit\<close> Pair [unfolded Some]]
      show ?thesis
      proof (cases "r \<in> set items")
        case True
        then show ?thesis using Pair Some by (auto split: prod.splits)
      next
        case False
        have "snd (follow (asks limit snaps) (Some c'))"
          using Cons.prems(3) Pair Some by (auto split: prod.splits)
        then have "r \<in> set (fst (follow (asks limit snaps) (Some c')))"
          using Cons.IH Cons.prems p(3) [OF rin False] by auto
        then show ?thesis using Pair Some by (auto split: prod.splits)
      qed
    qed
  qed
qed

lemma follow_sound:
  "r \<in> set (fst (follow (asks limit snaps) c)) \<Longrightarrow> \<exists>rows \<in> set snaps. r \<in> set rows"
proof (induction snaps arbitrary: c)
  case Nil
  then show ?case by simp
next
  case (Cons rows snaps)
  have "set (fst (page_of cur limit (seek rows c))) \<subseteq> set rows"
    by (auto simp: page_of_def seek_def split: option.splits dest!: in_set_takeD)
  then show ?case
    using Cons.prems Cons.IH [of "snd (page_of cur limit (seek rows c))"]
    by (cases "page_of cur limit (seek rows c)") (auto split: prod.splits option.splits)
qed

text \<open>With no change between the requests, \<open>length rows + 1\<close> requests are enough to finish.\<close>

lemma follow_terminates:
  assumes "sorted_wrt lt rows" and "0 < limit" and "length (seek rows c) < n"
  shows "snd (follow (asks limit (replicate n rows)) c)"
  using assms(3)
proof (induction n arbitrary: c)
  case 0
  then show ?case by simp
next
  case (Suc n)
  have s: "sorted_wrt lt (seek rows c)" using assms by (simp add: sorted_seek)
  show ?case
  proof (cases "page_of cur limit (seek rows c)")
    case (Pair items nx)
    show ?thesis
    proof (cases nx)
      case None
      then show ?thesis using Pair by simp
    next
      case (Some c')
      note p = page_split [OF s assms(2) Pair [unfolded Some]]
      have first: "seek rows c \<noteq> []"
        using Pair Some by (auto simp: page_of_def split: if_splits)
      then have first': "hd (seek rows c) \<in> set items"
        using p(1) assms(2) by (cases "seek rows c"; cases limit) auto
      have "set (seek rows (Some c')) \<subset> set (seek rows c)"
      proof -
        have "set (seek rows (Some c')) \<subseteq> set (seek rows c)"
        proof
          fix r
          assume r: "r \<in> set (seek rows (Some c'))"
          have "lt (hd (seek rows c)) r" using p(4) first' r by (auto simp: seek_def)
          moreover have "\<forall>k. c = Some k \<longrightarrow> after (hd (seek rows c)) k"
            using hd_in_set [OF first] by (auto simp: seek_def simp del: hd_in_set)
          ultimately have "\<forall>k. c = Some k \<longrightarrow> after r k" using after_mono by blast
          moreover have "r \<in> set rows" using r by (simp add: seek_def)
          ultimately show "r \<in> set (seek rows c)" by (simp add: seek_def split: option.splits)
        qed
        moreover have "hd (seek rows c) \<notin> set (seek rows (Some c'))"
          using p(2) first' by (auto simp: seek_def)
        ultimately show ?thesis using hd_in_set [OF first] by blast
      qed
      then have "card (set (seek rows (Some c'))) < card (set (seek rows c))"
        by (intro psubset_card_mono) auto
      then have "length (seek rows (Some c')) < length (seek rows c)"
        using sorted_distinct sorted_seek [OF assms(1)] by (metis distinct_card)
      then have "snd (follow (asks limit (replicate n rows)) (Some c'))"
        using Suc by simp
      then show ?thesis using Pair Some by (auto split: prod.splits)
    qed
  qed
qed

lemma follow_all:
  assumes "sorted_wrt lt rows" and "0 < limit" and "length rows < n"
  shows "follow (asks limit (replicate n rows)) None = (rows, True)"
proof -
  let ?res = "follow (asks limit (replicate n rows)) None"
  have fin: "snd ?res"
    using follow_terminates [OF assms(1,2), of None n] assms(3) by (simp add: seek_def)
  have "sorted_wrt lt (fst ?res)"
    using follow_sorted [of "replicate n rows" limit None] assms by auto
  moreover have "set (fst ?res) = set rows"
  proof
    show "set (fst ?res) \<subseteq> set rows"
      using follow_sound [of _ limit "replicate n rows" None] by fastforce
    show "set rows \<subseteq> set (fst ?res)"
      using follow_complete [of "replicate n rows" limit None] assms fin by auto
  qed
  ultimately have "fst ?res = rows" using sorted_unique assms(1) by blast
  then show ?thesis using fin by (metis prod.collapse)
qed

end

end
