(* ===== verification/Steps.thy ===== *)
theory Steps
  imports Main
begin

text \<open>
  Labelled transition systems: finite runs of a step relation, and the locale \<open>stable_under\<close>
  for a predicate that every allowed step preserves, which carries it along whole runs. The
  queue, the worker and the rate limiter state their invariants through it.
\<close>

inductive run :: "('s \<Rightarrow> 'l \<Rightarrow> 's \<Rightarrow> bool) \<Rightarrow> 's \<Rightarrow> 'l list \<Rightarrow> 's \<Rightarrow> bool" for step where
  run_nil: "run step s [] s"
| run_cons: "step s l t \<Longrightarrow> run step t ls u \<Longrightarrow> run step s (l # ls) u"

inductive_simps run_Nil_iff [simp]: "run step s [] t"
inductive_simps run_Cons_iff: "run step s (l # ls) t"

lemma run_append: "run step s (xs @ ys) u \<longleftrightarrow> (\<exists>t. run step s xs t \<and> run step t ys u)"
  by (induction xs arbitrary: s) (auto simp: run_Cons_iff)

lemma run_snoc: "run step s xs t \<Longrightarrow> step t l u \<Longrightarrow> run step s (xs @ [l]) u"
  by (auto simp: run_append run_Cons_iff)

locale stable_under =
  fixes step :: "'s \<Rightarrow> 'l \<Rightarrow> 's \<Rightarrow> bool"
    and P :: "'s \<Rightarrow> bool"
    and ok :: "'l \<Rightarrow> bool"
  assumes step_stable: "P s \<Longrightarrow> ok l \<Longrightarrow> step s l t \<Longrightarrow> P t"
begin

lemma run_stable: "run step s ls t \<Longrightarrow> P s \<Longrightarrow> list_all ok ls \<Longrightarrow> P t"
  by (induction rule: run.induct) (auto intro: step_stable)

end

end
