(* ===== verification/Queue.thy ===== *)
theory Queue
  imports Keyset Json Steps "HOL-Library.Product_Lexorder"
begin

text \<open>
  The Postgres-backed job queue, \<^verbatim>\<open>internal/worker/queue/queue.go\<close>, over the \<^verbatim>\<open>jobs\<close> table of
  \<^verbatim>\<open>db/migrations/0001_init.up.sql\<close>: each method with the SQL statement it issues as an
  operation on the table, the queue as a step relation, its invariants and its ownership
  guarantee.

  The table is the list of its rows in insertion order. What a statement cannot know is an
  argument: the two clocks (\<open>gnow\<close> of the process, \<open>now\<close> of the database), the generated uuid,
  the rows other transactions hold locked, the random number of the jitter, and the fate of
  the round trip to the database.
\<close>

section \<open>Table and statements\<close>

datatype JobState = Queued | Leased | Dead

record JobRow =
  j_id :: nat
  j_kind :: string
  j_dedup :: string
  j_payload :: json
  j_state :: JobState
  j_attempts :: int
  j_locked_by :: "string option"
  j_locked_at :: "time option"
  j_run_after :: time
  j_created :: time
  j_updated :: time

type_synonym jobs = "JobRow list"

record Job =
  job_id :: nat
  job_kind :: string
  job_dedup :: string
  job_payload :: json
  job_attempts :: int

record Queue =
  q_maxAttempt :: int
  q_baseDelay :: duration
  q_maxDelay :: duration

text \<open>
  What becomes of a statement: it is executed and acknowledged, it is not executed and an error
  comes back, or it is executed and the acknowledgement is lost, so that an error comes back.
\<close>

datatype exec = Acked | Refused goerr | Lost goerr

text \<open>A \<^verbatim>\<open>timestamptz\<close> holds microseconds; the driver drops the rest of a \<^verbatim>\<open>time.Time\<close>.\<close>

definition pg_time :: "time \<Rightarrow> time" where
  "pg_time t = (t div 1000) * 1000"

definition second :: duration where "second = 1000000000"
definition minute :: duration where "minute = 60 * second"

text \<open>\<^verbatim>\<open>queue.New\<close>; the fields of \<open>Options\<close> are those of the queue.\<close>

definition NewQueue :: "Queue \<Rightarrow> Queue" where
  "NewQueue opts = \<lparr>q_maxAttempt = (if q_maxAttempt opts \<le> 0 then 5 else q_maxAttempt opts),
     q_baseDelay = (if q_baseDelay opts \<le> 0 then second else q_baseDelay opts),
     q_maxDelay = (if q_maxDelay opts \<le> 0 then 30 * minute else q_maxDelay opts)\<rparr>"

definition same_key :: "string \<Rightarrow> string \<Rightarrow> JobRow \<Rightarrow> bool" where
  "same_key kind dedup r = (j_kind r = kind \<and> j_dedup r = dedup)"

text \<open>\<^verbatim>\<open>INSERT INTO jobs ... ON CONFLICT (kind, dedup_key) DO UPDATE\<close>.\<close>

definition enqueue_stmt :: "nat \<Rightarrow> time \<Rightarrow> string \<Rightarrow> string \<Rightarrow> json \<Rightarrow> time \<Rightarrow> jobs \<Rightarrow> jobs" where
  "enqueue_stmt uuid now kind dedup body runAfter js =
     (if \<exists>r \<in> set js. same_key kind dedup r
      then map (\<lambda>r. if same_key kind dedup r
                    then r\<lparr>j_run_after := max (j_run_after r) runAfter, j_updated := now\<rparr> else r) js
      else js @ [\<lparr>j_id = uuid, j_kind = kind, j_dedup = dedup, j_payload = body, j_state = Queued,
                  j_attempts = 0, j_locked_by = None, j_locked_at = None, j_run_after = runAfter,
                  j_created = now, j_updated = now\<rparr>])"

text \<open>Running a statement on the table: the new table, and the error of the call if any.\<close>

fun run_stmt :: "exec \<Rightarrow> (goerr \<Rightarrow> goerr) \<Rightarrow> ('t \<Rightarrow> 't) \<Rightarrow> 't \<Rightarrow> 't \<times> goerr option" where
  "run_stmt Acked wrp f js = (f js, None)"
| "run_stmt (Refused e) wrp f js = (js, Some (wrp e))"
| "run_stmt (Lost e) wrp f js = (f js, Some (wrp e))"

definition Enqueue :: "exec \<Rightarrow> nat \<Rightarrow> time \<Rightarrow> time \<Rightarrow> string \<Rightarrow> string \<Rightarrow> json result \<Rightarrow> time \<Rightarrow> jobs
    \<Rightarrow> jobs \<times> goerr option" where
  "Enqueue db uuid gnow now kind dedupKey payload runAfter js =
     (if kind = [] then (js, Some (New ''queue.Enqueue: kind is required''))
      else if dedupKey = [] then (js, Some (New ''queue.Enqueue: dedup_key is required''))
      else let ra = (if runAfter = 0 then gnow else runAfter) in
        (case payload of
           Inl e \<Rightarrow> (js, Some (Errorf [Lit ''marshal payload: '', Wrap e]))
         | Inr body \<Rightarrow>
             run_stmt db (\<lambda>e. Errorf [Lit ''enqueue '', Lit kind, Lit ''/'', Lit dedupKey, Lit '': '', Wrap e])
               (enqueue_stmt uuid now kind dedupKey body (pg_time ra)) js))"

section \<open>Leasing\<close>

definition eligible :: "time \<Rightarrow> string list \<Rightarrow> nat set \<Rightarrow> JobRow \<Rightarrow> bool" where
  "eligible now kinds locked r =
     (j_state r = Queued \<and> j_run_after r \<le> now \<and> j_kind r \<in> set kinds \<and> j_id r \<notin> locked)"

text \<open>The order of \<^verbatim>\<open>ORDER BY run_after, created_at\<close>; ties are left in table order.\<close>

definition lease_less :: "JobRow \<Rightarrow> JobRow \<Rightarrow> bool" where
  "lease_less a b = ((j_run_after a, j_created a) < (j_run_after b, j_created b))"

definition claimed :: "time \<Rightarrow> string list \<Rightarrow> nat set \<Rightarrow> nat \<Rightarrow> jobs \<Rightarrow> nat list" where
  "claimed now kinds locked n js =
     map j_id (take n (sort_slice lease_less (filter (eligible now kinds locked) js)))"

definition lease_row :: "time \<Rightarrow> string \<Rightarrow> JobRow \<Rightarrow> JobRow" where
  "lease_row now worker r = r\<lparr>j_state := Leased, j_locked_by := Some worker, j_locked_at := Some now,
     j_attempts := j_attempts r + 1, j_updated := now\<rparr>"

definition lease_stmt :: "time \<Rightarrow> string \<Rightarrow> nat list \<Rightarrow> jobs \<Rightarrow> jobs" where
  "lease_stmt now worker cl js = map (\<lambda>r. if j_id r \<in> set cl then lease_row now worker r else r) js"

definition job_of :: "JobRow \<Rightarrow> Job" where
  "job_of r = \<lparr>job_id = j_id r, job_kind = j_kind r, job_dedup = j_dedup r, job_payload = j_payload r,
     job_attempts = j_attempts r\<rparr>"

definition Lease :: "exec \<Rightarrow> time \<Rightarrow> nat set \<Rightarrow> string \<Rightarrow> string list \<Rightarrow> int \<Rightarrow> jobs
    \<Rightarrow> jobs \<times> Job list result" where
  "Lease db now locked workerID kinds n js =
     (if n \<le> 0 then (js, Inl (New ''queue.Lease: n must be positive''))
      else if workerID = [] then (js, Inl (New ''queue.Lease: workerID is required''))
      else if length kinds = 0 then (js, Inr [])
      else let cl = claimed now kinds locked (nat n) js;
               js' = lease_stmt now workerID cl js
           in (case db of
                 Acked \<Rightarrow> (js', Inr (map job_of (filter (\<lambda>r. j_id r \<in> set cl) js')))
               | Refused e \<Rightarrow> (js, Inl (Errorf [Lit ''lease: '', Wrap e]))
               | Lost e \<Rightarrow> (js', Inl (Errorf [Lit ''rows: '', Wrap e]))))"

section \<open>Completion\<close>

definition succeed_stmt :: "nat \<Rightarrow> jobs \<Rightarrow> jobs" where
  "succeed_stmt i js = filter (\<lambda>r. j_id r \<noteq> i) js"

text \<open>
  In \<open>Succeed\<close> and \<open>Fail\<close> the id is printed with \<^verbatim>\<open>%s\<close>; the uuid's text is not modelled, its
  number stands for it.
\<close>

definition Succeed :: "exec \<Rightarrow> nat \<Rightarrow> jobs \<Rightarrow> jobs \<times> goerr option" where
  "Succeed db i js =
     run_stmt db (\<lambda>e. Errorf [Lit ''succeed '', Dec (int i), Lit '': '', Wrap e]) (succeed_stmt i) js"

definition errString :: "unicode \<Rightarrow> goerr option \<Rightarrow> string" where
  "errString U err = (case err of None \<Rightarrow> [] | Some e \<Rightarrow> Error U e)"

text \<open>
  \<^verbatim>\<open>jsonb_set(payload, '{_last_error}', to_jsonb(text), true)\<close>: defined on objects; Postgres
  refuses a scalar, and an array under a key that is no index.
\<close>

fun jsonb_set :: "json \<Rightarrow> string \<Rightarrow> json \<Rightarrow> json option" where
  "jsonb_set (JObj ms) k v = Some (JObj (filter (\<lambda>(k', _). k' \<noteq> k) ms @ [(k, v)]))"
| "jsonb_set _ k v = None"

definition dead_row :: "time \<Rightarrow> string \<Rightarrow> JobRow \<Rightarrow> JobRow option" where
  "dead_row now cause r =
     map_option (\<lambda>p. r\<lparr>j_state := Dead, j_locked_by := None, j_locked_at := None, j_updated := now,
         j_payload := p\<rparr>)
       (jsonb_set (j_payload r) ''_last_error'' (JStr cause))"

definition dead_stmt :: "time \<Rightarrow> nat \<Rightarrow> string \<Rightarrow> jobs \<Rightarrow> jobs option" where
  "dead_stmt now i cause js = those (map (\<lambda>r. if j_id r = i then dead_row now cause r else Some r) js)"

definition requeue_stmt :: "time \<Rightarrow> nat \<Rightarrow> int \<Rightarrow> jobs \<Rightarrow> jobs" where
  "requeue_stmt now i ms js =
     map (\<lambda>r. if j_id r = i
              then r\<lparr>j_state := Queued, j_locked_by := None, j_locked_at := None,
                     j_run_after := now + ms * 1000000, j_updated := now\<rparr> else r) js"

text \<open>
  \<^verbatim>\<open>time.Duration(math.Pow(2, float64(attempt-1)))\<close>: powers of two below one truncate to zero,
  and from \<open>2 ^ 63\<close> on the conversion is implementation-specific (the argument \<open>ovf\<close>; amd64
  gives the least, arm64 the largest 64-bit integer).
\<close>

definition pow2_duration :: "int \<Rightarrow> int \<Rightarrow> duration" where
  "pow2_duration ovf k = (if k < 0 then 0 else if k \<le> 62 then 2 ^ nat k else ovf)"

definition backoff_raw :: "int \<Rightarrow> Queue \<Rightarrow> int \<Rightarrow> duration" where
  "backoff_raw ovf q attempt =
     (let raw = wrap64 (pow2_duration ovf (attempt - 1) * q_baseDelay q)
      in if raw \<le> 0 \<or> raw > q_maxDelay q then q_maxDelay q else raw)"

text \<open>\<open>rnd n\<close> is \<^verbatim>\<open>rand.Int64N(n)\<close>.\<close>

definition backoff :: "int \<Rightarrow> (int \<Rightarrow> int) \<Rightarrow> Queue \<Rightarrow> int \<Rightarrow> duration" where
  "backoff ovf rnd q attempt = rnd (wrap64 (backoff_raw ovf q attempt + 1))"

text \<open>The environment of a call that may back off: Unicode tables, conversion, random source.\<close>

record qenv =
  e_uni :: unicode
  e_ovf :: int
  e_rnd :: "int \<Rightarrow> int"

definition sql_error :: goerr where
  "sql_error = New ''ERROR: cannot set path in scalar''"

definition Fail :: "qenv \<Rightarrow> exec \<Rightarrow> time \<Rightarrow> Queue \<Rightarrow> nat \<Rightarrow> int \<Rightarrow> goerr option \<Rightarrow> jobs
    \<Rightarrow> jobs \<times> goerr option" where
  "Fail env db now q i attempts cause js =
     (if attempts \<ge> q_maxAttempt q
      then let wrp = (\<lambda>e. Errorf [Lit ''dead-letter '', Dec (int i), Lit '': '', Wrap e]) in
        (case dead_stmt now i (errString (e_uni env) cause) js of
           None \<Rightarrow> (js, Some (wrp sql_error))
         | Some js' \<Rightarrow> run_stmt db wrp (\<lambda>_. js') js)
      else let next = backoff (e_ovf env) (e_rnd env) q attempts in
        run_stmt db (\<lambda>e. Errorf [Lit ''requeue '', Dec (int i), Lit '': '', Wrap e])
          (requeue_stmt now i (next div 1000000)) js)"

text \<open>\<^verbatim>\<open>SELECT kind, state, count(*) FROM jobs GROUP BY kind, state\<close>.\<close>

definition Depth :: "jobs \<Rightarrow> ((string \<times> JobState) \<times> int) list" where
  "Depth js = map (\<lambda>k. (k, int (length (filter (\<lambda>r. (j_kind r, j_state r) = k) js))))
     (remdups (map (\<lambda>r. (j_kind r, j_state r)) js))"

section \<open>The queue as a transition system\<close>

text \<open>
  A label is what an observer of the queue sees: the key of an enqueue, the worker and the jobs
  a lease handed out, the id of a completion. The steps are the calls of the sources, with
  every choice of clocks, locks, random numbers and database failures. Every payload the
  program enqueues is a struct, so a JSON object, and a generated uuid is fresh.
\<close>

datatype qlabel = LEnqueue string string | LLease string "Job list" | LSucceed nat | LFail nat int

inductive qstep :: "Queue \<Rightarrow> jobs \<Rightarrow> qlabel \<Rightarrow> jobs \<Rightarrow> bool" for q where
  step_enqueue: "uuid \<notin> j_id ` set js \<Longrightarrow>
    Enqueue db uuid gnow now kind dedup (Inr (JObj ms)) runAfter js = (js', err) \<Longrightarrow>
    qstep q js (LEnqueue kind dedup) js'"
| step_lease: "Lease db now locked worker kinds n js = (js', res) \<Longrightarrow>
    qstep q js (LLease worker (case res of Inr handed \<Rightarrow> handed | Inl e \<Rightarrow> [])) js'"
| step_succeed: "Succeed db i js = (js', err) \<Longrightarrow> qstep q js (LSucceed i) js'"
| step_fail: "Fail env db now q i attempts cause js = (js', err) \<Longrightarrow> qstep q js (LFail i attempts) js'"

definition is_obj :: "json \<Rightarrow> bool" where
  "is_obj j = (case j of JObj _ \<Rightarrow> True | _ \<Rightarrow> False)"

definition row_ok :: "JobRow \<Rightarrow> bool" where
  "row_ok r = ((j_state r = Leased) = (j_locked_by r \<noteq> None) \<and> (j_state r = Leased) = (j_locked_at r \<noteq> None)
     \<and> 0 \<le> j_attempts r \<and> (j_state r = Leased \<longrightarrow> 0 < j_attempts r) \<and> is_obj (j_payload r)
     \<and> j_kind r \<noteq> [] \<and> j_dedup r \<noteq> [])"

definition row_key :: "JobRow \<Rightarrow> string \<times> string" where
  "row_key r = (j_kind r, j_dedup r)"

definition jobs_wf :: "jobs \<Rightarrow> bool" where
  "jobs_wf js = (distinct (map j_id js) \<and> distinct (map row_key js) \<and> list_all row_ok js)"

text \<open>The statements that rewrite rows in place keep ids and keys.\<close>

lemma map_ids_keys:
  assumes "\<And>r. r \<in> set js \<Longrightarrow> j_id (f r) = j_id r \<and> row_key (f r) = row_key r"
  shows "map j_id (map f js) = map j_id js \<and> map row_key (map f js) = map row_key js"
  using assms by auto

lemma jobs_wf_map:
  assumes "jobs_wf js" and "\<And>r. r \<in> set js \<Longrightarrow> j_id (f r) = j_id r \<and> row_key (f r) = row_key r"
    and "\<And>r. r \<in> set js \<Longrightarrow> row_ok r \<Longrightarrow> row_ok (f r)"
  shows "jobs_wf (map f js)"
proof -
  have "map j_id (map f js) = map j_id js" "map row_key (map f js) = map row_key js"
    using map_ids_keys [of js f] assms(2) by blast+
  moreover have "list_all row_ok (map f js)"
    using assms(1,3) by (auto simp: jobs_wf_def list_all_iff)
  ultimately show ?thesis using assms(1) by (simp only: jobs_wf_def)
qed

lemma those_map_Some:
  "those (map f xs) = Some ys \<longleftrightarrow> length ys = length xs \<and> (\<forall>i < length xs. f (xs ! i) = Some (ys ! i))"
proof (induction xs arbitrary: ys)
  case Nil
  then show ?case by auto
next
  case (Cons x xs)
  show ?case
  proof (cases ys)
    case Nil
    then show ?thesis by (auto split: option.splits)
  next
    case (Cons y ys')
    have "(\<forall>i < Suc (length xs). f ((x # xs) ! i) = Some ((y # ys') ! i)) \<longleftrightarrow>
        f x = Some y \<and> (\<forall>i < length xs. f (xs ! i) = Some (ys' ! i))"
      by (auto simp: less_Suc_eq_0_disj)
    then show ?thesis using Cons Cons.IH by (auto split: option.splits)
  qed
qed

lemma those_total: "(\<And>x. x \<in> set xs \<Longrightarrow> f x = Some (g x)) \<Longrightarrow> those (map f xs) = Some (map g xs)"
  by (simp add: those_map_Some)

definition dead_payload :: "string \<Rightarrow> json \<Rightarrow> json" where
  "dead_payload cause j = (case j of
      JObj ms \<Rightarrow> JObj (filter (\<lambda>(k', _). k' \<noteq> ''_last_error'') ms @ [(''_last_error'', JStr cause)])
    | j' \<Rightarrow> j')"

definition dead_letter :: "time \<Rightarrow> nat \<Rightarrow> string \<Rightarrow> JobRow \<Rightarrow> JobRow" where
  "dead_letter now i cause r =
     (if j_id r = i then r\<lparr>j_state := Dead, j_locked_by := None, j_locked_at := None, j_updated := now,
        j_payload := dead_payload cause (j_payload r)\<rparr> else r)"

text \<open>On well-formed tables the dead-letter statement never fails.\<close>

lemma dead_stmt_wf:
  assumes "jobs_wf js"
  shows "dead_stmt now i cause js = Some (map (dead_letter now i cause) js)"
proof -
  have "(if j_id r = i then dead_row now cause r else Some r) = Some (dead_letter now i cause r)"
    if "r \<in> set js" for r
  proof -
    have "is_obj (j_payload r)" using assms that by (simp add: jobs_wf_def list_all_iff row_ok_def)
    then obtain ms where "j_payload r = JObj ms" by (auto simp: is_obj_def split: json.splits)
    then show ?thesis by (simp add: dead_row_def dead_letter_def dead_payload_def)
  qed
  then show ?thesis unfolding dead_stmt_def by (rule those_total)
qed

lemma wf_enqueue_stmt:
  assumes "jobs_wf js" and "uuid \<notin> j_id ` set js" and "is_obj body" and "kind \<noteq> []" and "dedup \<noteq> []"
  shows "jobs_wf (enqueue_stmt uuid now kind dedup body ra js)"
proof (cases "\<exists>r \<in> set js. same_key kind dedup r")
  case True
  then show ?thesis
    using assms(1) unfolding enqueue_stmt_def
    by (auto intro!: jobs_wf_map simp: row_key_def row_ok_def)
next
  case False
  then show ?thesis
    using assms by (auto simp: enqueue_stmt_def jobs_wf_def row_key_def same_key_def row_ok_def)
qed

lemma wf_lease_stmt: "jobs_wf js \<Longrightarrow> jobs_wf (lease_stmt now w cl js)"
  unfolding lease_stmt_def
  by (rule jobs_wf_map) (auto simp: lease_row_def row_key_def row_ok_def)

lemma wf_succeed_stmt: "jobs_wf js \<Longrightarrow> jobs_wf (succeed_stmt i js)"
  by (auto simp: jobs_wf_def succeed_stmt_def list_all_iff intro: distinct_map_filter)

lemma wf_requeue_stmt: "jobs_wf js \<Longrightarrow> jobs_wf (requeue_stmt now i ms js)"
  unfolding requeue_stmt_def by (rule jobs_wf_map) (auto simp: row_key_def row_ok_def)

lemma wf_dead: "jobs_wf js \<Longrightarrow> jobs_wf (map (dead_letter now i cause) js)"
  by (rule jobs_wf_map)
    (auto simp: dead_letter_def dead_payload_def row_key_def row_ok_def is_obj_def split: json.splits)

lemma run_stmt_cases:
  assumes "run_stmt db wrp f js = (js', err)"
  obtains "js' = js" "err \<noteq> None" | "js' = f js"
  using assms by (cases db) auto

lemma Enqueue_cases:
  assumes "Enqueue db uuid gnow now kind dedup (Inr body) ra js = (js', err)"
  obtains "js' = js" "err \<noteq> None"
  | "kind \<noteq> []" "dedup \<noteq> []"
    "js' = enqueue_stmt uuid now kind dedup body (pg_time (if ra = 0 then gnow else ra)) js"
  using assms by (auto simp: Enqueue_def Let_def split: if_splits elim!: run_stmt_cases)

lemma Lease_cases:
  assumes "Lease db now locked w kinds n js = (js', res)"
  obtains "js' = js" "res = Inr [] \<or> (\<exists>e. res = Inl e)"
  | cl where "0 < n" "cl = claimed now kinds locked (nat n) js" "js' = lease_stmt now w cl js"
    "res = Inr (map job_of (filter (\<lambda>r. j_id r \<in> set cl) js')) \<or> (\<exists>e. res = Inl e)"
  using assms by (auto simp: Lease_def Let_def split: if_splits exec.splits)

lemma Fail_cases:
  assumes "jobs_wf js" and "Fail env db now q i a cause js = (js', err)"
  obtains "js' = js" "err \<noteq> None"
  | "q_maxAttempt q \<le> a" "js' = map (dead_letter now i (errString (e_uni env) cause)) js"
  | "a < q_maxAttempt q" "js' = requeue_stmt now i (backoff (e_ovf env) (e_rnd env) q a div 1000000) js"
  using assms(2)
  by (auto simp: Fail_def Let_def dead_stmt_wf [OF assms(1)] split: if_splits elim!: run_stmt_cases)

lemma qstep_wf:
  assumes "qstep q js l js'" and "jobs_wf js"
  shows "jobs_wf js'"
  using assms(1)
proof cases
  case (step_enqueue uuid db gnow now kind dedup ms runAfter err)
  from step_enqueue(3) show ?thesis
    by (rule Enqueue_cases)
      (use assms(2) step_enqueue(2) in \<open>auto intro!: wf_enqueue_stmt simp: is_obj_def\<close>)
next
  case (step_lease db now locked worker kinds n res)
  from step_lease(2) show ?thesis
    by (rule Lease_cases) (use assms(2) in \<open>auto intro: wf_lease_stmt\<close>)
next
  case (step_succeed db i err)
  then show ?thesis
    using assms(2) by (auto simp: Succeed_def intro: wf_succeed_stmt elim!: run_stmt_cases)
next
  case (step_fail env db now i attempts cause err)
  from assms(2) step_fail(2) show ?thesis
    by (rule Fail_cases) (use assms(2) in \<open>auto intro: wf_dead wf_requeue_stmt\<close>)
qed

interpretation qinv: stable_under "qstep q" jobs_wf "\<lambda>_. True" for q
  by unfold_locales (blast intro: qstep_wf)

section \<open>Leasing and ownership\<close>

lemma claimed_eligible:
  "i \<in> set (claimed now kinds locked n js) \<Longrightarrow> \<exists>r \<in> set js. j_id r = i \<and> eligible now kinds locked r"
  by (auto simp: claimed_def dest!: in_set_takeD)

lemma same_id: "jobs_wf js \<Longrightarrow> r \<in> set js \<Longrightarrow> r' \<in> set js \<Longrightarrow> j_id r = j_id r' \<Longrightarrow> r = r'"
  by (auto simp: jobs_wf_def distinct_map dest: inj_onD)

lemma same_row_key: "jobs_wf js \<Longrightarrow> r \<in> set js \<Longrightarrow> r' \<in> set js \<Longrightarrow> row_key r = row_key r' \<Longrightarrow> r = r'"
  by (auto simp: jobs_wf_def distinct_map dest: inj_onD)

definition held :: "nat \<Rightarrow> string \<Rightarrow> jobs \<Rightarrow> bool" where
  "held i w js = (jobs_wf js \<and> (\<exists>r \<in> set js. j_id r = i \<and> j_state r = Leased \<and> j_locked_by r = Some w))"

fun not_completing :: "nat \<Rightarrow> qlabel \<Rightarrow> bool" where
  "not_completing i (LSucceed i') = (i' \<noteq> i)"
| "not_completing i (LFail i' a) = (i' \<noteq> i)"
| "not_completing i _ = True"

text \<open>A row that a statement leaves alone but for the columns a re-enqueue touches.\<close>

lemma held_map:
  assumes "held i w js" and "jobs_wf (map f js)"
    and "\<And>r. r \<in> set js \<Longrightarrow> j_id r = i \<Longrightarrow> j_state r = Leased \<Longrightarrow>
      j_id (f r) = i \<and> j_state (f r) = Leased \<and> j_locked_by (f r) = j_locked_by r"
  shows "held i w (map f js)"
proof -
  obtain r where r: "r \<in> set js" "j_id r = i" "j_state r = Leased" "j_locked_by r = Some w"
    using assms(1) by (auto simp: held_def)
  then have "f r \<in> set (map f js)" "j_id (f r) = i" "j_state (f r) = Leased" "j_locked_by (f r) = Some w"
    using assms(3) [of r] by auto
  then show ?thesis using assms(2) unfolding held_def by blast
qed

lemma held_enqueue_stmt:
  assumes "held i w js" and "jobs_wf (enqueue_stmt uuid now kind dedup body ra js)"
  shows "held i w (enqueue_stmt uuid now kind dedup body ra js)"
proof (cases "\<exists>r \<in> set js. same_key kind dedup r")
  case True
  then show ?thesis
    using assms unfolding enqueue_stmt_def by (auto intro!: held_map)
next
  case False
  then show ?thesis using assms by (auto simp: held_def enqueue_stmt_def)
qed

lemma held_lease_stmt:
  assumes "held i w js"
  shows "held i w (lease_stmt now w' (claimed now kinds locked n js) js)"
proof -
  obtain r where r: "r \<in> set js" "j_id r = i" "j_state r = Leased" and wf: "jobs_wf js"
    using assms by (auto simp: held_def)
  have "i \<notin> set (claimed now kinds locked n js)"
  proof
    assume "i \<in> set (claimed now kinds locked n js)"
    then obtain r' where "r' \<in> set js" "j_id r' = i" "j_state r' = Queued"
      by (auto dest!: claimed_eligible simp: eligible_def)
    then show False using same_id [OF wf r(1)] r by auto
  qed
  then show ?thesis
    using held_map [OF assms wf_lease_stmt [OF wf, unfolded lease_stmt_def]]
    unfolding lease_stmt_def by auto
qed

lemma held_step:
  assumes "held i w js" and "not_completing i l" and "qstep q js l js'"
  shows "held i w js'"
proof -
  have wf: "jobs_wf js" and wf': "jobs_wf js'"
    using assms(1) qstep_wf [OF assms(3)] by (auto simp: held_def)
  from assms(3) show ?thesis
  proof cases
    case (step_enqueue uuid db gnow now kind dedup ms runAfter err)
    from step_enqueue(3) show ?thesis
      by (rule Enqueue_cases) (use assms(1) wf' in \<open>auto intro: held_enqueue_stmt\<close>)
  next
    case (step_lease db now locked worker kinds n res)
    from step_lease(2) show ?thesis
      by (rule Lease_cases) (use assms(1) in \<open>auto intro: held_lease_stmt\<close>)
  next
    case (step_succeed db i' err)
    then have "js' = js \<or> js' = succeed_stmt i' js" and "i' \<noteq> i"
      using assms(2) by (auto simp: Succeed_def elim!: run_stmt_cases)
    then show ?thesis
      using assms(1) wf' by (auto simp: held_def succeed_stmt_def)
  next
    case (step_fail env db now i' attempts cause err)
    then have ne: "i' \<noteq> i" using assms(2) by simp
    from wf step_fail(2) show ?thesis
    proof (rule Fail_cases)
      assume "js' = map (dead_letter now i' (errString (e_uni env) cause)) js"
      then show ?thesis using held_map [OF assms(1)] wf' ne by (auto simp: dead_letter_def)
    next
      assume eq: "js' = requeue_stmt now i' (backoff (e_ovf env) (e_rnd env) q attempts div 1000000) js"
      show ?thesis
        unfolding eq requeue_stmt_def
        using held_map [OF assms(1)] wf' [unfolded eq requeue_stmt_def] ne by auto
    qed (use assms(1) in simp)
  qed
qed

interpretation qown: stable_under "qstep q" "held i w" "not_completing i" for q i w
  by unfold_locales (blast intro: held_step)

lemma lease_step_hands:
  assumes "jobs_wf js" and "qstep q js (LLease w handed) js'" and "j \<in> set handed"
  shows "(\<exists>r \<in> set js. j_id r = job_id j \<and> j_state r = Queued) \<and> held (job_id j) w js'"
  using assms(2)
proof cases
  case (step_lease db now locked kinds n res)
  have wf': "jobs_wf js'" using qstep_wf [OF assms(2,1)] .
  from step_lease(2) show ?thesis
  proof (rule Lease_cases)
    assume "res = Inr [] \<or> (\<exists>e. res = Inl e)"
    then show ?thesis using assms(3) step_lease(1) by auto
  next
    fix cl
    assume cl: "cl = claimed now kinds locked (nat n) js" and js': "js' = lease_stmt now w cl js"
      and res: "res = Inr (map job_of (filter (\<lambda>r. j_id r \<in> set cl) js')) \<or> (\<exists>e. res = Inl e)"
    then obtain r' where "r' \<in> set js'" "j_id r' \<in> set cl" "j = job_of r'"
      using assms(3) step_lease(1) by auto
    then obtain r where r: "r \<in> set js" "j_id r \<in> set cl" "r' = lease_row now w r" "job_id j = j_id r"
      by (auto simp: js' lease_stmt_def job_of_def lease_row_def split: if_splits)
    have "eligible now kinds locked r"
      using claimed_eligible r(1,2) cl same_id [OF assms(1) r(1)] by metis
    moreover have "held (job_id j) w js'"
      unfolding held_def using \<open>r' \<in> set js'\<close> wf' r
      by (intro conjI bexI [of _ r']) (auto simp: lease_row_def)
    ultimately show ?thesis using r by (auto simp: eligible_def)
  qed
qed

lemma lease_not_held:
  assumes "held i w js" and "qstep q js (LLease w' handed) js'"
  shows "i \<notin> job_id ` set handed"
proof
  assume "i \<in> job_id ` set handed"
  then obtain r where "r \<in> set js" "j_id r = i" "j_state r = Queued"
    using lease_step_hands [OF _ assms(2)] assms(1) by (auto simp: held_def)
  then show False using assms(1) same_id by (fastforce simp: held_def)
qed

text \<open>C11: Every table the queue operations can produce, under any interleaving of calls, clocks,
  lock conflicts and database failures, has unique ids and unique (kind, dedup key) pairs, and a
  row carries a worker and a lock time exactly while it is leased; attempts never go negative.\<close>

theorem queue_invariant:
  assumes "run (qstep q) [] ls js"
  shows "distinct (map j_id js) \<and> distinct (map row_key js)
    \<and> (\<forall>r \<in> set js. (j_state r = Leased \<longleftrightarrow> j_locked_by r \<noteq> None)
        \<and> (j_state r = Leased \<longleftrightarrow> j_locked_at r \<noteq> None) \<and> 0 \<le> j_attempts r)"
proof -
  have "jobs_wf []" by (simp add: jobs_wf_def)
  then have "jobs_wf js" using qinv.run_stable [OF assms] by (simp add: list_all_iff)
  then show ?thesis by (auto simp: jobs_wf_def list_all_iff row_ok_def)
qed

text \<open>A run to evaluate: one ingest job enqueued at time 1000 and leased by worker \<open>w\<close> at 2000.\<close>

definition demo_queue :: Queue where
  "demo_queue = NewQueue \<lparr>q_maxAttempt = 0, q_baseDelay = 0, q_maxDelay = 0\<rparr>"

definition demo_row :: JobRow where
  "demo_row = \<lparr>j_id = 7, j_kind = ''ingest'', j_dedup = ''k'', j_payload = JObj [], j_state = Queued,
     j_attempts = 0, j_locked_by = None, j_locked_at = None, j_run_after = 1000, j_created = 1000,
     j_updated = 1000\<rparr>"

lemma demo_enqueue: "qstep q [] (LEnqueue ''ingest'' ''k'') [demo_row]"
proof (rule step_enqueue)
  show "Enqueue Acked 7 1000 1000 ''ingest'' ''k'' (Inr (JObj [])) 0 [] = ([demo_row], None)"
    by (simp add: Enqueue_def enqueue_stmt_def pg_time_def demo_row_def)
qed simp

lemma demo_lease: "qstep q [demo_row] (LLease ''w'' [job_of (lease_row 2000 ''w'' demo_row)])
    [lease_row 2000 ''w'' demo_row]"
proof -
  have "Lease Acked 2000 {} ''w'' [''ingest''] 1 [demo_row] =
      ([lease_row 2000 ''w'' demo_row], Inr [job_of (lease_row 2000 ''w'' demo_row)])"
    by (simp add: Lease_def claimed_def sort_slice_def eligible_def demo_row_def lease_stmt_def lease_row_def)
  from step_lease [OF this] show ?thesis by simp
qed

lemma demo_run1: "run (qstep q) [] [LEnqueue ''ingest'' ''k''] [demo_row]"
  by (rule run_cons, rule demo_enqueue, rule run_nil)

lemma demo_run2: "run (qstep q) [] [LEnqueue ''ingest'' ''k'', LLease ''w'' [job_of (lease_row 2000 ''w'' demo_row)]]
    [lease_row 2000 ''w'' demo_row]"
  by (rule run_cons, rule demo_enqueue, rule run_cons, rule demo_lease, rule run_nil)

theorem queue_invariant_witness: "distinct (map j_id [lease_row 2000 ''w'' demo_row])"
  using queue_invariant [OF demo_run2] by blast

text \<open>C10: A lease is exclusive. Once \<open>Lease\<close> has handed a job to a worker, then whatever calls
  follow, by any workers, as long as none of them completes that job (\<open>Succeed\<close> or \<open>Fail\<close> of
  its id) the row stays leased by that worker and no lease hands the job out again.\<close>

theorem lease_exclusive:
  assumes "run (qstep q) [] ls0 js0" and "qstep q js0 (LLease w handed) js1" and "j \<in> set handed"
    and "run (qstep q) js1 ls js2" and "list_all (not_completing (job_id j)) ls"
  shows "held (job_id j) w js2
    \<and> (\<forall>w' handed'. LLease w' handed' \<in> set ls \<longrightarrow> job_id j \<notin> job_id ` set handed')"
proof -
  have "jobs_wf js0"
    using qinv.run_stable [OF assms(1)] by (simp add: jobs_wf_def list_all_iff)
  then have h: "held (job_id j) w js1" using lease_step_hands [OF _ assms(2,3)] by blast
  have "job_id j \<notin> job_id ` set handed'" if mem: "LLease w' handed' \<in> set ls" for w' handed'
  proof -
    obtain xs ys where ls: "ls = xs @ LLease w' handed' # ys" using split_list [OF mem] by blast
    obtain js3 js4 where "run (qstep q) js1 xs js3" "qstep q js3 (LLease w' handed') js4"
      using assms(4) unfolding ls run_append run_Cons_iff by blast
    moreover have "held (job_id j) w js3"
      using qown.run_stable [OF calculation(1) h] assms(5) ls by simp
    ultimately show ?thesis using lease_not_held by blast
  qed
  then show ?thesis using qown.run_stable [OF assms(4) h assms(5)] by blast
qed

theorem lease_exclusive_witness: "held 7 ''w'' [lease_row 2000 ''w'' demo_row]"
  using lease_exclusive [OF demo_run1 demo_lease _ run_nil]
  by (simp add: job_of_def lease_row_def demo_row_def)

lemma claimed_distinct: "jobs_wf js \<Longrightarrow> distinct (claimed now kinds locked n js)"
proof -
  assume wf: "jobs_wf js"
  let ?rows = "take n (sort_slice lease_less (filter (eligible now kinds locked) js))"
  have "distinct js" using wf by (auto simp: jobs_wf_def distinct_map)
  then have "distinct ?rows" by (simp add: distinct_take)
  moreover have "set ?rows \<subseteq> set js" by (auto dest!: in_set_takeD)
  then have "inj_on j_id (set ?rows)"
    using wf by (auto simp: jobs_wf_def distinct_map intro: inj_on_subset)
  ultimately show ?thesis by (simp add: claimed_def distinct_map)
qed

lemma claimed_length:
  "length (claimed now kinds locked n js) = min n (length (filter (eligible now kinds locked) js))"
  by (simp add: claimed_def)

lemma claimed_earliest:
  assumes "jobs_wf js" and "r \<in> set js" and "eligible now kinds locked r"
    and "j_id r \<notin> set (claimed now kinds locked n js)"
    and "r' \<in> set js" and "j_id r' \<in> set (claimed now kinds locked n js)"
  shows "(j_run_after r', j_created r') \<le> (j_run_after r, j_created r)"
proof -
  let ?k = "\<lambda>r. (j_run_after r, j_created r)"
  let ?all = "sort_slice lease_less (filter (eligible now kinds locked) js)"
  have less: "lease_less = (\<lambda>a b. ?k a < ?k b)" by (intro ext) (rule lease_less_def)
  have "sorted_wrt (\<lambda>a b. ?k a \<le> ?k b) ?all" unfolding less by (rule sort_slice_key)
  then have sorted: "sorted_wrt (\<lambda>a b. ?k a \<le> ?k b) (take n ?all @ drop n ?all)" by simp
  have "r \<in> set ?all" using assms(2,3) by simp
  then have "r \<in> set (take n ?all) \<or> r \<in> set (drop n ?all)"
    by (metis UnE append_take_drop_id set_append)
  then have "r \<in> set (drop n ?all)" using assms(4) by (auto simp: claimed_def)
  moreover have "r' \<in> set (take n ?all)"
  proof -
    obtain r'' where r'': "r'' \<in> set (take n ?all)" "j_id r'' = j_id r'"
      using assms(6) by (auto simp: claimed_def)
    then have "r'' \<in> set js" by (auto dest!: in_set_takeD)
    then show ?thesis using r'' same_id [OF assms(1) _ assms(5)] by metis
  qed
  ultimately show ?thesis using sorted unfolding sorted_wrt_append by blast
qed

lemma lease_handed_ids:
  assumes "jobs_wf js" and "handed = map job_of (filter (\<lambda>r. j_id r \<in> set cl) (lease_stmt now w cl js))"
    and "set cl \<subseteq> j_id ` set js"
  shows "job_id ` set handed = set cl" and "map job_id handed = filter (\<lambda>i. i \<in> set cl) (map j_id js)"
proof -
  have ids: "map j_id (lease_stmt now w cl js) = map j_id js"
    by (auto simp: lease_stmt_def lease_row_def)
  have "map job_id handed = map j_id (filter (\<lambda>r. j_id r \<in> set cl) (lease_stmt now w cl js))"
    by (simp add: assms(2) job_of_def)
  also have "\<dots> = filter (\<lambda>i. i \<in> set cl) (map j_id (lease_stmt now w cl js))"
    by (simp add: filter_map o_def)
  finally show eq: "map job_id handed = filter (\<lambda>i. i \<in> set cl) (map j_id js)" by (simp add: ids)
  have "job_id ` set handed = set (map job_id handed)" by simp
  then show "job_id ` set handed = set cl" unfolding eq using assms(3) by auto
qed

lemma Lease_handed_distinct:
  assumes "jobs_wf js" and "Lease db now locked w kinds n js = (js', Inr handed)"
  shows "distinct (map job_id handed)"
  using assms(2)
proof (rule Lease_cases)
  fix cl
  assume cl: "cl = claimed now kinds locked (nat n) js" and "js' = lease_stmt now w cl js"
    and "Inr handed = Inr (map job_of (filter (\<lambda>r. j_id r \<in> set cl) js')) \<or> (\<exists>e. Inr handed = Inl e)"
  then have h: "handed = map job_of (filter (\<lambda>r. j_id r \<in> set cl) (lease_stmt now w cl js))" by simp
  have "set cl \<subseteq> j_id ` set js" using claimed_eligible unfolding cl by fast
  from lease_handed_ids(2) [OF assms(1) h this] show ?thesis
    using assms(1) by (simp add: jobs_wf_def)
qed simp

text \<open>An acknowledged lease hands out as many due jobs as it may: of the queued rows of the
  wanted kinds whose time has come and that nobody holds locked, the number asked for or all of
  them, each once, earliest \<open>run_after\<close> first; exactly those rows become leased by the worker
  with one more attempt, and every other row is untouched.\<close>

theorem lease_hands_out_due:
  assumes "run (qstep q) [] ls js" and "0 < n" and "worker \<noteq> []" and "kinds \<noteq> []"
    and "Lease Acked now locked worker kinds n js = (js', Inr handed)"
  shows "length handed = min (nat n) (length (filter (eligible now kinds locked) js))
    \<and> distinct (map job_id handed)
    \<and> (\<forall>j \<in> set handed. \<exists>r \<in> set js. eligible now kinds locked r \<and> j = job_of (lease_row now worker r))
    \<and> (\<forall>r \<in> set js. \<forall>r' \<in> set js. eligible now kinds locked r \<longrightarrow> j_id r \<notin> job_id ` set handed \<longrightarrow>
        j_id r' \<in> job_id ` set handed \<longrightarrow> (j_run_after r', j_created r') \<le> (j_run_after r, j_created r))
    \<and> js' = map (\<lambda>r. if j_id r \<in> job_id ` set handed then lease_row now worker r else r) js"
proof -
  have wf: "jobs_wf js" using qinv.run_stable [OF assms(1)] by (simp add: jobs_wf_def list_all_iff)
  let ?cl = "claimed now kinds locked (nat n) js"
  have js': "js' = lease_stmt now worker ?cl js"
    and handed: "handed = map job_of (filter (\<lambda>r. j_id r \<in> set ?cl) (lease_stmt now worker ?cl js))"
    using assms(2-5) by (auto simp: Lease_def Let_def)
  have sub: "set ?cl \<subseteq> j_id ` set js" using claimed_eligible by fast
  note ids = lease_handed_ids [OF wf handed sub]
  have dist: "distinct (map job_id handed)"
    unfolding ids(2) using wf by (simp add: jobs_wf_def)
  have "length handed = card (job_id ` set handed)"
    using dist by (metis distinct_card length_map set_map)
  then have len: "length handed = length ?cl"
    using ids(1) claimed_distinct [OF wf] by (simp add: distinct_card)
  have rows: "\<exists>r \<in> set js. eligible now kinds locked r \<and> j = job_of (lease_row now worker r)"
    if j: "j \<in> set handed" for j
  proof -
    obtain r where r: "r \<in> set js" "j_id r \<in> set ?cl" "j = job_of (lease_row now worker r)"
      using j by (auto simp: handed lease_stmt_def lease_row_def split: if_splits)
    then show ?thesis using claimed_eligible same_id [OF wf] by metis
  qed
  show ?thesis
    using len claimed_length dist rows claimed_earliest [OF wf] ids(1) js'
    by (auto simp: lease_stmt_def)
qed

theorem lease_hands_out_due_witness:
  "Lease Acked 2000 {} ''w'' [''ingest''] 3 [demo_row] =
     ([lease_row 2000 ''w'' demo_row], Inr [job_of (lease_row 2000 ''w'' demo_row)])
   \<and> length [job_of (lease_row 2000 ''w'' demo_row)] = 1"
proof
  show l: "Lease Acked 2000 {} ''w'' [''ingest''] 3 [demo_row] =
     ([lease_row 2000 ''w'' demo_row], Inr [job_of (lease_row 2000 ''w'' demo_row)])"
    by (simp add: Lease_def claimed_def sort_slice_def eligible_def demo_row_def lease_stmt_def lease_row_def)
  show "length [job_of (lease_row 2000 ''w'' demo_row)] = 1"
    using lease_hands_out_due [OF demo_run1 _ _ _ l]
    by (simp add: eligible_def demo_row_def)
qed

section \<open>Enqueue\<close>

lemma run_wf: "run (qstep q) [] ls js \<Longrightarrow> jobs_wf js"
  using qinv.run_stable [of q "[]" ls js] by (simp add: jobs_wf_def list_all_iff)

definition fresh_row :: "nat \<Rightarrow> time \<Rightarrow> string \<Rightarrow> string \<Rightarrow> json \<Rightarrow> time \<Rightarrow> JobRow" where
  "fresh_row uuid now kind dedup body ra = \<lparr>j_id = uuid, j_kind = kind, j_dedup = dedup, j_payload = body,
     j_state = Queued, j_attempts = 0, j_locked_by = None, j_locked_at = None, j_run_after = ra,
     j_created = now, j_updated = now\<rparr>"

definition bump_row :: "time \<Rightarrow> time \<Rightarrow> JobRow \<Rightarrow> JobRow" where
  "bump_row now ra r = r\<lparr>j_run_after := max (j_run_after r) ra, j_updated := now\<rparr>"

lemma same_key_row_key: "same_key kind dedup r \<longleftrightarrow> row_key r = (kind, dedup)"
  by (simp add: same_key_def row_key_def)

lemma enqueue_stmt_rows:
  "set (enqueue_stmt uuid now kind dedup body ra js) =
     {r \<in> set js. row_key r \<noteq> (kind, dedup)}
     \<union> (if \<exists>r \<in> set js. row_key r = (kind, dedup)
        then bump_row now ra ` {r \<in> set js. row_key r = (kind, dedup)}
        else {fresh_row uuid now kind dedup body ra})"
  by (auto simp: enqueue_stmt_def same_key_row_key fresh_row_def bump_row_def)

text \<open>\<open>Enqueue\<close> is idempotent on the pair of kind and dedup key. When it reports success, the
  rows of other keys are unchanged, and the key has one row: a new queued row without attempts
  when there was none, and otherwise the old row with its state, attempts, payload and lock
  kept and \<open>run_after\<close> moved to the later of the two times.\<close>

theorem enqueue_effect:
  assumes "run (qstep q) [] ls js"
    and "Enqueue db uuid gnow now kind dedup (Inr body) runAfter js = (js', None)"
  shows "\<exists>r'. {r \<in> set js'. row_key r = (kind, dedup)} = {r'}
    \<and> {r \<in> set js'. row_key r \<noteq> (kind, dedup)} = {r \<in> set js. row_key r \<noteq> (kind, dedup)}
    \<and> (let ra = pg_time (if runAfter = 0 then gnow else runAfter)
       in if \<exists>r \<in> set js. row_key r = (kind, dedup)
          then \<exists>r \<in> set js. row_key r = (kind, dedup) \<and> r' = bump_row now ra r
          else r' = fresh_row uuid now kind dedup body ra)"
proof -
  have wf: "jobs_wf js" using assms(1) by (rule run_wf)
  define ra where "ra = pg_time (if runAfter = 0 then gnow else runAfter)"
  have "js' = enqueue_stmt uuid now kind dedup body ra js"
    unfolding ra_def using assms(2) by (rule Enqueue_cases) simp_all
  note rows = enqueue_stmt_rows [of uuid now kind dedup body ra js, folded this]
  have fresh: "row_key (fresh_row uuid now kind dedup body ra) = (kind, dedup)"
    and bump: "row_key (bump_row now ra r) = row_key r" for r
    by (simp_all add: fresh_row_def bump_row_def row_key_def)
  show ?thesis
  proof (cases "\<exists>r \<in> set js. row_key r = (kind, dedup)")
    case True
    then obtain r where r: "r \<in> set js" "row_key r = (kind, dedup)" by blast
    then have "{r \<in> set js. row_key r = (kind, dedup)} = {r}"
      using same_row_key [OF wf] by auto
    then show ?thesis
      using True r rows bump unfolding ra_def [symmetric]
      by (intro exI [of _ "bump_row now ra r"]) auto
  next
    case False
    then show ?thesis
      using rows fresh unfolding ra_def [symmetric]
      by (intro exI [of _ "fresh_row uuid now kind dedup body ra"]) auto
  qed
qed

theorem enqueue_effect_witness:
  "Enqueue Acked 8 5000 5000 ''ingest'' ''k'' (Inr (JObj [])) 9000 [demo_row] =
     ([bump_row 5000 9000 demo_row], None)
   \<and> (\<exists>r'. {r \<in> set [bump_row 5000 9000 demo_row]. row_key r = (''ingest'', ''k'')} = {r'})"
proof
  show e: "Enqueue Acked 8 5000 5000 ''ingest'' ''k'' (Inr (JObj [])) 9000 [demo_row] =
     ([bump_row 5000 9000 demo_row], None)"
    by (simp add: Enqueue_def enqueue_stmt_def same_key_def pg_time_def demo_row_def bump_row_def)
  show "\<exists>r'. {r \<in> set [bump_row 5000 9000 demo_row]. row_key r = (''ingest'', ''k'')} = {r'}"
    using enqueue_effect [OF demo_run1 e] by blast
qed

section \<open>Retry and dead-lettering\<close>

lemma backoff_raw_bounds:
  "0 < q_maxDelay q \<Longrightarrow> 0 < backoff_raw ovf q a \<and> backoff_raw ovf q a \<le> q_maxDelay q"
  by (simp add: backoff_raw_def Let_def)

lemma wrap64_id: "int64_min \<le> n \<Longrightarrow> n \<le> int64_max \<Longrightarrow> wrap64 n = n"
  by (simp add: wrap64_def int64_min_def int64_max_def)

text \<open>What is asked of \<^verbatim>\<open>rand.Int64N\<close>.\<close>

definition rand_ok :: "(int \<Rightarrow> int) \<Rightarrow> bool" where
  "rand_ok rnd = (\<forall>n > 0. 0 \<le> rnd n \<and> rnd n < n)"

lemma backoff_bounds:
  assumes "rand_ok rnd" and "0 < q_maxDelay q" and "q_maxDelay q < int64_max"
  shows "0 \<le> backoff ovf rnd q a \<and> backoff ovf rnd q a \<le> backoff_raw ovf q a"
proof -
  note b = backoff_raw_bounds [OF assms(2), of ovf a]
  have "wrap64 (backoff_raw ovf q a + 1) = backoff_raw ovf q a + 1"
    using b assms(3) by (intro wrap64_id) (auto simp: int64_min_def)
  then show ?thesis
    using assms(1) b unfolding backoff_def rand_ok_def by (metis add.commute zle_add1_eq_le zless_add1_eq)
qed

lemma millis_bounds: "0 \<le> x \<Longrightarrow> 0 \<le> x div 1000000 * 1000000" "x div 1000000 * 1000000 \<le> x" for x :: int
  by (simp add: pos_imp_zdiv_nonneg_iff) (simp add: minus_mod_eq_div_mult [symmetric])

text \<open>\<open>Fail\<close> of a job either dead-letters it or re-queues it, depending on the attempts the
  caller reports. With the budget spent the row is dead, unlocked, and its payload records the
  cause; otherwise it is queued again, unlocked, with the same attempts and payload, and due
  between now and the backoff cap for that attempt. Every other row is untouched.\<close>

theorem fail_effect:
  assumes "run (qstep q) [] ls js" and "r \<in> set js" and "rand_ok (e_rnd env)"
    and "0 < q_maxDelay q" and "q_maxDelay q < int64_max"
    and "Fail env Acked now q (j_id r) attempts cause js = (js', err)"
  shows "err = None \<and> (\<exists>r'. set js' = insert r' (set js - {r}) \<and> j_id r' = j_id r \<and> row_key r' = row_key r
    \<and> j_attempts r' = j_attempts r \<and> j_locked_by r' = None \<and> j_locked_at r' = None
    \<and> (if attempts \<ge> q_maxAttempt q
       then j_state r' = Dead \<and> j_payload r' = dead_payload (errString (e_uni env) cause) (j_payload r)
       else j_state r' = Queued \<and> j_payload r' = j_payload r \<and> now \<le> j_run_after r'
         \<and> j_run_after r' \<le> now + backoff_raw (e_ovf env) q attempts))"
proof -
  have wf: "jobs_wf js" using assms(1) by (rule run_wf)
  have only: "set (map (\<lambda>x. if j_id x = j_id r then f x else x) js) = insert (f r) (set js - {r})" for f
  proof -
    have "\<forall>x \<in> set js. (j_id x = j_id r) = (x = r)" using same_id [OF wf assms(2)] by metis
    then show ?thesis using assms(2) by (auto simp: image_iff)
  qed
  show ?thesis
  proof (cases "attempts \<ge> q_maxAttempt q")
    case True
    then have js': "js' = map (dead_letter now (j_id r) (errString (e_uni env) cause)) js" and "err = None"
      using assms(6) by (auto simp: Fail_def dead_stmt_wf [OF wf])
    let ?r' = "r\<lparr>j_state := Dead, j_locked_by := None, j_locked_at := None, j_updated := now,
        j_payload := dead_payload (errString (e_uni env) cause) (j_payload r)\<rparr>"
    have "set js' = insert ?r' (set js - {r})"
      unfolding js' dead_letter_def by (rule only)
    moreover have "j_id ?r' = j_id r" "row_key ?r' = row_key r" by (simp_all add: row_key_def)
    ultimately show ?thesis
      using True \<open>err = None\<close> by (intro conjI exI [of _ ?r']) simp_all
  next
    case False
    define ms where "ms = backoff (e_ovf env) (e_rnd env) q attempts div 1000000"
    have js': "js' = requeue_stmt now (j_id r) ms js" and "err = None"
      using assms(6) False by (auto simp: Fail_def ms_def Let_def)
    have b: "0 \<le> ms * 1000000" "ms * 1000000 \<le> backoff_raw (e_ovf env) q attempts"
      using backoff_bounds [OF assms(3,4,5), of "e_ovf env" attempts] unfolding ms_def
      using millis_bounds by (meson order_trans)+
    let ?r' = "r\<lparr>j_state := Queued, j_locked_by := None, j_locked_at := None,
         j_run_after := now + ms * 1000000, j_updated := now\<rparr>"
    have "set js' = insert ?r' (set js - {r})"
      unfolding js' requeue_stmt_def by (rule only)
    then show ?thesis
      using False b \<open>err = None\<close> by (intro conjI exI [of _ ?r']) (auto simp: row_key_def)
  qed
qed

definition demo_env :: qenv where
  "demo_env = \<lparr>e_uni = ascii_only, e_ovf = int64_min, e_rnd = (\<lambda>n. n - 1)\<rparr>"

theorem fail_effect_witness:
  "\<exists>js'. Fail demo_env Acked 3000 demo_queue 7 5 (Some (New ''boom'')) [lease_row 2000 ''w'' demo_row] = (js', None)
    \<and> (\<exists>r'. set js' = {r'} \<and> j_state r' = Dead)"
proof -
  let ?r = "lease_row 2000 ''w'' demo_row"
  obtain js' err where f: "Fail demo_env Acked 3000 demo_queue (j_id ?r) 5 (Some (New ''boom'')) [?r] = (js', err)"
    by (cases "Fail demo_env Acked 3000 demo_queue (j_id ?r) 5 (Some (New ''boom'')) [?r]")
  have q: "q_maxAttempt demo_queue = 5" "0 < q_maxDelay demo_queue" "q_maxDelay demo_queue < int64_max"
    by (simp_all add: demo_queue_def NewQueue_def minute_def second_def int64_max_def)
  have "rand_ok (e_rnd demo_env)" by (simp add: rand_ok_def demo_env_def)
  from fail_effect [OF demo_run2 _ this q(2,3) f] f q(1) show ?thesis
    by (auto simp: lease_row_def demo_row_def)
qed

lemma backoff_cases:
  "list_all (\<lambda>n. (let raw = wrap64 (2 ^ n * 1000000000)
      in if raw \<le> 0 \<or> raw > 1800000000000 then 1800000000000 else raw)
    = min (2 ^ n * 1000000000) 1800000000000) [0..<63]"
  by code_simp

text \<open>C12: With the default options the backoff cap is exactly two to the power of the attempt
  minus one, in seconds, up to thirty minutes, for every attempt number from one on: neither the
  64-bit overflow of the product nor the overflow of the float conversion ever yields a shorter
  or a negative delay.\<close>

theorem backoff_default:
  assumes "1 \<le> attempt" and "ovf = int64_min \<or> ovf = int64_max"
    and "q = NewQueue \<lparr>q_maxAttempt = 0, q_baseDelay = 0, q_maxDelay = 0\<rparr>"
  shows "backoff_raw ovf q attempt = min (2 ^ nat (attempt - 1) * second) (30 * minute)"
proof -
  have q: "q_baseDelay q = 1000000000" "q_maxDelay q = 1800000000000"
    by (simp_all add: assms(3) NewQueue_def second_def minute_def)
  define n where "n = nat (attempt - 1)"
  have n: "attempt - 1 = int n" using assms(1) by (simp add: n_def)
  show ?thesis
  proof (cases "n < 63")
    case True
    then have "(let raw = wrap64 (2 ^ n * 1000000000)
        in if raw \<le> 0 \<or> raw > 1800000000000 then 1800000000000 else raw)
      = min (2 ^ n * 1000000000) 1800000000000"
      using backoff_cases unfolding list_all_iff by simp
    then show ?thesis
      using True n q
      by (auto simp: backoff_raw_def pow2_duration_def second_def minute_def Let_def split: if_splits)
  next
    case False
    then have "(2::int) ^ 11 \<le> 2 ^ n" by (intro power_increasing) auto
    then have "min (2 ^ n * second) (30 * minute) = 30 * minute"
      by (simp add: second_def minute_def)
    moreover have "wrap64 (ovf * 1000000000) \<le> 0"
      using assms(2) by (auto simp: wrap64_def int64_min_def int64_max_def)
    ultimately show ?thesis
      using False n q by (simp add: backoff_raw_def pow2_duration_def minute_def second_def Let_def)
  qed
qed

theorem backoff_default_witness:
  "backoff_raw int64_min (NewQueue \<lparr>q_maxAttempt = 0, q_baseDelay = 0, q_maxDelay = 0\<rparr>) 4 = 8 * second"
  using backoff_default [of 4 int64_min, OF _ _ refl] by (simp add: second_def minute_def)

section \<open>Re-enqueueing a job in flight, and dead keys\<close>

definition dead_key :: "string \<times> string \<Rightarrow> jobs \<Rightarrow> bool" where
  "dead_key k js = (jobs_wf js \<and> (\<exists>r \<in> set js. row_key r = k \<and> j_state r = Dead))"

text \<open>The steps that are no completion.\<close>

fun no_completion :: "qlabel \<Rightarrow> bool" where
  "no_completion (LSucceed i) = False"
| "no_completion (LFail i a) = False"
| "no_completion _ = True"

lemma dead_key_step:
  assumes "dead_key k js" and "no_completion l" and "qstep q js l js'"
  shows "dead_key k js'"
proof -
  have wf: "jobs_wf js" and wf': "jobs_wf js'"
    using assms(1) qstep_wf [OF assms(3)] by (auto simp: dead_key_def)
  obtain r where r: "r \<in> set js" "row_key r = k" "j_state r = Dead"
    using assms(1) by (auto simp: dead_key_def)
  from assms(3) show ?thesis
  proof cases
    case (step_enqueue uuid db gnow now kind dedup ms runAfter err)
    from step_enqueue(3) show ?thesis
    proof (rule Enqueue_cases)
      assume eq: "js' = enqueue_stmt uuid now kind dedup (JObj ms) (pg_time (if runAfter = 0 then gnow else runAfter)) js"
      let ?r' = "if k = (kind, dedup) then bump_row now (pg_time (if runAfter = 0 then gnow else runAfter)) r else r"
      have "?r' \<in> set js'" unfolding eq enqueue_stmt_rows using r by auto
      then show ?thesis
        unfolding dead_key_def using wf' r
        by (intro conjI bexI [of _ ?r']) (auto simp: bump_row_def row_key_def)
    qed (use assms(1) in simp)
  next
    case (step_lease db now locked worker kinds n res)
    from step_lease(2) show ?thesis
    proof (rule Lease_cases)
      fix cl
      assume cl: "cl = claimed now kinds locked (nat n) js" and eq: "js' = lease_stmt now worker cl js"
      have "j_id r \<notin> set cl"
        using claimed_eligible [of "j_id r"] cl r same_id [OF wf r(1)]
        by (metis JobState.distinct(3) eligible_def)
      then have "r \<in> set js'" using r(1) by (force simp: eq lease_stmt_def)
      then show ?thesis using wf' r by (auto simp: dead_key_def)
    qed (use assms(1) in simp)
  qed (use assms(2) in auto)
qed

interpretation qdead: stable_under "qstep q" "dead_key k" no_completion for q k
  by unfold_locales (blast intro: dead_key_step)

lemma lease_job_row:
  assumes "jobs_wf js" and "qstep q js (LLease w handed) js'" and "j \<in> set handed"
  shows "\<exists>r \<in> set js'. j_state r = Leased \<and> row_key r = (job_kind j, job_dedup j) \<and> j = job_of r"
  using assms(2)
proof cases
  case (step_lease db now locked kinds n res)
  from step_lease(2) show ?thesis
  proof (rule Lease_cases)
    assume "res = Inr [] \<or> (\<exists>e. res = Inl e)"
    then show ?thesis using assms(3) step_lease(1) by auto
  next
    fix cl
    assume js': "js' = lease_stmt now w cl js"
      and "res = Inr (map job_of (filter (\<lambda>r. j_id r \<in> set cl) js')) \<or> (\<exists>e. res = Inl e)"
    then obtain r where r: "r \<in> set js'" "j_id r \<in> set cl" "j = job_of r"
      using assms(3) step_lease(1) by auto
    have "j_state r = Leased" using r(1,2) by (auto simp: js' lease_stmt_def lease_row_def)
    then show ?thesis using r by (intro bexI [of _ r]) (auto simp: row_key_def job_of_def)
  qed
qed

text \<open>A dead row blocks its key. After a job has been dead-lettered, no number of enqueues of
  the same kind and dedup key brings it back: under every further sequence of enqueues and
  leases the row stays dead and no lease hands out a job of that key.\<close>

theorem dead_key_blocks_enqueue:
  assumes "run (qstep q) [] ls0 js0" and "r \<in> set js0" and "j_state r = Dead"
    and "run (qstep q) js0 ls js" and "list_all no_completion ls"
  shows "(\<exists>r' \<in> set js. row_key r' = row_key r \<and> j_state r' = Dead)
    \<and> (\<forall>w handed j. LLease w handed \<in> set ls \<longrightarrow> j \<in> set handed \<longrightarrow> (job_kind j, job_dedup j) \<noteq> row_key r)"
proof -
  have d0: "dead_key (row_key r) js0" using run_wf [OF assms(1)] assms(2,3) by (auto simp: dead_key_def)
  have "(job_kind j, job_dedup j) \<noteq> row_key r"
    if mem: "LLease w handed \<in> set ls" and j: "j \<in> set handed" for w handed j
  proof
    assume key: "(job_kind j, job_dedup j) = row_key r"
    obtain xs ys where ls: "ls = xs @ LLease w handed # ys" using split_list [OF mem] by blast
    obtain js3 js4 where steps: "run (qstep q) js0 xs js3" "qstep q js3 (LLease w handed) js4"
      using assms(4) unfolding ls run_append run_Cons_iff by blast
    have d: "dead_key (row_key r) js3" using qdead.run_stable [OF steps(1) d0] assms(5) ls by simp
    have wf4: "jobs_wf js4" and "dead_key (row_key r) js4"
      using d dead_key_step [OF d _ steps(2)] by (auto simp: dead_key_def)
    then obtain r4 where r4: "r4 \<in> set js4" "row_key r4 = row_key r" "j_state r4 = Dead"
      by (auto simp: dead_key_def)
    from lease_job_row [OF _ steps(2) j] d obtain r5 where
      "r5 \<in> set js4" "j_state r5 = Leased" "row_key r5 = (job_kind j, job_dedup j)"
      by (auto simp: dead_key_def)
    then show False using same_row_key [OF wf4 r4(1)] r4 key by force
  qed
  moreover have "\<exists>r' \<in> set js. row_key r' = row_key r \<and> j_state r' = Dead"
    using qdead.run_stable [OF assms(4) d0 assms(5)] by (auto simp: dead_key_def)
  ultimately show ?thesis by blast
qed

definition demo_dead :: JobRow where
  "demo_dead = dead_letter 3000 7 ''boom'' (lease_row 2000 ''w'' demo_row)"

lemma demo_fail: "qstep demo_queue [lease_row 2000 ''w'' demo_row] (LFail 7 5) [demo_dead]"
proof (rule step_fail)
  show "Fail demo_env Acked 3000 demo_queue 7 5 (Some (New ''boom'')) [lease_row 2000 ''w'' demo_row] =
      ([demo_dead], None)"
    by (simp add: Fail_def demo_queue_def NewQueue_def dead_stmt_def dead_row_def demo_row_def lease_row_def
        errString_def demo_dead_def dead_letter_def dead_payload_def demo_env_def)
qed

lemma demo_run3: "run (qstep demo_queue) []
    [LEnqueue ''ingest'' ''k'', LLease ''w'' [job_of (lease_row 2000 ''w'' demo_row)], LFail 7 5] [demo_dead]"
  by (rule run_cons, rule demo_enqueue, rule run_cons, rule demo_lease, rule run_cons, rule demo_fail,
      rule run_nil)

lemma demo_reenqueue: "qstep q [demo_dead] (LEnqueue ''ingest'' ''k'') [bump_row 5000 5000 demo_dead]"
proof (rule step_enqueue)
  show "Enqueue Acked 9 5000 5000 ''ingest'' ''k'' (Inr (JObj [])) 0 [demo_dead] =
      ([bump_row 5000 5000 demo_dead], None)"
    by (simp add: Enqueue_def enqueue_stmt_def same_key_def pg_time_def demo_dead_def dead_letter_def
        lease_row_def demo_row_def bump_row_def)
qed (simp add: demo_dead_def dead_letter_def lease_row_def demo_row_def)

theorem dead_key_blocks_enqueue_witness:
  "\<exists>r' \<in> set [bump_row 5000 5000 demo_dead]. row_key r' = (''ingest'', ''k'') \<and> j_state r' = Dead"
proof -
  have d: "j_state demo_dead = Dead" "row_key demo_dead = (''ingest'', ''k'')"
    by (simp_all add: demo_dead_def dead_letter_def lease_row_def demo_row_def row_key_def)
  have "run (qstep demo_queue) [demo_dead] [LEnqueue ''ingest'' ''k''] [bump_row 5000 5000 demo_dead]"
    by (rule run_cons, rule demo_reenqueue, rule run_nil)
  from dead_key_blocks_enqueue [OF demo_run3 _ d(1) this] d(2) show ?thesis by simp
qed

text \<open>An enqueue that arrives while the job of its key is leased is lost when that attempt
  succeeds: the enqueue only moves \<open>run_after\<close> of the leased row, and \<open>Succeed\<close> deletes the row,
  so no job of the key is left although both calls reported success.\<close>

theorem requeue_in_flight_lost:
  assumes "run (qstep q) [] ls js" and "r \<in> set js" and "j_state r = Leased"
    and "Enqueue db uuid gnow now (j_kind r) (j_dedup r) (Inr body) runAfter js = (js1, None)"
    and "Succeed db' (j_id r) js1 = (js2, None)"
  shows "row_key r \<notin> row_key ` set js2"
proof
  assume "row_key r \<in> row_key ` set js2"
  have wf: "jobs_wf js" using assms(1) by (rule run_wf)
  let ?ra = "pg_time (if runAfter = 0 then gnow else runAfter)"
  have js1: "js1 = enqueue_stmt uuid now (j_kind r) (j_dedup r) body ?ra js"
    using assms(4) by (rule Enqueue_cases) simp_all
  have js2: "js2 = succeed_stmt (j_id r) js1"
    using assms(5) unfolding Succeed_def by (rule run_stmt_cases) simp_all
  obtain r' where r': "r' \<in> set js1" "j_id r' \<noteq> j_id r" "row_key r' = row_key r"
    using \<open>row_key r \<in> row_key ` set js2\<close> by (auto simp: js2 succeed_stmt_def)
  have "\<exists>x \<in> set js. row_key x = row_key r" using assms(2) by blast
  then obtain x where "x \<in> set js" "row_key x = row_key r" "r' = bump_row now ?ra x"
    using r'(1,3) unfolding js1 enqueue_stmt_rows by (auto simp: row_key_def)
  then have "r' = bump_row now ?ra r" using same_row_key [OF wf _ assms(2)] by blast
  then show False using r'(2) by (simp add: bump_row_def)
qed

theorem requeue_in_flight_lost_witness:
  "Enqueue Acked 9 5000 5000 ''ingest'' ''k'' (Inr (JObj [])) 0 [lease_row 2000 ''w'' demo_row] =
      ([bump_row 5000 5000 (lease_row 2000 ''w'' demo_row)], None)
   \<and> Succeed Acked 7 [bump_row 5000 5000 (lease_row 2000 ''w'' demo_row)] = ([], None)
   \<and> (''ingest'', ''k'') \<notin> row_key ` set []"
proof (intro conjI)
  let ?r = "lease_row 2000 ''w'' demo_row"
  have r: "j_kind ?r = ''ingest''" "j_dedup ?r = ''k''" "j_id ?r = 7" "j_state ?r = Leased"
    by (simp_all add: lease_row_def demo_row_def)
  show e: "Enqueue Acked 9 5000 5000 ''ingest'' ''k'' (Inr (JObj [])) 0 [?r] = ([bump_row 5000 5000 ?r], None)"
    by (simp add: Enqueue_def enqueue_stmt_def same_key_def pg_time_def lease_row_def demo_row_def bump_row_def)
  show s: "Succeed Acked 7 [bump_row 5000 5000 ?r] = ([], None)"
    by (simp add: Succeed_def succeed_stmt_def bump_row_def lease_row_def demo_row_def)
  show "(''ingest'', ''k'') \<notin> row_key ` set []"
    using requeue_in_flight_lost [OF demo_run2, of ?r Acked 9 5000 5000 "JObj []" 0 _ Acked] e s r
    by (simp add: row_key_def)
qed

lemma sum_groups:
  "finite X \<Longrightarrow> f ` set js \<subseteq> X \<Longrightarrow> (\<Sum>k \<in> X. int (length (filter (\<lambda>r. f r = k) js))) = int (length js)"
proof (induction js)
  case Nil
  then show ?case by simp
next
  case (Cons r js)
  have "(\<Sum>k \<in> X. int (length (filter (\<lambda>r. f r = k) (r # js)))) =
      (\<Sum>k \<in> X. (if k = f r then 1 else 0) + int (length (filter (\<lambda>r. f r = k) js)))"
    by (rule sum.cong) auto
  also have "\<dots> = 1 + int (length js)"
    using Cons by (simp add: sum.distrib)
  finally show ?case by simp
qed

text \<open>\<open>Depth\<close> reports, for every kind and state, the number of rows with it, as one entry per
  pair that occurs and none for the others; the counts add up to the size of the table.\<close>

theorem depth_counts:
  "map_of (Depth js) (k, s) =
     (let n = length (filter (\<lambda>r. j_kind r = k \<and> j_state r = s) js) in if n = 0 then None else Some (int n))
   \<and> sum_list (map snd (Depth js)) = int (length js)"
proof
  let ?f = "\<lambda>r. (j_kind r, j_state r)"
  have lookup: "map_of (map (\<lambda>k. (k, g k)) xs) x = (if x \<in> set xs then Some (g x) else None)"
    for g :: "string \<times> JobState \<Rightarrow> int" and xs x
    by (induction xs) auto
  show "map_of (Depth js) (k, s) =
     (let n = length (filter (\<lambda>r. j_kind r = k \<and> j_state r = s) js) in if n = 0 then None else Some (int n))"
    unfolding Depth_def lookup by (auto simp: Let_def filter_empty_conv)
  have "sum_list (map snd (Depth js)) = (\<Sum>k \<in> set (map ?f js). int (length (filter (\<lambda>r. ?f r = k) js)))"
    by (simp add: Depth_def o_def sum_list_distinct_conv_sum_set)
  also have "\<dots> = int (length js)"
    by (rule sum_groups) simp_all
  finally show "sum_list (map snd (Depth js)) = int (length js)" .
qed

end
