(* ===== verification/MeiliIndex.thy ===== *)
theory MeiliIndex
  imports Slug JsonText Registry Queue
begin

text \<open>
  The write side of the search index, \<^verbatim>\<open>internal/search/meilisearch\<close>: splitting a document into
  sections (\<^verbatim>\<open>section.go\<close>), the index records and their upload (\<^verbatim>\<open>indexer.go\<close>, \<^verbatim>\<open>client.go\<close>), the index
  settings (\<^verbatim>\<open>settings.go\<close>) and the drift report (\<^verbatim>\<open>drift.go\<close>). The Markdown parser is the argument
  \<open>md\<close>, the headings of a document in walk order; the Meilisearch server behind its SDK is a record of
  operations on a state of its own.
\<close>

section \<open>Sections\<close>

definition bodyExcerptLen :: nat where "bodyExcerptLen = 500"

record Section =
  se_Heading :: string
  se_Slug :: string
  se_Body :: string

text \<open>An inline child of a heading: a text segment, or a node with children, of which the text
  segments are given.\<close>

datatype md_inline = MText string | MNode "string option list"

record md_heading =
  mh_level :: nat
  mh_inlines :: "md_inline list"
  mh_lines :: "(nat \<times> nat) list"

type_synonym markdown = "string \<Rightarrow> md_heading list"

definition text_of :: "string option \<Rightarrow> string" where
  "text_of t = (case t of None \<Rightarrow> [] | Some s \<Rightarrow> s)"

definition inline_text :: "md_inline \<Rightarrow> string" where
  "inline_text c = (case c of MText t \<Rightarrow> t | MNode cs \<Rightarrow> concat (map text_of cs))"

definition headingText :: "unicode \<Rightarrow> md_heading \<Rightarrow> string" where
  "headingText U h = TrimSpace U (concat (map inline_text (mh_inlines h)))"

fun rewind :: "string \<Rightarrow> nat \<Rightarrow> nat" where
  "rewind src 0 = 0"
| "rewind src (Suc s) = (if src ! s \<noteq> CHR 0x0A then rewind src s else Suc s)"

definition nodeRange :: "md_heading \<Rightarrow> string \<Rightarrow> nat \<times> nat" where
  "nodeRange h src =
     (if mh_lines h = [] then (0, 0)
      else let start = fst (hd (mh_lines h)); stop = snd (last (mh_lines h))
           in (rewind src start, if stop < length src \<and> src ! stop = CHR 0x0A then Suc stop else stop))"

text \<open>A string as its runes; an invalid byte becomes the replacement character.\<close>

function runes :: "string \<Rightarrow> string list" where
  "runes [] = []"
| "runes (c # r) =
     (if rune_len (c # r) = 0 then rune_error # runes r
      else take (rune_len (c # r)) (c # r) # runes (drop (rune_len (c # r)) (c # r)))"
  by pat_completeness auto
termination by (relation "measure length") auto

definition isSpace :: "string \<Rightarrow> bool" where
  "isSpace r = (r \<in> {'' '', [CHR 0x0A], [CHR 0x0D], [CHR 0x09]})"

fun space_cut :: "string list \<Rightarrow> nat \<Rightarrow> nat" where
  "space_cut rs 0 = 0"
| "space_cut rs (Suc n) = (if \<not> isSpace (rs ! Suc n) then space_cut rs n else Suc n)"

definition ellipsis :: string where
  "ellipsis = [CHR 0xE2, CHR 0x80, CHR 0xA6]"

definition trim_right :: "string \<Rightarrow> string" where
  "trim_right s = rev (dropWhile (\<lambda>c. isSpace [c]) (rev s))"

definition truncateExcerpt :: "string \<Rightarrow> string" where
  "truncateExcerpt body =
     (if length body \<le> bodyExcerptLen then body
      else let rs = runes body in
        if length rs \<le> bodyExcerptLen then body
        else let cut = space_cut rs bodyExcerptLen; cut = (if cut = 0 then bodyExcerptLen else cut)
             in trim_right (concat (take cut rs)) @ ellipsis)"

record marker =
  ma_heading :: string
  ma_slug :: string
  ma_start :: nat
  ma_end :: nat

text \<open>The walk: one marker per heading of level one or two, the slugs from one tracker.\<close>

fun walk_headings :: "unicode \<Rightarrow> (string \<Rightarrow> string) \<Rightarrow> string \<Rightarrow> md_heading list \<Rightarrow> Slugger \<Rightarrow> marker list" where
  "walk_headings U strip src [] sl = []"
| "walk_headings U strip src (h # hs) sl =
     (if mh_level h > 2 then walk_headings U strip src hs sl
      else (case Slugger_Slug U strip (headingText U h) sl of (s, sl') \<Rightarrow>
             \<lparr>ma_heading = headingText U h, ma_slug = s, ma_start = fst (nodeRange h src), ma_end = snd (nodeRange h src)\<rparr>
             # walk_headings U strip src hs sl'))"

fun close_sections :: "unicode \<Rightarrow> string \<Rightarrow> marker list \<Rightarrow> Section list" where
  "close_sections U src [] = []"
| "close_sections U src (m # ms) =
     (let bodyEnd = (case ms of [] \<Rightarrow> length src | m' # _ \<Rightarrow> ma_start m');
          bodyStart = (if ma_end m > bodyEnd then bodyEnd else ma_end m)
      in \<lparr>se_Heading = ma_heading m, se_Slug = ma_slug m,
          se_Body = truncateExcerpt (TrimSpace U (take (bodyEnd - bodyStart) (drop bodyStart src)))\<rparr>
         # close_sections U src ms)"

definition splitSections :: "unicode \<Rightarrow> (string \<Rightarrow> string) \<Rightarrow> markdown \<Rightarrow> string \<Rightarrow> Section list" where
  "splitSections U strip md body =
     (let markers = \<lparr>ma_heading = [], ma_slug = [], ma_start = 0, ma_end = 0\<rparr> # walk_headings U strip body (md body) NewSlugger;
          sections = close_sections U body markers
      in if length sections > 1 \<and> se_Heading (hd sections) = [] \<and> se_Body (hd sections) = [] then tl sections else sections)"

section \<open>Index records\<close>

definition indexBatchSize :: nat where "indexBatchSize = 1024"

definition visibilityInternal :: string where "visibilityInternal = ''internal''"

record indexDocument =
  ix_ID :: string
  ix_ParentID :: string
  ix_Type :: string
  ix_Title :: string
  ix_SectionHeading :: string
  ix_SectionSlug :: string
  ix_BodyExcerpt :: string
  ix_Status :: string
  ix_Labels :: "string list"
  ix_AuthorHandles :: "string list"
  ix_Visibility :: string
  ix_CreatedAt :: int
  ix_UpdatedAt :: int
  ix_Extensions :: "(string \<times> json) list"

text \<open>\<^verbatim>\<open>time.Time.Unix\<close>, seconds since 1970.\<close>

definition Unix :: "time \<Rightarrow> int" where
  "Unix t = t div 1000000000 - 62135596800"

text \<open>A Go map from its entries in iteration order: a later key replaces an equal earlier one.\<close>

definition flattenExtensions :: "unicode \<Rightarrow> (string \<times> json) list \<Rightarrow> string \<Rightarrow> (string \<times> json) list" where
  "flattenExtensions U ext prefixLower =
     fold (\<lambda>(k, v). AList.update (''ext_'' @ prefixLower @ ''_'' @ ToLower U k) v) ext []"

definition authorHandles :: "Author list \<Rightarrow> string list" where
  "authorHandles authors =
     concat (map (\<lambda>a. if a_handle a \<noteq> [] then [a_handle a] else if a_name a \<noteq> [] then [a_name a] else []) authors)"

definition record_id :: "Document \<Rightarrow> Section \<Rightarrow> string" where
  "record_id doc s = (if se_Slug s \<noteq> [] then d_id doc @ ''__'' @ se_Slug s else d_id doc)"

definition buildRecords :: "unicode \<Rightarrow> (string \<Rightarrow> string) \<Rightarrow> markdown \<Rightarrow> Document \<Rightarrow> DocumentType \<Rightarrow> indexDocument list" where
  "buildRecords U strip md doc dt =
     map (\<lambda>s. \<lparr>ix_ID = record_id doc s, ix_ParentID = d_id doc, ix_Type = d_type doc, ix_Title = d_title doc,
          ix_SectionHeading = se_Heading s, ix_SectionSlug = se_Slug s, ix_BodyExcerpt = se_Body s, ix_Status = d_status doc,
          ix_Labels = d_labels doc, ix_AuthorHandles = authorHandles (d_authors doc), ix_Visibility = visibilityInternal,
          ix_CreatedAt = Unix (d_created doc), ix_UpdatedAt = Unix (d_updated doc),
          ix_Extensions = flattenExtensions U (d_extensions doc) (ToLower U (dt_prefix dt))\<rparr>)
       (splitSections U strip md (d_body doc))"

definition JStrs :: "string list \<Rightarrow> json" where
  "JStrs ss = JArr (map JStr ss)"

definition toMap :: "indexDocument \<Rightarrow> (string \<times> json) list" where
  "toMap d = fold (\<lambda>(k, v). AList.update k v) (ix_Extensions d)
     ([(''id'', JStr (ix_ID d)), (''parent_id'', JStr (ix_ParentID d)), (''type'', JStr (ix_Type d)), (''title'', JStr (ix_Title d)),
       (''section_heading'', JStr (ix_SectionHeading d)), (''body_excerpt'', JStr (ix_BodyExcerpt d)), (''status'', JStr (ix_Status d)),
       (''labels'', JStrs (ix_Labels d)), (''author_handles'', JStrs (ix_AuthorHandles d)), (''visibility'', JStr (ix_Visibility d)),
       (''created_at'', JNum (Itoa (ix_CreatedAt d))), (''updated_at'', JNum (Itoa (ix_UpdatedAt d)))]
      @ (if ix_SectionSlug d \<noteq> [] then [(''section_slug'', JStr (ix_SectionSlug d))] else []))"

section \<open>The server\<close>

record TypoTolerance =
  ty_enabled :: bool
  ty_one :: int
  ty_two :: int

record Settings =
  sg_searchable :: "string list"
  sg_filterable :: "string list"
  sg_sortable :: "string list"
  sg_ranking :: "string list"
  sg_typo :: "TypoTolerance option"
  sg_displayed :: "string list"

datatype task_status = TaskSucceeded | TaskFailed | TaskCanceled | TaskOther string

fun status_text :: "task_status \<Rightarrow> string" where
  "status_text TaskSucceeded = ''succeeded''"
| "status_text TaskFailed = ''failed''"
| "status_text TaskCanceled = ''canceled''"
| "status_text (TaskOther s) = s"

text \<open>The calls of the SDK the package makes, on the server's state \<open>'i\<close>; a write returns the id of
  a task, which has run when waiting for it returns.\<close>

record 'i meili =
  me_getIndex :: "'i \<Rightarrow> goerr option"
  me_createIndex :: "'i \<Rightarrow> 'i \<times> int result"
  me_getSettings :: "'i \<Rightarrow> Settings option result"
  me_updateSettings :: "Settings \<Rightarrow> 'i \<Rightarrow> 'i \<times> int result"
  me_add :: "(string \<times> json) list list \<Rightarrow> 'i \<Rightarrow> 'i \<times> int result"
  me_delete :: "string \<Rightarrow> 'i \<Rightarrow> 'i \<times> int result"
  me_wait :: "int \<Rightarrow> 'i \<Rightarrow> 'i \<times> ((task_status \<times> string) option) result"
  me_health :: "'i \<Rightarrow> goerr option"

definition awaitTask :: "'i meili \<Rightarrow> int \<Rightarrow> string \<Rightarrow> 'i \<Rightarrow> 'i \<times> goerr option" where
  "awaitTask M uid label ix =
     (case me_wait M uid ix of
        (ix', Inl e) \<Rightarrow> (ix', Some (Errorf [Lit ''meilisearch: wait for '', Lit label, Lit '' task '', Dec uid, Lit '': '', Wrap e]))
      | (ix', Inr None) \<Rightarrow> (ix', None)
      | (ix', Inr (Some (status, msg))) \<Rightarrow>
          if status = TaskFailed \<or> status = TaskCanceled
          then (ix', Some (Errorf [Lit ''meilisearch: '', Lit label, Lit '' task '', Dec uid, Lit '' '', Lit (status_text status),
                  Lit '': '', Lit msg]))
          else (ix', None))"

definition Ping :: "'i meili \<Rightarrow> 'i \<Rightarrow> goerr option" where
  "Ping M ix = map_option (\<lambda>e. Errorf [Lit ''meilisearch health: '', Wrap e]) (me_health M ix)"

definition Probe_Check :: "'i meili \<Rightarrow> 'i \<Rightarrow> goerr option" where
  "Probe_Check M ix = map_option (\<lambda>e. Errorf [Lit ''ping: '', Wrap e]) (Ping M ix)"

text \<open>The constructor: the URL and the key a client is built with.\<close>

definition newClient :: "string \<Rightarrow> string \<Rightarrow> string \<Rightarrow> (string \<times> string) result" where
  "newClient url key scope =
     (if url = [] then Inl (Errorf [Lit ''meilisearch: '', Lit scope, Lit '' client: MEILI_URL is empty''])
      else if key = [] then Inl (Errorf [Lit ''meilisearch: '', Lit scope, Lit '' client: no API key configured''])
      else Inr (url, key))"

section \<open>Indexer\<close>

definition parent_filter :: "unicode \<Rightarrow> string \<Rightarrow> string" where
  "parent_filter U parentID = ''parent_id = '' @ Quote U parentID"

definition clearParent :: "unicode \<Rightarrow> 'i meili \<Rightarrow> string \<Rightarrow> 'i \<Rightarrow> 'i \<times> goerr option" where
  "clearParent U M parentID ix =
     (case me_delete M (parent_filter U parentID) ix of
        (ix', Inl e) \<Rightarrow> (ix', Some (Errorf [Lit ''meilisearch: delete by filter: '', Wrap e]))
      | (ix', Inr uid) \<Rightarrow> awaitTask M uid ''delete by filter'' ix')"

text \<open>The upload loop; a batch is never empty, so it ends.\<close>

function add_batches :: "'i meili \<Rightarrow> indexDocument list \<Rightarrow> 'i \<Rightarrow> 'i \<times> goerr option" where
  "add_batches M records ix =
     (if records = [] then (ix, None)
      else (case me_add M (map toMap (take indexBatchSize records)) ix of
              (ix', Inl e) \<Rightarrow> (ix', Some (Errorf [Lit ''meilisearch: add documents: '', Wrap e]))
            | (ix', Inr uid) \<Rightarrow>
                (case awaitTask M uid ''add documents'' ix' of
                   (ix'', Some e) \<Rightarrow> (ix'', Some e)
                 | (ix'', None) \<Rightarrow> add_batches M (drop indexBatchSize records) ix'')))"
  by pat_completeness auto
termination by (relation "measure (\<lambda>(M, records, ix). length records)") (auto simp: indexBatchSize_def)

declare add_batches.simps [simp del]

definition indexer_Upsert :: "unicode \<Rightarrow> (string \<Rightarrow> string) \<Rightarrow> markdown \<Rightarrow> 'i meili \<Rightarrow> Registry \<Rightarrow> Document option \<Rightarrow> 'i \<Rightarrow> 'i \<times> goerr option" where
  "indexer_Upsert U strip md M types odoc ix =
     (case odoc of
        None \<Rightarrow> (ix, Some (New ''meilisearch indexer: nil document''))
      | Some doc \<Rightarrow>
          (case RegGet types (d_type doc) of
             None \<Rightarrow> (ix, Some (Errorf [Lit ''meilisearch indexer: unknown type '', Quo (d_type doc)]))
           | Some dt \<Rightarrow>
               let records = buildRecords U strip md doc dt in
               if length records = 0 then (ix, None)
               else (case clearParent U M (d_id doc) ix of
                       (ix', Some e) \<Rightarrow> (ix', Some e)
                     | (ix', None) \<Rightarrow> add_batches M records ix')))"

definition indexer_Delete :: "unicode \<Rightarrow> 'i meili \<Rightarrow> DocumentID \<Rightarrow> 'i \<Rightarrow> 'i \<times> goerr option" where
  "indexer_Delete U M i ix = clearParent U M i ix"

section \<open>Settings\<close>

definition DesiredSettings :: Settings where
  "DesiredSettings = \<lparr>sg_searchable = [''title'', ''section_heading'', ''body_excerpt''],
     sg_filterable = [''author_handles'', ''labels'', ''parent_id'', ''status'', ''type'', ''visibility''],
     sg_sortable = [''created_at'', ''updated_at''],
     sg_ranking = [''words'', ''typo'', ''proximity'', ''attribute'', ''sort'', ''exactness'', ''created_at:desc''],
     sg_typo = Some \<lparr>ty_enabled = True, ty_one = 5, ty_two = 9\<rparr>, sg_displayed = [''*'']\<rparr>"

definition stringSetsEqual :: "string list \<Rightarrow> string list \<Rightarrow> bool" where
  "stringSetsEqual a b = (if length a \<noteq> length b then False else sort a = sort b)"

definition typoToleranceEqual :: "TypoTolerance option \<Rightarrow> TypoTolerance option \<Rightarrow> bool" where
  "typoToleranceEqual a b =
     (case (a, b) of
        (None, None) \<Rightarrow> True
      | (Some x, Some y) \<Rightarrow> ty_enabled x = ty_enabled y \<and> ty_one x = ty_one y \<and> ty_two x = ty_two y
      | _ \<Rightarrow> False)"

definition settingsEqual :: "Settings option \<Rightarrow> Settings option \<Rightarrow> bool" where
  "settingsEqual got want =
     (case (got, want) of
        (Some g, Some w) \<Rightarrow>
          stringSetsEqual (sg_searchable g) (sg_searchable w) \<and> stringSetsEqual (sg_filterable g) (sg_filterable w)
          \<and> stringSetsEqual (sg_sortable g) (sg_sortable w) \<and> sg_ranking g = sg_ranking w
          \<and> stringSetsEqual (sg_displayed g) (sg_displayed w) \<and> typoToleranceEqual (sg_typo g) (sg_typo w)
      | (None, None) \<Rightarrow> True
      | _ \<Rightarrow> False)"

definition ensureIndex :: "'i meili \<Rightarrow> 'i \<Rightarrow> 'i \<times> goerr option" where
  "ensureIndex M ix =
     (case me_getIndex M ix of
        None \<Rightarrow> (ix, None)
      | Some _ \<Rightarrow>
          (case me_createIndex M ix of
             (ix', Inl e) \<Rightarrow> (ix', Some (Errorf [Lit ''meilisearch: create index '', Quo ''documents'', Lit '': '', Wrap e]))
           | (ix', Inr uid) \<Rightarrow> awaitTask M uid ''create index'' ix'))"

definition ApplySettings :: "'i meili \<Rightarrow> 'i \<Rightarrow> 'i \<times> goerr option" where
  "ApplySettings M ix =
     (case ensureIndex M ix of
        (ix', Some e) \<Rightarrow> (ix', Some e)
      | (ix', None) \<Rightarrow>
          (case me_getSettings M ix' of
             Inl e \<Rightarrow> (ix', Some (Errorf [Lit ''meilisearch: get settings: '', Wrap e]))
           | Inr current \<Rightarrow>
               if settingsEqual current (Some DesiredSettings) then (ix', None)
               else (case me_updateSettings M DesiredSettings ix' of
                       (ix'', Inl e) \<Rightarrow> (ix'', Some (Errorf [Lit ''meilisearch: update settings: '', Wrap e]))
                     | (ix'', Inr uid) \<Rightarrow> awaitTask M uid ''update settings'' ix'')))"

section \<open>Drift\<close>

record DriftReport =
  dr_Type :: string
  dr_Postgres :: int
  dr_Meili :: int
  dr_Delta :: int

definition count_of :: "(string \<times> int) list \<Rightarrow> string \<Rightarrow> int" where
  "count_of m t = (case map_of m t of None \<Rightarrow> 0 | Some n \<Rightarrow> n)"

text \<open>The report is sorted by distinct types, so the order of the maps does not matter.\<close>

definition CompareDrift :: "(string \<times> int) list \<Rightarrow> (string \<times> int) list \<Rightarrow> DriftReport list" where
  "CompareDrift pg idx =
     map (\<lambda>t. \<lparr>dr_Type = t, dr_Postgres = count_of pg t, dr_Meili = count_of idx t,
                dr_Delta = count_of pg t - count_of idx t\<rparr>)
       (sort (remdups (map fst pg @ map fst idx)))"

text \<open>One search per type; \<open>srch filter\<close> gives the exact and the estimated total.\<close>

fun DistinctParentsByType :: "unicode \<Rightarrow> (string \<Rightarrow> (int \<times> int) result) \<Rightarrow> string list \<Rightarrow> (string \<times> int) list \<Rightarrow> (string \<times> int) list result" where
  "DistinctParentsByType U srch [] out = Inr out"
| "DistinctParentsByType U srch (t # ts) out =
     (case srch (''visibility = '' @ Quote U visibilityInternal @ '' AND type = '' @ Quote U t) of
        Inl e \<Rightarrow> Inl (Errorf [Lit ''meilisearch drift '', Quo t, Lit '': '', Wrap e])
      | Inr (tot, est) \<Rightarrow> DistinctParentsByType U srch ts (AList.update t (if tot = 0 then est else tot) out))"

section \<open>Record identifiers\<close>

lemma walk_slugs:
  "map ma_slug (walk_headings U strip src hs sl) = slugs U strip (map (headingText U) (filter (\<lambda>h. mh_level h \<le> 2) hs)) sl"
  by (induction hs arbitrary: sl) (auto split: prod.split)

lemma close_slugs: "map se_Slug (close_sections U src ms) = map ma_slug ms"
  by (induction ms) (simp_all add: Let_def)

lemma Slugger_nonempty: "slug_of U strip s \<noteq> [] \<Longrightarrow> fst (Slugger_Slug U strip s sl) \<noteq> []"
  by (auto simp: Slugger_Slug_def suffixed_def Let_def split: option.split)

lemma slugs_nonempty: "(\<And>s. s \<in> set ss \<Longrightarrow> slug_of U strip s \<noteq> []) \<Longrightarrow> [] \<notin> set (slugs U strip ss sl)"
proof (induction ss arbitrary: sl)
  case (Cons s ss)
  obtain r sl' where r: "Slugger_Slug U strip s sl = (r, sl')" by (rule prod.exhaust)
  show ?case using Cons.IH [of sl'] Cons.prems Slugger_nonempty [of U strip s sl] by (auto simp: r)
qed simp

text \<open>Every heading that starts a section has letters, digits, hyphens or underscores to make a slug of.\<close>

definition sluggable :: "unicode \<Rightarrow> (string \<Rightarrow> string) \<Rightarrow> md_heading list \<Rightarrow> bool" where
  "sluggable U strip hs = list_all (\<lambda>h. 2 < mh_level h \<or> slug_of U strip (headingText U h) \<noteq> []) hs"

lemma section_slugs_distinct:
  assumes "sluggable U strip (md body)"
  shows "distinct (map se_Slug (splitSections U strip md body))"
proof -
  let ?w = "walk_headings U strip body (md body) NewSlugger"
  have ne: "[] \<notin> set (map ma_slug ?w)"
    unfolding walk_slugs using assms by (intro slugs_nonempty) (auto simp: sluggable_def list_all_iff)
  have d: "distinct (map ma_slug ?w)"
    unfolding walk_slugs using slugs_fresh [of U strip _ NewSlugger] by blast
  have "distinct (map se_Slug (close_sections U body (\<lparr>ma_heading = [], ma_slug = [], ma_start = 0, ma_end = 0\<rparr> # ?w)))"
    unfolding close_slugs using ne d by simp
  then show ?thesis unfolding splitSections_def Let_def by (simp add: map_tl distinct_tl)
qed

lemma record_id_inject: "record_id doc s = record_id doc t \<longleftrightarrow> se_Slug s = se_Slug t"
  by (auto simp: record_id_def)

lemma record_ids_distinct:
  assumes "sluggable U strip (md (d_body doc))"
  shows "distinct (map ix_ID (buildRecords U strip md doc dt))"
proof -
  have "distinct (map se_Slug ss) \<Longrightarrow> distinct (map (record_id doc) ss)" for ss
    by (induction ss) (auto simp: record_id_inject image_iff)
  then show ?thesis using section_slugs_distinct [where md = md and body = "d_body doc", OF assms] by (simp add: buildRecords_def comp_def)
qed

section \<open>Replacing a document in the index\<close>

definition member_text :: "string \<Rightarrow> (string \<times> json) list \<Rightarrow> string" where
  "member_text k m = (case map_of m k of Some (JStr s) \<Rightarrow> s | _ \<Rightarrow> [])"

abbreviation key_of :: "(string \<times> json) list \<Rightarrow> string" where "key_of \<equiv> member_text ''id''"
abbreviation parent_of :: "(string \<times> json) list \<Rightarrow> string" where "parent_of \<equiv> member_text ''parent_id''"

lemma fold_update_other:
  "k \<notin> fst ` set ext \<Longrightarrow> map_of (fold (\<lambda>(k, v). AList.update k v) ext m) k = map_of m k"
  by (induction ext arbitrary: m) (auto simp: update_conv')

lemma flatten_keys: "k \<in> fst ` set (flattenExtensions U ext p) \<Longrightarrow> prefix ''ext_'' k"
proof -
  have "fst ` set (fold (\<lambda>(k, v). AList.update (''ext_'' @ p @ ''_'' @ ToLower U k) v) ext m)
      \<subseteq> fst ` set m \<union> range ((@) ''ext_'')" for m :: "(string \<times> json) list"
  proof (induction ext arbitrary: m)
    case (Cons kv ext)
    obtain k v where kv: "kv = (k, v)" by (cases kv)
    let ?m = "AList.update (''ext_'' @ p @ ''_'' @ ToLower U k) v m"
    have "fst ` set ?m \<subseteq> fst ` set m \<union> range ((@) ''ext_'')"
      using dom_update [of "''ext_'' @ p @ ''_'' @ ToLower U k" v m] by blast
    then show ?case using Cons [of ?m] by (simp add: kv) blast
  qed simp
  from this [of "[]"] show "k \<in> fst ` set (flattenExtensions U ext p) \<Longrightarrow> prefix ''ext_'' k"
    by (auto simp: flattenExtensions_def)
qed

lemma record_members:
  assumes "r \<in> set (buildRecords U strip md doc dt)"
  shows "key_of (toMap r) = ix_ID r" and "parent_of (toMap r) = d_id doc"
proof -
  have "ix_Extensions r = flattenExtensions U (d_extensions doc) (ToLower U (dt_prefix dt))" and p: "ix_ParentID r = d_id doc"
    using assms by (auto simp: buildRecords_def)
  then have e: "''id'' \<notin> fst ` set (ix_Extensions r)" "''parent_id'' \<notin> fst ` set (ix_Extensions r)"
    using flatten_keys by fastforce+
  show "key_of (toMap r) = ix_ID r" unfolding member_text_def toMap_def fold_update_other [OF e(1)] by simp
  show "parent_of (toMap r) = d_id doc" unfolding member_text_def toMap_def fold_update_other [OF e(2)] by (simp add: p)
qed

lemma fold_index:
  "distinct (map f rs) \<Longrightarrow> fold (\<lambda>r c. c(f r \<mapsto> g r)) rs c k = (case find (\<lambda>r. f r = k) rs of None \<Rightarrow> c k | Some r \<Rightarrow> Some (g r))"
proof (induction rs arbitrary: c)
  case (Cons r rs)
  have "find (\<lambda>r. f r = k) rs = None" if "f r = k"
    using Cons.prems that by (auto simp: find_None_iff) (metis image_eqI)
  then show ?case using Cons by (auto split: option.split)
qed simp

lemma add_batches_contents:
  assumes "\<And>batch ix ix' uid ix''. me_add M batch ix = (ix', Inr uid) \<Longrightarrow> awaitTask M uid ''add documents'' ix' = (ix'', None) \<Longrightarrow>
      contents ix'' = fold (\<lambda>m c. c(key_of m \<mapsto> m)) batch (contents ix)"
  shows "add_batches M records ix = (ix', None) \<Longrightarrow>
    contents ix' = fold (\<lambda>r c. c(key_of (toMap r) \<mapsto> toMap r)) records (contents ix)"
proof (induction "length records" arbitrary: records ix rule: less_induct)
  case less
  show ?case
  proof (cases "records = []")
    case True
    then show ?thesis using less.prems by (simp add: add_batches.simps)
  next
    case False
    obtain ix1 uid ix2 where a: "me_add M (map toMap (take indexBatchSize records)) ix = (ix1, Inr uid)"
      and w: "awaitTask M uid ''add documents'' ix1 = (ix2, None)"
      and r: "add_batches M (drop indexBatchSize records) ix2 = (ix', None)"
      using less.prems False by (subst (asm) add_batches.simps) (auto split: prod.splits sum.splits option.splits)
    have "length (drop indexBatchSize records) < length records" using False by (simp add: indexBatchSize_def)
    note ih = less.hyps [OF this r]
    have "contents ix2 = fold (\<lambda>r c. c(key_of (toMap r) \<mapsto> toMap r)) (take indexBatchSize records) (contents ix)"
      using assms [OF a w] by (simp add: fold_map comp_def)
    then have "contents ix' = fold (\<lambda>r c. c(key_of (toMap r) \<mapsto> toMap r))
        (take indexBatchSize records @ drop indexBatchSize records) (contents ix)"
      using ih unfolding fold_append comp_apply by simp
    then show ?thesis by simp
  qed
qed

definition without_parent :: "string \<Rightarrow> (string \<rightharpoonup> (string \<times> json) list) \<Rightarrow> string \<rightharpoonup> (string \<times> json) list" where
  "without_parent p c k = (case c k of None \<Rightarrow> None | Some m \<Rightarrow> if parent_of m = p then None else Some m)"

text \<open>C28: Indexing replaces a document completely. Suppose the server does what it documents: a finished
  delete-by-filter task has removed the records of the parent, a finished add task has added or replaced
  records by their primary key. If every section heading yields a slug, then after a successful upsert the
  index holds, under the document's sections' ids, exactly the records built from the document, no other
  record of the document, and every record of other documents unless a section id names it.\<close>

theorem index_upsert_replaces:
  assumes "\<And>ix ix' uid ix''. me_delete M (parent_filter U (d_id doc)) ix = (ix', Inr uid) \<Longrightarrow>
      awaitTask M uid ''delete by filter'' ix' = (ix'', None) \<Longrightarrow> contents ix'' = without_parent (d_id doc) (contents ix)"
    and "\<And>batch ix ix' uid ix''. me_add M batch ix = (ix', Inr uid) \<Longrightarrow> awaitTask M uid ''add documents'' ix' = (ix'', None) \<Longrightarrow>
      contents ix'' = fold (\<lambda>m c. c(key_of m \<mapsto> m)) batch (contents ix)"
    and "sluggable U strip (md (d_body doc))" and "RegGet types (d_type doc) = Some dt"
    and "indexer_Upsert U strip md M types (Some doc) ix = (ix', None)"
  shows "contents ix' k =
      (case find (\<lambda>r. ix_ID r = k) (buildRecords U strip md doc dt) of
         Some r \<Rightarrow> Some (toMap r) | None \<Rightarrow> without_parent (d_id doc) (contents ix) k)
    \<and> buildRecords U strip md doc dt \<noteq> []"
proof -
  let ?rs = "buildRecords U strip md doc dt"
  have ne: "?rs \<noteq> []" by (auto simp: buildRecords_def splitSections_def Let_def)
  obtain ix0 uid ix1 where d: "me_delete M (parent_filter U (d_id doc)) ix = (ix0, Inr uid)"
    and w: "awaitTask M uid ''delete by filter'' ix0 = (ix1, None)" and a: "add_batches M ?rs ix1 = (ix', None)"
    using assms(4,5) ne by (auto simp: indexer_Upsert_def clearParent_def Let_def split: prod.splits sum.splits option.splits)
  have "contents ix' = fold (\<lambda>r c. c(key_of (toMap r) \<mapsto> toMap r)) ?rs (contents ix1)"
    using assms(2) a by (rule add_batches_contents)
  also have "\<dots> = fold (\<lambda>r c. c(ix_ID r \<mapsto> toMap r)) ?rs (contents ix1)"
    by (rule fold_cong) (simp_all add: record_members(1))
  finally show ?thesis
    using fold_index [OF record_ids_distinct [where md = md and doc = doc and dt = dt, OF assms(3)], of toMap "contents ix1" k] assms(1) [OF d w] ne
    by (simp split: option.split)
qed

text \<open>A server that runs each task at once, over a map from ids to records; its filters are those of
  \<open>clearParent\<close>.\<close>

definition map_server :: "unicode \<Rightarrow> (string \<rightharpoonup> (string \<times> json) list) meili" where
  "map_server U = \<lparr>me_getIndex = (\<lambda>_. None), me_createIndex = (\<lambda>ix. (ix, Inr 0)), me_getSettings = (\<lambda>_. Inr (Some DesiredSettings)),
     me_updateSettings = (\<lambda>s ix. (ix, Inr 0)),
     me_add = (\<lambda>batch ix. (fold (\<lambda>m c. c(key_of m \<mapsto> m)) batch ix, Inr 0)),
     me_delete = (\<lambda>flt ix. (\<lambda>k. case ix k of None \<Rightarrow> None | Some m \<Rightarrow> if parent_filter U (parent_of m) = flt then None else Some m, Inr 0)),
     me_wait = (\<lambda>uid ix. (ix, Inr (Some (TaskSucceeded, [])))), me_health = (\<lambda>_. None)\<rparr>"

definition marked :: unicode where
  "marked = ascii_only\<lparr>uni_quote := (\<lambda>s. CHR ''x'' # s)\<rparr>"

lemma marked_quote: "Quote marked s = Quote marked t \<longleftrightarrow> s = t"
  by (auto simp: Quote_def marked_def)

definition two_sections :: markdown where
  "two_sections body = [\<lparr>mh_level = 2, mh_inlines = [MText ''Goals''], mh_lines = [(3, 8)]\<rparr>,
     \<lparr>mh_level = 2, mh_inlines = [MText ''Goals''], mh_lines = [(14, 19)]\<rparr>]"

definition split_body :: string where
  "split_body = ''## Goals'' @ [CHR 0x0A] @ ''a'' @ [CHR 0x0A] @ ''## Goals'' @ [CHR 0x0A] @ ''b''"

lemma two_sections_split: "map (\<lambda>s. (se_Slug s, se_Body s)) (splitSections marked (\<lambda>s. s) two_sections split_body) =
    [(''goals'', ''a''), (''goals-1'', ''b'')]"
  by code_simp

lemma map_server_await: "awaitTask (map_server U) uid l ix = (ix, None)"
  by (simp add: awaitTask_def map_server_def)

lemma map_server_calls:
  "me_add (map_server U) batch ix = (fold (\<lambda>m c. c(key_of m \<mapsto> m)) batch ix, Inr 0)"
  "me_delete (map_server U) flt ix = (\<lambda>k. case ix k of None \<Rightarrow> None | Some m \<Rightarrow> if parent_filter U (parent_of m) = flt then None else Some m, Inr 0)"
  by (simp_all add: map_server_def)

lemma map_server_add: "snd (add_batches (map_server U) records ix) = None"
proof (induction "map_server U" records ix rule: add_batches.induct)
  case (1 records ix)
  then show ?case by (subst add_batches.simps) (simp add: map_server_await map_server_calls)
qed

lemma map_server_laws:
  "me_delete (map_server marked) (parent_filter marked p) ix = (ix', Inr uid) \<Longrightarrow>
     awaitTask (map_server marked) uid l ix' = (ix'', None) \<Longrightarrow> ix'' = without_parent p ix"
  "me_add (map_server marked) batch ix = (ix', Inr uid) \<Longrightarrow>
     awaitTask (map_server marked) uid l ix' = (ix'', None) \<Longrightarrow> ix'' = fold (\<lambda>m c. c(key_of m \<mapsto> m)) batch ix"
proof -
  have "without_parent p ix = (\<lambda>k. case ix k of None \<Rightarrow> None
      | Some m \<Rightarrow> if parent_filter marked (parent_of m) = parent_filter marked p then None else Some m)"
    by (rule ext) (simp add: without_parent_def parent_filter_def marked_quote split: option.split)
  then show "me_delete (map_server marked) (parent_filter marked p) ix = (ix', Inr uid) \<Longrightarrow>
      awaitTask (map_server marked) uid l ix' = (ix'', None) \<Longrightarrow> ix'' = without_parent p ix"
    by (auto simp: map_server_calls map_server_await)
qed (auto simp: map_server_calls map_server_await)

definition split_doc :: Document where
  "split_doc = zero_document\<lparr>d_id := ''RFC-0001'', d_type := ''rfc'', d_body := split_body\<rparr>"

theorem index_upsert_replaces_witness:
  "fst (indexer_Upsert marked (\<lambda>s. s) two_sections (map_server marked) (registry_of marked default_types) (Some split_doc)
      [''RFC-0001__old'' \<mapsto> [(''id'', JStr ''RFC-0001__old''), (''parent_id'', JStr ''RFC-0001'')]]) ''RFC-0001__old'' = None"
proof -
  let ?i = "[''RFC-0001__old'' \<mapsto> [(''id'', JStr ''RFC-0001__old''), (''parent_id'', JStr ''RFC-0001'')]]"
  let ?u = "indexer_Upsert marked (\<lambda>s. s) two_sections (map_server marked) (registry_of marked default_types) (Some split_doc) ?i"
  obtain dt where dt: "RegGet (registry_of marked default_types) (d_type split_doc) = Some dt"
    by (simp add: RegGet_def registry_of_def default_types_def split_doc_def)
  have b: "d_body split_doc = split_body" "d_id split_doc = ''RFC-0001''" by (simp_all add: split_doc_def)
  have "snd ?u = None"
    by (simp add: indexer_Upsert_def dt clearParent_def Let_def map_server_calls map_server_await map_server_add)
  then obtain ix' where u: "?u = (ix', None)" by (metis prod.collapse)
  obtain y z where "splitSections marked (\<lambda>s. s) two_sections split_body = [y, z]" "se_Slug y = ''goals''" "se_Slug z = ''goals-1''"
    using two_sections_split by (auto simp: map_eq_Cons_conv)
  then have "map ix_ID (buildRecords marked (\<lambda>s. s) two_sections split_doc dt) = [''RFC-0001__goals'', ''RFC-0001__goals-1'']"
    by (simp add: buildRecords_def record_id_def b)
  then have "find (\<lambda>r. ix_ID r = ''RFC-0001__old'') (buildRecords marked (\<lambda>s. s) two_sections split_doc dt) = None"
    by (auto simp: map_eq_Cons_conv)
  moreover have "sluggable marked (\<lambda>s. s) (two_sections (d_body split_doc))" by code_simp
  ultimately have "ix' ''RFC-0001__old'' = without_parent ''RFC-0001'' ?i ''RFC-0001__old''"
    using index_upsert_replaces [where contents = "\<lambda>ix. ix" and k = "''RFC-0001__old''", OF map_server_laws _ dt u] b(2) by simp
  then show ?thesis by (simp add: u without_parent_def member_text_def)
qed

text \<open>A heading without any letter or digit has the empty slug, and its record gets the id of the record
  of the text before the first heading: the two sections share a primary key.\<close>

lemma empty_slug_collides:
  "map (record_id (zero_document\<lparr>d_id := ''RFC-0001''\<rparr>)) (splitSections ascii_only (\<lambda>s. s)
     (\<lambda>body. [\<lparr>mh_level = 2, mh_inlines = [MText ''!''], mh_lines = [(5, 6)]\<rparr>]) (''a'' @ [CHR 0x0A] @ ''## !'' @ [CHR 0x0A] @ ''b''))
   = [''RFC-0001'', ''RFC-0001'']"
  by code_simp

section \<open>Settings and drift\<close>

lemma settingsEqual_refl: "settingsEqual (Some s) (Some s)"
  by (simp add: settingsEqual_def stringSetsEqual_def typoToleranceEqual_def split: option.split)

text \<open>Lists are compared as multisets, except the ranking rules, whose order counts.\<close>

lemma stringSetsEqual_mset: "stringSetsEqual a b \<longleftrightarrow> mset a = mset b"
proof -
  have "sort a = sort b \<longleftrightarrow> mset a = mset b" by (metis mset_sort properties_for_sort sorted_sort)
  then show ?thesis unfolding stringSetsEqual_def by (metis mset_eq_length)
qed

text \<open>Once the settings have been applied, applying them again writes nothing.\<close>

lemma ApplySettings_again:
  assumes "me_getIndex M ix = None" and "me_getSettings M ix = Inr (Some s)" and "settingsEqual (Some s) (Some DesiredSettings)"
  shows "ApplySettings M ix = (ix, None)"
  using assms by (simp add: ApplySettings_def ensureIndex_def)

lemma drift_report:
  "sorted (map dr_Type (CompareDrift pg idx)) \<and> distinct (map dr_Type (CompareDrift pg idx))
   \<and> set (map dr_Type (CompareDrift pg idx)) = fst ` set pg \<union> fst ` set idx
   \<and> list_all (\<lambda>r. dr_Delta r = count_of pg (dr_Type r) - count_of idx (dr_Type r)) (CompareDrift pg idx)"
  by (auto simp: CompareDrift_def list_all_iff comp_def)

end
