(* ===== verification/Url.thy ===== *)
theory Url
  imports Prelude
begin

text \<open>
  The query strings of \<^verbatim>\<open>net/url\<close>. \<^verbatim>\<open>url.Values\<close> is the list of its key and value pairs in
  the order they were read; the values of one key keep their order, which is all a Go map of
  slices keeps. The main result: parsing what \<^verbatim>\<open>Values.Encode\<close> writes gives the pairs back.
\<close>

type_synonym Values = "(string \<times> string) list"

definition values_of :: "Values \<Rightarrow> string \<Rightarrow> string list" where
  "values_of q k = map snd (filter (\<lambda>p. fst p = k) q)"

definition ValuesGet :: "Values \<Rightarrow> string \<Rightarrow> string" where
  "ValuesGet q k = (case values_of q k of [] \<Rightarrow> [] | v # _ \<Rightarrow> v)"

definition ValuesSet :: "Values \<Rightarrow> string \<Rightarrow> string \<Rightarrow> Values" where
  "ValuesSet q k v = filter (\<lambda>p. fst p \<noteq> k) q @ [(k, v)]"

section \<open>Escaping\<close>

definition upper_hex :: "nat \<Rightarrow> char" where
  "upper_hex n = (if n < 10 then char_of (48 + n) else char_of (55 + n))"

definition unreserved :: "char \<Rightarrow> bool" where
  "unreserved c = (is_alpha_char c \<or> is_digit_char c \<or> c = CHR ''-'' \<or> c = CHR ''_'' \<or> c = CHR ''.'' \<or> c = CHR ''~'')"

definition escape_char :: "char \<Rightarrow> string" where
  "escape_char c =
     (if unreserved c then [c] else if c = CHR '' '' then [CHR ''+'']
      else [CHR ''%'', upper_hex (of_char c div 16), upper_hex (of_char c mod 16)])"

definition QueryEscape :: "string \<Rightarrow> string" where
  "QueryEscape s = concat (map escape_char s)"

definition unhex :: "char \<Rightarrow> nat option" where
  "unhex c =
     (if is_digit_char c then Some (of_char c - 48)
      else if 97 \<le> (of_char c :: nat) \<and> of_char c \<le> (102::nat) then Some (of_char c - 87)
      else if 65 \<le> (of_char c :: nat) \<and> of_char c \<le> (70::nat) then Some (of_char c - 55)
      else None)"

text \<open>\<open>None\<close> is \<^verbatim>\<open>EscapeError\<close>.\<close>

fun QueryUnescape :: "string \<Rightarrow> string option" where
  "QueryUnescape [] = Some []"
| "QueryUnescape (c # r) =
     (if c = CHR ''%'' then
        (case r of a # b # r' \<Rightarrow>
           (case (unhex a, unhex b) of
              (Some x, Some y) \<Rightarrow> map_option ((#) (char_of (x * 16 + y))) (QueryUnescape r')
            | _ \<Rightarrow> None)
         | _ \<Rightarrow> None)
      else map_option ((#) (if c = CHR ''+'' then CHR '' '' else c)) (QueryUnescape r))"

section \<open>Query strings\<close>

text \<open>
  \<^verbatim>\<open>URL.Query()\<close>: segments between ampersands; an empty segment, one with a semicolon and one
  with a bad escape are skipped.
\<close>

definition cut_eq :: "string \<Rightarrow> string \<times> string" where
  "cut_eq s = (takeWhile (\<lambda>c. c \<noteq> CHR ''='') s, drop 1 (dropWhile (\<lambda>c. c \<noteq> CHR ''='') s))"

definition parse_segment :: "string \<Rightarrow> (string \<times> string) option" where
  "parse_segment seg =
     (if CHR '';'' \<in> set seg \<or> seg = [] then None
      else case cut_eq seg of (k, v) \<Rightarrow>
        (case (QueryUnescape k, QueryUnescape v) of (Some k', Some v') \<Rightarrow> Some (k', v') | _ \<Rightarrow> None))"

definition ParseQuery :: "string \<Rightarrow> Values" where
  "ParseQuery s = List.map_filter parse_segment (Split s CHR ''&'')"

definition encode_pair :: "string \<times> string \<Rightarrow> string" where
  "encode_pair p = QueryEscape (fst p) @ ''='' @ QueryEscape (snd p)"

text \<open>\<^verbatim>\<open>Values.Encode\<close>: keys in order, the values of a key in theirs.\<close>

definition ValuesEncode :: "Values \<Rightarrow> string" where
  "ValuesEncode q = Join (map encode_pair (sort_key fst q)) ''&''"

section \<open>Paths\<close>

text \<open>The escaping of paths: \<^verbatim>\<open>escape\<close> and \<^verbatim>\<open>unescape\<close> of \<^verbatim>\<open>net/url\<close> in their mode for paths, the
  characters a raw path may hold, and \<^verbatim>\<open>URL.EscapedPath\<close>.\<close>

definition path_char :: "char \<Rightarrow> bool" where
  "path_char c = (unreserved c \<or> c \<in> set ''$&+,/:;=@'')"

definition PathEscape :: "string \<Rightarrow> string" where
  "PathEscape s =
     concat (map (\<lambda>c. if path_char c then [c] else [CHR ''%'', upper_hex (of_char c div 16), upper_hex (of_char c mod 16)]) s)"

fun PathUnescape :: "string \<Rightarrow> string option" where
  "PathUnescape [] = Some []"
| "PathUnescape (c # r) =
     (if c = CHR ''%'' then
        (case r of a # b # r' \<Rightarrow>
           (case (unhex a, unhex b) of
              (Some x, Some y) \<Rightarrow> map_option ((#) (char_of (x * 16 + y))) (PathUnescape r')
            | _ \<Rightarrow> None)
         | _ \<Rightarrow> None)
      else map_option ((#) c) (PathUnescape r))"

definition validEncoded :: "string \<Rightarrow> bool" where
  "validEncoded s = list_all (\<lambda>c. c \<in> set ''!$&'()*+,;=:@[]%'' \<or> path_char c) s"

definition EscapedPath :: "string \<Rightarrow> string \<Rightarrow> string" where
  "EscapedPath path rawPath =
     (if rawPath \<noteq> [] \<and> validEncoded rawPath \<and> PathUnescape rawPath = Some path then rawPath
      else if path = ''*'' then ''*'' else PathEscape path)"

text \<open>\<^verbatim>\<open>path.Clean\<close> of a rooted path, and \<^verbatim>\<open>cleanPath\<close> of \<^verbatim>\<open>net/http\<close>, which keeps a trailing slash.\<close>

fun clean_parts :: "string list \<Rightarrow> string list \<Rightarrow> string list" where
  "clean_parts out [] = rev out"
| "clean_parts out (p # ps) =
     (if p = [] \<or> p = ''.'' then clean_parts out ps
      else if p = ''..'' then clean_parts (drop 1 out) ps
      else clean_parts (p # out) ps)"

definition path_Clean :: "string \<Rightarrow> string" where
  "path_Clean p = CHR ''/'' # Join (clean_parts [] (Split p CHR ''/'')) ''/''"

definition cleanPath :: "string \<Rightarrow> string" where
  "cleanPath p =
     (if p = [] then ''/''
      else let p' = (if hd p \<noteq> CHR ''/'' then CHR ''/'' # p else p); np = path_Clean p'
           in if last p' = CHR ''/'' \<and> np \<noteq> ''/'' then np @ ''/'' else np)"

section \<open>Round trip\<close>

lemma unhex_upper: "n < 16 \<Longrightarrow> unhex (upper_hex n) = Some n"
  by (auto simp: unhex_def upper_hex_def is_digit_char_def)

lemma high_nibble: "(of_char c :: nat) div 16 < 16"
  using of_char_less_256 [of c] by (simp add: less_mult_imp_div_less)

lemma unescape_char:
  "QueryUnescape (escape_char c @ r) = map_option ((#) c) (QueryUnescape r)"
proof -
  have u: "unhex (upper_hex (of_char c div 16)) = Some (of_char c div 16)"
    "unhex (upper_hex (of_char c mod 16)) = Some (of_char c mod 16)"
    by (simp_all add: unhex_upper high_nibble)
  have e: "char_of ((of_char c :: nat) div 16 * 16 + of_char c mod 16) = c" by simp
  have "unreserved c \<Longrightarrow> c \<noteq> CHR ''%'' \<and> c \<noteq> CHR ''+''"
    by (auto simp: unreserved_def is_alpha_char_def is_upper_char_def is_lower_char_def is_digit_char_def)
  then show ?thesis using u e by (auto simp: escape_char_def)
qed

lemma unescape_escape: "QueryUnescape (QueryEscape s) = Some s"
  by (induction s) (simp_all add: QueryEscape_def unescape_char)

definition query_safe :: "char \<Rightarrow> bool" where
  "query_safe c = (c \<noteq> CHR ''&'' \<and> c \<noteq> CHR ''='' \<and> c \<noteq> CHR '';'')"

lemma upper_hex_safe: "n < 16 \<Longrightarrow> query_safe (upper_hex n)"
proof -
  assume n: "n < 16"
  then have "(of_char (upper_hex n) :: nat) \<in> {48..57} \<union> {65..70}"
    by (auto simp: upper_hex_def)
  then show ?thesis by (auto simp: query_safe_def)
qed

lemma unreserved_safe: "unreserved c \<Longrightarrow> query_safe c"
  by (auto simp: unreserved_def query_safe_def is_alpha_char_def is_upper_char_def is_lower_char_def is_digit_char_def)

lemma escape_safe: "list_all query_safe (QueryEscape s)"
proof -
  have "list_all query_safe (escape_char c)" for c
    using upper_hex_safe [OF high_nibble, of c] upper_hex_safe [of "of_char c mod 16"] unreserved_safe [of c]
    by (simp add: escape_char_def) (simp add: query_safe_def)
  then show ?thesis by (auto simp: QueryEscape_def list_all_iff)
qed

lemma parse_encode_pair: "parse_segment (encode_pair p) = Some p"
proof -
  let ?k = "QueryEscape (fst p)" and ?v = "QueryEscape (snd p)"
  have s: "\<forall>c\<in>set ?k \<union> set ?v. query_safe c" using escape_safe by (auto simp: list_all_iff)
  then have k: "takeWhile (\<lambda>c. c \<noteq> CHR ''='') (?k @ CHR ''='' # ?v) = ?k"
    "dropWhile (\<lambda>c. c \<noteq> CHR ''='') (?k @ CHR ''='' # ?v) = CHR ''='' # ?v"
    by (auto simp: query_safe_def takeWhile_append2 dropWhile_append2)
  have "cut_eq (encode_pair p) = (?k, ?v)" using k by (simp add: cut_eq_def encode_pair_def)
  moreover have "CHR '';'' \<notin> set (encode_pair p)" "encode_pair p \<noteq> []"
    using s by (auto simp: encode_pair_def query_safe_def)
  ultimately show ?thesis by (simp add: parse_segment_def unescape_escape)
qed

lemma Split_none: "c \<notin> set s \<Longrightarrow> Split s c = [s]"
  by (induction s) auto

lemma Split_append: "c \<notin> set s \<Longrightarrow> Split (s @ c # r) c = s # Split r c"
  by (induction s) auto

lemma Split_Join:
  "xs \<noteq> [] \<Longrightarrow> list_all (\<lambda>s. c \<notin> set s) xs \<Longrightarrow> Split (Join xs [c]) c = xs"
  by (induction xs "[c]" rule: Join.induct) (auto simp: Split_none Split_append)

lemma encode_pair_amp: "CHR ''&'' \<notin> set (encode_pair p)"
  using escape_safe [of "fst p"] escape_safe [of "snd p"]
  by (auto simp: encode_pair_def list_all_iff query_safe_def)

lemma parse_encode: "ParseQuery (ValuesEncode q) = sort_key fst q"
proof (cases q)
  case Nil
  then show ?thesis by (simp add: ParseQuery_def ValuesEncode_def parse_segment_def map_filter_def)
next
  case (Cons p r)
  let ?ps = "sort_key fst q"
  have ne: "map encode_pair ?ps \<noteq> []" using Cons by (metis length_map length_sort list.size(3) length_0_conv list.distinct(1))
  have "Split (ValuesEncode q) CHR ''&'' = map encode_pair ?ps"
    unfolding ValuesEncode_def by (rule Split_Join [OF ne]) (simp add: list_all_iff encode_pair_amp)
  then show ?thesis by (simp add: ParseQuery_def map_filter_def parse_encode_pair comp_def)
qed

lemma values_of_sort: "values_of (sort_key fst q) k = values_of q k"
proof -
  have "filter (\<lambda>p. fst p = k) (sort_key fst q) = filter (\<lambda>p. fst p = k) q"
    by (rule sort_key_stable)
  then show ?thesis by (simp add: values_of_def)
qed

lemma values_of_Set: "values_of (ValuesSet q k v) j = (if j = k then [v] else values_of q j)"
  by (auto simp: values_of_def ValuesSet_def filter_filter intro!: arg_cong [where f = "map snd"] filter_cong)

section \<open>Plain paths\<close>

text \<open>A plain segment stands for itself in a path: no escapes, no slashes, no dots-only segment.\<close>

definition plain_segment :: "string \<Rightarrow> bool" where
  "plain_segment s = (s \<noteq> [] \<and> list_all unreserved s \<and> s \<noteq> ''.'' \<and> s \<noteq> ''..'')"

abbreviation path_of :: "string list \<Rightarrow> string" where
  "path_of segs \<equiv> concat (map ((#) CHR ''/'') segs)"

lemma unreserved_ascii: "unreserved c \<Longrightarrow> c \<noteq> CHR ''%'' \<and> c \<noteq> CHR ''/'' \<and> c \<noteq> CHR ''{'' \<and> c \<noteq> CHR ''}'' \<and> c \<noteq> CHR '' '' \<and> c \<noteq> CHR 0x09 \<and> c \<noteq> CHR ''*''"
  by (auto simp: unreserved_def is_alpha_char_def is_upper_char_def is_lower_char_def is_digit_char_def)

lemma plain_no_slash: "plain_segment s \<Longrightarrow> CHR ''/'' \<notin> set s"
  using unreserved_ascii by (auto simp: plain_segment_def list_all_iff)

lemma PathUnescape_id: "CHR ''%'' \<notin> set s \<Longrightarrow> PathUnescape s = Some s"
  by (induction s) auto

lemma PathEscape_id: "list_all path_char s \<Longrightarrow> PathEscape s = s"
  by (induction s) (auto simp: PathEscape_def)

lemma Join_path_of: "CHR ''/'' # Join segs ''/'' = (if segs = [] then ''/'' else path_of segs)"
  by (induction segs "''/''" rule: Join.induct) auto

lemma clean_parts_id: "list_all (\<lambda>s. s \<noteq> [] \<and> s \<noteq> ''.'' \<and> s \<noteq> ''..'') segs \<Longrightarrow> clean_parts out segs = rev out @ segs"
  by (induction segs arbitrary: out) auto

lemma Split_path_of: "list_all (\<lambda>s. CHR ''/'' \<notin> set s) segs \<Longrightarrow> Split (path_of segs) CHR ''/'' = [] # segs"
proof (induction segs)
  case (Cons s segs)
  then show ?case by (cases segs) (auto simp: Split_none Split_append)
qed simp

text \<open>A path of segments that are not empty and no dots is clean.\<close>

lemma cleanPath_path_of:
  assumes "segs \<noteq> []" and "list_all (\<lambda>s. s \<noteq> [] \<and> s \<noteq> ''.'' \<and> s \<noteq> ''..'' \<and> CHR ''/'' \<notin> set s) segs"
  shows "cleanPath (path_of segs) = path_of segs"
proof -
  have "clean_parts [] (Split (path_of segs) CHR ''/'') = segs"
    using assms(2) Split_path_of [of segs] clean_parts_id [of segs "[]"] by (simp add: list_all_iff)
  then have c: "path_Clean (path_of segs) = path_of segs" using Join_path_of [of segs] assms(1) by (simp add: path_Clean_def)
  have l: "last (path_of segs) = last (last segs)" using assms
    by (induction segs) (auto split: if_splits)
  have "last (last segs) \<in> set (last segs)" "CHR ''/'' \<notin> set (last segs)" using assms by (auto simp: list_all_iff)
  then have "last (path_of segs) \<noteq> CHR ''/''" using l by metis
  moreover have "hd (path_of segs) = CHR ''/''" "path_of segs \<noteq> []" using assms(1) by (cases segs; simp)+
  ultimately show ?thesis by (simp add: cleanPath_def c)
qed

end
