(* ===== verification/ListOpts.thy ===== *)
theory ListOpts
  imports Domain
begin

text \<open>
  The list-query vocabulary of \<^verbatim>\<open>internal/store/list\<close>: the closed sort enum and its parser, the
  decoded pagination cursor, and the functional options that build a list configuration.
\<close>

section \<open>Sort keys\<close>

text \<open>
  Go's \<^verbatim>\<open>type Sort string\<close> with its six constants; \<open>SortRaw s\<close> is any string outside the enum,
  among them the zero value \<open>SortRaw []\<close>.
\<close>

datatype Sort = SortCreatedDesc | SortCreatedAsc | SortUpdatedDesc | SortUpdatedAsc
  | SortIDDesc | SortIDAsc | SortRaw string

fun sort_text :: "Sort \<Rightarrow> string" where
  "sort_text SortCreatedDesc = ''created_desc''"
| "sort_text SortCreatedAsc = ''created_asc''"
| "sort_text SortUpdatedDesc = ''updated_desc''"
| "sort_text SortUpdatedAsc = ''updated_asc''"
| "sort_text SortIDDesc = ''id_desc''"
| "sort_text SortIDAsc = ''id_asc''"
| "sort_text (SortRaw s) = s"

text \<open>The conversion \<^verbatim>\<open>Sort(s)\<close>.\<close>

definition sort_of :: "string \<Rightarrow> Sort" where
  "sort_of s =
     (if s = ''created_desc'' then SortCreatedDesc
      else if s = ''created_asc'' then SortCreatedAsc
      else if s = ''updated_desc'' then SortUpdatedDesc
      else if s = ''updated_asc'' then SortUpdatedAsc
      else if s = ''id_desc'' then SortIDDesc
      else if s = ''id_asc'' then SortIDAsc
      else SortRaw s)"

definition DefaultSort :: Sort where "DefaultSort = SortCreatedDesc"

fun SortValid :: "Sort \<Rightarrow> bool" where
  "SortValid (SortRaw s) = False"
| "SortValid _ = True"

definition ParseSort :: "string \<Rightarrow> Sort result" where
  "ParseSort s =
     (if s = [] then Inr DefaultSort
      else if SortValid (sort_of s) then Inr (sort_of s)
      else Inl (Errorf [Wrap (Sentinel ErrInvalidSort), Lit '': '', Quo s]))"

section \<open>Cursor and options\<close>

record Cursor =
  cur_sort :: Sort
  cur_value :: time
  cur_id :: DocumentID

record ListConfig =
  lc_sort :: Sort
  lc_types :: "string list"
  lc_limit :: int
  lc_cursor :: "Cursor option"

type_synonym ListOption = "ListConfig \<Rightarrow> ListConfig"

definition WithSort :: "Sort \<Rightarrow> ListOption" where
  "WithSort s c = c\<lparr>lc_sort := s\<rparr>"

definition WithTypes :: "string list \<Rightarrow> ListOption" where
  "WithTypes ids c = (if length ids = 0 then c else c\<lparr>lc_types := lc_types c @ ids\<rparr>)"

definition WithLimit :: "int \<Rightarrow> ListOption" where
  "WithLimit n c = c\<lparr>lc_limit := n\<rparr>"

definition WithCursor :: "Cursor option \<Rightarrow> ListOption" where
  "WithCursor cur c = c\<lparr>lc_cursor := cur\<rparr>"

definition zero_config :: ListConfig where
  "zero_config = \<lparr>lc_sort = SortRaw [], lc_types = [], lc_limit = 0, lc_cursor = None\<rparr>"

definition Apply :: "ListOption list \<Rightarrow> ListConfig" where
  "Apply opts =
     (let c = fold (\<lambda>opt c. opt c) opts zero_config
      in if lc_sort c = SortRaw [] then c\<lparr>lc_sort := DefaultSort\<rparr> else c)"

lemmas option_defs = WithSort_def WithTypes_def WithLimit_def WithCursor_def zero_config_def
  Apply_def DefaultSort_def

lemma sort_of_text [simp]: "SortValid s \<Longrightarrow> sort_of (sort_text s) = s"
  by (cases s) (simp_all add: sort_of_def)

lemma text_sort_of [simp]: "sort_text (sort_of s) = s"
  by (simp add: sort_of_def)

lemma sort_text_nonempty: "SortValid s \<Longrightarrow> sort_text s \<noteq> []"
  by (cases s) simp_all

text \<open>\<open>ParseSort\<close> accepts the empty string, as the default sort, and the text of each of
  the six sorts, as that sort, and rejects every other string with an error that
  \<^verbatim>\<open>errors.Is\<close> recognises as \<open>ErrInvalidSort\<close>.\<close>

theorem ParseSort_exact:
  "(ParseSort s = Inr k \<longleftrightarrow> s = [] \<and> k = DefaultSort \<or> SortValid k \<and> s = sort_text k)
   \<and> ((\<exists>e. ParseSort s = Inl e \<and> error_is e ErrInvalidSort) \<longleftrightarrow>
        s \<noteq> [] \<and> s \<notin> sort_text ` {k. SortValid k})"
proof (intro conjI)
  show "ParseSort s = Inr k \<longleftrightarrow> s = [] \<and> k = DefaultSort \<or> SortValid k \<and> s = sort_text k"
    by (auto simp: ParseSort_def dest: sort_text_nonempty)
  have "SortValid (sort_of s) \<longleftrightarrow> s \<in> sort_text ` {k. SortValid k}"
    by (auto simp: image_iff)
  then show "(\<exists>e. ParseSort s = Inl e \<and> error_is e ErrInvalidSort) \<longleftrightarrow>
        s \<noteq> [] \<and> s \<notin> sort_text ` {k. SortValid k}"
    by (auto simp: ParseSort_def)
qed

end
