(* ===== verification/Base64.thy ===== *)
theory Base64
  imports Prelude
begin

text \<open>
  \<^verbatim>\<open>base64.RawURLEncoding\<close>, the unpadded URL-safe alphabet the cursors are written in. As the
  Go decoder does, decoding skips carriage returns and line feeds, ignores the unused low bits of
  the last group, and rejects every other byte and a group of one character.
\<close>

definition b64_char :: "nat \<Rightarrow> char" where
  "b64_char n =
     (if n < 26 then char_of (65 + n) else if n < 52 then char_of (71 + n)
      else if n < 62 then char_of (n - 4) else if n = 62 then CHR ''-'' else CHR ''_'')"

definition b64_val :: "char \<Rightarrow> nat option" where
  "b64_val c =
     (if is_upper_char c then Some (of_char c - 65)
      else if is_lower_char c then Some (of_char c - 71)
      else if is_digit_char c then Some (of_char c + 4)
      else if c = CHR ''-'' then Some 62 else if c = CHR ''_'' then Some 63 else None)"

fun sextets :: "nat list \<Rightarrow> nat list" where
  "sextets (a # b # c # r) =
     a div 4 # (a mod 4 * 16 + b div 16) # (b mod 16 * 4 + c div 64) # c mod 64 # sextets r"
| "sextets [a, b] = [a div 4, a mod 4 * 16 + b div 16, b mod 16 * 4]"
| "sextets [a] = [a div 4, a mod 4 * 16]"
| "sextets [] = []"

fun octets :: "nat list \<Rightarrow> nat list option" where
  "octets (w # x # y # z # r) =
     map_option (\<lambda>bs. (w * 4 + x div 16) # (x mod 16 * 16 + y div 4) # (y mod 4 * 64 + z) # bs) (octets r)"
| "octets [w, x, y] = Some [w * 4 + x div 16, x mod 16 * 16 + y div 4]"
| "octets [w, x] = Some [w * 4 + x div 16]"
| "octets [w] = None"
| "octets [] = Some []"

definition EncodeToString :: "string \<Rightarrow> string" where
  "EncodeToString s = map b64_char (sextets (map of_char s))"

definition is_newline :: "char \<Rightarrow> bool" where
  "is_newline c = (c = CHR 0x0D \<or> c = CHR 0x0A)"

definition DecodeString :: "string \<Rightarrow> string option" where
  "DecodeString s =
     (case those (map b64_val (filter (\<lambda>c. \<not> is_newline c) s)) of None \<Rightarrow> None
      | Some vs \<Rightarrow> map_option (map char_of) (octets vs))"

lemma b64_val_char: "n < 64 \<Longrightarrow> b64_val (b64_char n) = Some n"
  by (auto simp: b64_val_def b64_char_def is_upper_char_def is_lower_char_def is_digit_char_def)

lemma b64_val_newline: "b64_val c = Some n \<Longrightarrow> \<not> is_newline c"
  by (auto simp: b64_val_def is_newline_def is_upper_char_def is_lower_char_def is_digit_char_def)

lemma those_vals: "list_all (\<lambda>n. n < 64) vs \<Longrightarrow>
    those (map b64_val (filter (\<lambda>c. \<not> is_newline c) (map b64_char vs))) = Some vs"
  by (induction vs) (auto simp: b64_val_char dest: b64_val_char [THEN b64_val_newline])

lemma sextet_bounds:
  "a < 256 \<Longrightarrow> a div 4 < (64::nat)" "b < 256 \<Longrightarrow> a mod 4 * 16 + b div 16 < (64::nat)"
  "c < 256 \<Longrightarrow> b mod 16 * 4 + c div 64 < (64::nat)"
  by linarith+

lemma sextets_bound: "list_all (\<lambda>n. n < 256) bs \<Longrightarrow> list_all (\<lambda>n. n < 64) (sextets bs)"
  by (induction bs rule: sextets.induct) (auto intro: sextet_bounds)

lemma octets_sextets: "list_all (\<lambda>n. n < 256) bs \<Longrightarrow> octets (sextets bs) = Some bs"
  by (induction bs rule: sextets.induct) auto

lemma decode_encode: "DecodeString (EncodeToString s) = Some s"
proof -
  let ?bs = "map of_char s :: nat list"
  have b: "list_all (\<lambda>n. n < 256) ?bs" by (simp add: list_all_iff)
  have "map char_of ?bs = s" by (induction s) simp_all
  then show ?thesis
    using those_vals [OF sextets_bound [OF b]] octets_sextets [OF b]
    by (simp add: DecodeString_def EncodeToString_def)
qed

lemma sextets_length: "length (sextets bs) = (length bs * 8 + 5) div 6"
  by (induction bs rule: sextets.induct) auto

text \<open>The length \<^verbatim>\<open>EncodedLen\<close>.\<close>

lemma encode_length: "length (EncodeToString s) = (length s * 8 + 5) div 6"
  by (simp add: EncodeToString_def sextets_length)

lemma encode_nonempty: "s \<noteq> [] \<Longrightarrow> EncodeToString s \<noteq> []"
  using encode_length [of s] by (cases s) auto

end
