(* ===== verification/GoTime.thy ===== *)
theory GoTime
  imports Prelude
begin

text \<open>
  The part of Go's \<^verbatim>\<open>time\<close> package that the cursor codec uses: the proleptic Gregorian calendar
  of an instant in UTC, \<^verbatim>\<open>Format(time.RFC3339Nano)\<close> of a UTC time, \<^verbatim>\<open>Parse(time.RFC3339Nano, s)\<close>,
  and the round trip between the last two.
\<close>

section \<open>Calendar\<close>

definition is_leap :: "int \<Rightarrow> bool" where
  "is_leap y = (y mod 4 = 0 \<and> (y mod 100 \<noteq> 0 \<or> y mod 400 = 0))"

definition days_in :: "bool \<Rightarrow> int \<Rightarrow> int" where
  "days_in lp m = (if m = 2 then (if lp then 29 else 28) else if m \<in> {4, 6, 9, 11} then 30 else 31)"

text \<open>Month and day of the zero-based day of a year.\<close>

fun month_day :: "bool \<Rightarrow> nat \<Rightarrow> int \<Rightarrow> int \<Rightarrow> int \<times> int" where
  "month_day lp 0 m yday = (m, yday + 1)"
| "month_day lp (Suc k) m yday =
     (if yday < days_in lp m then (m, yday + 1) else month_day lp k (m + 1) (yday - days_in lp m))"

text \<open>Year, month and day of the day number counted from January 1, year 1.\<close>

definition civil_year :: "int \<Rightarrow> int \<times> int" where
  "civil_year d =
     (let n400 = d div 146097; r400 = d mod 146097;
          n100 = min 3 (r400 div 36524); r100 = r400 - 36524 * n100;
          n4 = r100 div 1461; r4 = r100 mod 1461;
          n1 = min 3 (r4 div 365); yday = r4 - 365 * n1
      in (400 * n400 + 100 * n100 + 4 * n4 + n1 + 1, yday))"

definition civil :: "int \<Rightarrow> int \<times> int \<times> int" where
  "civil d = (case civil_year d of (y, yday) \<Rightarrow> (case month_day (is_leap y) 11 1 yday of (m, day) \<Rightarrow> (y, m, day)))"

definition days_before_year :: "int \<Rightarrow> int" where
  "days_before_year y = 365 * (y - 1) + (y - 1) div 4 - (y - 1) div 100 + (y - 1) div 400"

definition days_before_month :: "bool \<Rightarrow> int \<Rightarrow> int" where
  "days_before_month lp m = sum_list (map (days_in lp) [1..m - 1])"

definition day_number :: "int \<Rightarrow> int \<Rightarrow> int \<Rightarrow> int" where
  "day_number y m day = days_before_year y + days_before_month (is_leap y) m + day - 1"

text \<open>The cycle decomposition of a day number and what it says of the year.\<close>

lemma civil_year_bounds:
  assumes "civil_year d = (y, yday)"
  shows "d = days_before_year y + yday" and "0 \<le> yday" and "yday < (if is_leap y then 366 else 365)"
proof -
  define n400 where "n400 = d div 146097"
  define r400 where "r400 = d mod 146097"
  define n100 where "n100 = min 3 (r400 div 36524)"
  define r100 where "r100 = r400 - 36524 * n100"
  define n4 where "n4 = r100 div 1461"
  define r4 where "r4 = r100 mod 1461"
  define n1 where "n1 = min 3 (r4 div 365)"
  note defs = n400_def r400_def n100_def r100_def n4_def r4_def n1_def
  have "civil_year d = (400 * n400 + 100 * n100 + 4 * n4 + n1 + 1, r4 - 365 * n1)"
    unfolding civil_year_def Let_def defs by (rule refl)
  then have y: "y = 400 * n400 + 100 * n100 + 4 * n4 + n1 + 1" and yd: "yday = r4 - 365 * n1"
    using assms by (simp_all only: prod.inject)
  have r400: "0 \<le> r400" "r400 < 146097" "d = 146097 * n400 + r400"
    unfolding r400_def n400_def by auto
  have n100: "0 \<le> n100" "n100 \<le> 3" "0 \<le> r100" "n100 < 3 \<Longrightarrow> r100 < 36524" "r100 \<le> 36524"
    using r400 unfolding r100_def n100_def by (auto simp: min_def)
  have n4: "0 \<le> n4" "n4 \<le> 24" "0 \<le> r4" "r4 < 1461" "r100 = 1461 * n4 + r4"
    using n100 unfolding n4_def r4_def by auto
  have last4: "n4 = 24 \<Longrightarrow> n100 < 3 \<Longrightarrow> r4 < 1460" using n4(5) n100(4) by simp
  have n1: "0 \<le> n1" "n1 \<le> 3" "0 \<le> yday" "n1 < 3 \<Longrightarrow> yday < 365" "yday \<le> 365"
    using n4 unfolding yd n1_def by (auto simp: min_def)
  have div4: "(y - 1) div 4 = 100 * n400 + 25 * n100 + n4" and div100: "(y - 1) div 100 = 4 * n400 + n100"
    and div400: "(y - 1) div 400 = n400"
    using y n100 n4 n1 by auto
  show "d = days_before_year y + yday"
    unfolding days_before_year_def div4 div100 div400
    using r400(3) n4(5) r100_def by (simp add: y yd)
  show "0 \<le> yday" by (rule n1(3))
  show "yday < (if is_leap y then 366 else 365)"
  proof (cases "n1 < 3")
    case True
    then show ?thesis using n1(4) by simp
  next
    case False
    then have n1': "n1 = 3" using n1(2) by simp
    have y100: "y = (4 * n4 + 4) + (4 * n400 + n100) * 100" and y4: "y = (n4 + 1 + 100 * n400 + 25 * n100) * 4"
      using y n1' by simp_all
    have "\<not> is_leap y \<Longrightarrow> n4 = 24 \<and> n100 < 3"
    proof (rule ccontr)
      assume nl: "\<not> is_leap y" and "\<not> (n4 = 24 \<and> n100 < 3)"
      then consider "n4 < 24" | "n4 = 24" "n100 = 3" using n4(2) n100(2) by linarith
      then show False
      proof cases
        case 1
        then have "y mod 100 = 4 * n4 + 4" unfolding y100 mod_mult_self1 using n4(1) by simp
        then show ?thesis using nl n4(1) y4 by (simp add: is_leap_def)
      next
        case 2
        then have "y = (n400 + 1) * 400" using y100 by simp
        then have "y mod 400 = 0" by (metis mod_mult_self2_is_0)
        moreover have "y mod 4 = 0" using y4 by (metis mod_mult_self2_is_0)
        ultimately show ?thesis using nl by (simp add: is_leap_def)
      qed
    qed
    then have "\<not> is_leap y \<Longrightarrow> r4 < 1460" using last4 by blast
    then have "\<not> is_leap y \<Longrightarrow> yday < 365" unfolding yd n1' by simp
    then show ?thesis using n1(5) by simp
  qed
qed

text \<open>Months of a year: checked for the 366 days of a leap year and the 365 of another.\<close>

definition month_ok :: "bool \<Rightarrow> int \<Rightarrow> bool" where
  "month_ok lp yday = (case month_day lp 11 1 yday of (m, day) \<Rightarrow>
     1 \<le> m \<and> m \<le> 12 \<and> 1 \<le> day \<and> day \<le> days_in lp m \<and> days_before_month lp m + day - 1 = yday)"

lemma month_ok_all: "list_all (month_ok True) [0..365] \<and> list_all (month_ok False) [0..364]"
  by code_simp

lemma civil_correct:
  assumes "civil d = (y, m, day)"
  shows "day_number y m day = d \<and> 1 \<le> m \<and> m \<le> 12 \<and> 1 \<le> day \<and> day \<le> days_in (is_leap y) m"
proof -
  obtain yday where cy: "civil_year d = (y, yday)" and md: "month_day (is_leap y) 11 1 yday = (m, day)"
    using assms by (auto simp: civil_def split: prod.splits)
  note b = civil_year_bounds [OF cy]
  have "month_ok (is_leap y) yday"
  proof (cases "is_leap y")
    case True
    then have "yday \<in> set [0..365]" using b(2,3) by simp
    then show ?thesis using month_ok_all True by (simp add: list_all_iff)
  next
    case False
    then have "yday \<in> set [0..364]" using b(2,3) by simp
    then show ?thesis using month_ok_all False by (simp add: list_all_iff)
  qed
  then show ?thesis using b(1) by (auto simp: month_ok_def md day_number_def)
qed

section \<open>Format\<close>

fun pad_left :: "nat \<Rightarrow> string \<Rightarrow> string" where
  "pad_left w s = (if length s < w then replicate (w - length s) CHR ''0'' @ s else s)"

text \<open>\<^verbatim>\<open>appendInt(b, x, width)\<close>.\<close>

definition append_int :: "int \<Rightarrow> nat \<Rightarrow> string" where
  "append_int x w = (if x < 0 then ''-'' @ pad_left w (show_nat (nat (- x))) else pad_left w (show_nat (nat x)))"

text \<open>Nanoseconds with trailing zeros dropped, and no point when nothing is left.\<close>

definition frac :: "int \<Rightarrow> string" where
  "frac ns = (let ds = rev (dropWhile (\<lambda>c. c = CHR ''0'') (rev (append_int ns 9)))
     in if ds = [] then [] else CHR ''.'' # ds)"

definition FormatRFC3339Nano :: "time \<Rightarrow> string" where
  "FormatRFC3339Nano t =
     (let secs = t div 1000000000; ns = t mod 1000000000; sod = secs mod 86400
      in case civil (secs div 86400) of (y, m, day) \<Rightarrow>
           append_int y 4 @ ''-'' @ append_int m 2 @ ''-'' @ append_int day 2 @ ''T''
           @ append_int (sod div 3600) 2 @ '':'' @ append_int (sod mod 3600 div 60) 2 @ '':''
           @ append_int (sod mod 60) 2 @ frac ns @ ''Z'')"

section \<open>Parse\<close>

text \<open>\<^verbatim>\<open>getnum\<close>: one or two digits, exactly two when \<open>fixed\<close>.\<close>

fun getnum :: "bool \<Rightarrow> string \<Rightarrow> (int \<times> string) option" where
  "getnum fixed [] = None"
| "getnum fixed [a] = (if is_digit_char a \<and> \<not> fixed then Some (int (digit_val a), []) else None)"
| "getnum fixed (a # b # r) =
     (if \<not> is_digit_char a then None
      else if is_digit_char b then Some (int (digit_val a) * 10 + int (digit_val b), r)
      else if fixed then None else Some (int (digit_val a), b # r))"

fun getyear :: "string \<Rightarrow> (int \<times> string) option" where
  "getyear (a # b # c # d # r) =
     (if list_all is_digit_char [a, b, c, d] then Some (int (read_nat [a, b, c, d]), r) else None)"
| "getyear _ = None"

fun skip_char :: "char \<Rightarrow> string \<Rightarrow> string option" where
  "skip_char c (x # r) = (if x = c then Some r else None)"
| "skip_char c [] = None"

text \<open>The optional fraction: any number of digits, those after the ninth dropped.\<close>

definition getfrac :: "string \<Rightarrow> int \<times> string" where
  "getfrac s =
     (case s of
        p # d # r \<Rightarrow>
          if (p = CHR ''.'' \<or> p = CHR '','') \<and> is_digit_char d
          then let ds = takeWhile is_digit_char (d # r); ds9 = take 9 ds
               in (int (read_nat ds9) * 10 ^ (9 - length ds9), drop (length ds) (d # r))
          else (0, s)
      | _ \<Rightarrow> (0, s))"

text \<open>The zone: \<^verbatim>\<open>Z\<close> or a signed offset \<^verbatim>\<open>hh:mm\<close>, in seconds.\<close>

definition getzone :: "string \<Rightarrow> (int \<times> string) option" where
  "getzone s =
     (case s of
        [] \<Rightarrow> None
      | z # r \<Rightarrow>
          if z = CHR ''Z'' then Some (0, r)
          else if length s < 6 \<or> s ! 3 \<noteq> CHR '':'' then None
          else (case (getnum True (take 2 (drop 1 s)), getnum True (take 2 (drop 4 s))) of
                  (Some (hr, _), Some (mm, _)) \<Rightarrow>
                    if hr > 24 \<or> mm > 60 then None
                    else if z = CHR ''+'' then Some ((hr * 60 + mm) * 60, drop 6 s)
                    else if z = CHR ''-'' then Some (- ((hr * 60 + mm) * 60), drop 6 s)
                    else None
                | _ \<Rightarrow> None))"

definition instant :: "int \<Rightarrow> int \<Rightarrow> int \<Rightarrow> int \<Rightarrow> int \<Rightarrow> int \<Rightarrow> int \<Rightarrow> int \<Rightarrow> time" where
  "instant y mo d h mi s ns zone =
     ((day_number y mo d * 86400 + h * 3600 + mi * 60 + s - zone) * 1000000000 + ns)"

text \<open>\<^verbatim>\<open>time.Parse(time.RFC3339Nano, s)\<close>; \<open>None\<close> is any error.\<close>

definition ParseRFC3339Nano :: "string \<Rightarrow> time option" where
  "ParseRFC3339Nano s0 =
     Option.bind (getyear s0) (\<lambda>(y, s1).
     Option.bind (skip_char CHR ''-'' s1) (\<lambda>s2.
     Option.bind (getnum True s2) (\<lambda>(mo, s3).
     Option.bind (skip_char CHR ''-'' s3) (\<lambda>s4.
     Option.bind (getnum True s4) (\<lambda>(d, s5).
     Option.bind (skip_char CHR ''T'' s5) (\<lambda>s6.
     Option.bind (getnum False s6) (\<lambda>(h, s7).
     Option.bind (skip_char CHR '':'' s7) (\<lambda>s8.
     Option.bind (getnum True s8) (\<lambda>(mi, s9).
     Option.bind (skip_char CHR '':'' s9) (\<lambda>s10.
     Option.bind (getnum True s10) (\<lambda>(sec, s11).
     (case getfrac s11 of (ns, s12) \<Rightarrow>
     Option.bind (getzone s12) (\<lambda>(zone, s13).
       if s13 \<noteq> [] then None
       else if mo < 1 \<or> 12 < mo \<or> 24 \<le> h \<or> 60 \<le> mi \<or> 60 \<le> sec then None
       else if d < 1 \<or> d > days_in (is_leap y) mo then None
       else Some (instant y mo d h mi sec ns zone))))))))))))))"

section \<open>Round trip\<close>

lemma pad_left_length: "length s \<le> w \<Longrightarrow> length (pad_left w s) = w"
  by simp

lemma read_nat_Cons: "read_nat (c # s) = digit_val c * 10 ^ length s + read_nat s"
proof -
  have "foldl (\<lambda>a c. a * 10 + digit_val c) n s = n * 10 ^ length s + foldl (\<lambda>a c. a * 10 + digit_val c) 0 s" for n s
  proof (induction s arbitrary: n rule: rev_induct)
    case Nil
    then show ?case by simp
  next
    case (snoc x xs)
    have "foldl (\<lambda>a c. a * 10 + digit_val c) n (xs @ [x]) =
        (n * 10 ^ length xs + foldl (\<lambda>a c. a * 10 + digit_val c) 0 xs) * 10 + digit_val x"
      using snoc [of n] by simp
    then show ?case by (simp add: algebra_simps)
  qed
  from this [of "digit_val c" s] show ?thesis by (simp add: read_nat_def)
qed

lemma read_nat_Nil [simp]: "read_nat [] = 0"
  by (simp add: read_nat_def)

lemma read_nat_zeros: "read_nat (replicate n CHR ''0'' @ s) = read_nat s"
  by (induction n) (simp_all add: read_nat_Cons digit_val_def)

lemma read_pad: "read_nat (pad_left w (show_nat n)) = n"
  by (simp add: read_nat_zeros)

lemma pad_digits: "list_all is_digit_char (pad_left w (show_nat n))"
  using show_nat_digits [of n] by (auto simp: list_all_iff is_digit_char_def)

lemma show_nat_length: "n < 10 ^ w \<Longrightarrow> 0 < w \<Longrightarrow> length (show_nat n) \<le> w"
proof (induction n arbitrary: w rule: show_nat.induct)
  case (1 n)
  show ?case
  proof (cases "n < 10")
    case True
    then show ?thesis using 1(3) by (subst show_nat.simps) simp
  next
    case False
    then obtain v where w: "w = Suc v" "0 < v"
      using "1.prems" by (cases w) (auto intro: ccontr, cases "w - 1", auto)
    have "n div 10 < 10 ^ v" using "1.prems"(1) w by (simp add: less_mult_imp_div_less mult.commute)
    then have "length (show_nat (n div 10)) \<le> v" using 1(1) False w(2) by blast
    then show ?thesis using False w by (subst show_nat.simps) simp
  qed
qed

lemma getnum_two:
  assumes "0 \<le> n" and "n < 100"
  shows "getnum fixed (append_int n 2 @ r) = Some (n, r)"
proof -
  let ?s = "pad_left 2 (show_nat (nat n))"
  have "length ?s = 2" using show_nat_length [of "nat n" 2] assms by (intro pad_left_length) simp
  then obtain a b where ab: "?s = [a, b]"
    by (auto simp: length_Suc_conv numeral_eq_Suc simp del: pad_left.simps)
  have "is_digit_char a" "is_digit_char b" using pad_digits [of 2 "nat n"] unfolding ab by simp_all
  moreover have "int (read_nat [a, b]) = n" using read_pad [of 2 "nat n"] assms(1) unfolding ab by simp
  then have "int (digit_val a) * 10 + int (digit_val b) = n" by (simp add: read_nat_Cons)
  ultimately show ?thesis using assms(1) ab by (simp add: append_int_def del: pad_left.simps)
qed

lemma getyear_four:
  assumes "0 \<le> y" and "y \<le> 9999"
  shows "getyear (append_int y 4 @ r) = Some (y, r)"
proof -
  let ?s = "pad_left 4 (show_nat (nat y))"
  have "length ?s = 4" using show_nat_length [of "nat y" 4] assms by (intro pad_left_length) simp
  then obtain a b c d where s: "?s = [a, b, c, d]"
    by (auto simp: length_Suc_conv numeral_eq_Suc simp del: pad_left.simps)
  have "list_all is_digit_char [a, b, c, d]" using pad_digits [of 4 "nat y"] unfolding s .
  moreover have "int (read_nat [a, b, c, d]) = y" using read_pad [of 4 "nat y"] assms(1) unfolding s by simp
  ultimately show ?thesis using assms(1) s by (simp add: append_int_def del: pad_left.simps)
qed

lemma skip_char_same [simp]: "skip_char c (c # r) = Some r"
  by simp

lemma dropWhile_zeros: "\<exists>n. s = rev (dropWhile (\<lambda>c. c = CHR ''0'') (rev s)) @ replicate n CHR ''0''"
proof -
  let ?p = "\<lambda>c. c = CHR ''0''"
  have "rev s = takeWhile ?p (rev s) @ dropWhile ?p (rev s)" by simp
  then have "s = rev (dropWhile ?p (rev s)) @ rev (takeWhile ?p (rev s))"
    by (metis rev_append rev_rev_ident)
  moreover have "takeWhile ?p (rev s) = replicate (length (takeWhile ?p (rev s))) CHR ''0''"
    by (rule replicate_eqI [symmetric, THEN sym]) (auto dest: set_takeWhileD)
  ultimately show ?thesis by (metis rev_replicate)
qed

lemma read_nat_append_zeros: "read_nat (s @ replicate n CHR ''0'') = read_nat s * 10 ^ n"
proof (induction n arbitrary: s)
  case 0
  then show ?case by simp
next
  case (Suc n)
  have "s @ replicate (Suc n) CHR ''0'' = (s @ [CHR ''0'']) @ replicate n CHR ''0''" by simp
  then have "read_nat (s @ replicate (Suc n) CHR ''0'') = read_nat (s @ [CHR ''0'']) * 10 ^ n"
    using Suc by (simp only:)
  then show ?case by (simp add: read_nat_def digit_val_def)
qed

lemma getfrac_frac:
  assumes "0 \<le> ns" and "ns < 1000000000"
  shows "getfrac (frac ns @ CHR ''Z'' # r) = (ns, CHR ''Z'' # r)"
proof -
  let ?p = "\<lambda>c. c = CHR ''0''"
  let ?s = "pad_left 9 (show_nat (nat ns))"
  let ?ds = "rev (dropWhile ?p (rev ?s))"
  have len: "length ?s = 9" using show_nat_length [of "nat ns" 9] assms by (intro pad_left_length) simp
  have app: "append_int ns 9 = ?s" using assms(1) by (simp add: append_int_def del: pad_left.simps)
  obtain n where n: "?s = ?ds @ replicate n CHR ''0''" using dropWhile_zeros by blast
  have digits: "list_all is_digit_char ?ds"
    using pad_digits [of 9 "nat ns"] n by (metis list_all_append)
  have val: "read_nat ?ds * 10 ^ n = nat ns"
    using read_pad [of 9 "nat ns"] read_nat_append_zeros [of ?ds n] n by (simp del: pad_left.simps)
  have dl: "length ?ds + n = 9" using len n by (metis length_append length_replicate)
  show ?thesis
  proof (cases ?ds)
    case Nil
    have "nat ns = 0" using val unfolding Nil by (simp add: read_nat_def)
    then have "ns = 0" using assms(1) by simp
    then show ?thesis using Nil app by (simp add: frac_def getfrac_def del: pad_left.simps split: list.split)
  next
    case (Cons d ds)
    have "frac ns = CHR ''.'' # ?ds" using Cons by (simp add: frac_def app del: pad_left.simps)
    then have f: "frac ns @ CHR ''Z'' # r = CHR ''.'' # d # ds @ CHR ''Z'' # r" using Cons by simp
    have z: "\<not> is_digit_char CHR ''Z''" by (simp add: is_digit_char_def)
    have tw: "takeWhile is_digit_char (d # ds @ CHR ''Z'' # r) = d # ds"
      using digits Cons z by (simp add: list_all_iff takeWhile_append2)
    have t9: "take 9 (d # ds) = d # ds" using dl Cons by (intro take_all) simp
    have n': "9 - length (d # ds) = n" using dl Cons by simp
    have v: "int (read_nat (d # ds)) * 10 ^ n = ns"
      using val assms(1) Cons by (metis int_nat_eq of_nat_mult of_nat_numeral of_nat_power)
    show ?thesis
      unfolding f getfrac_def list.case
      using digits Cons tw t9 n' v by (simp add: Let_def del: take_Suc_Cons)
  qed
qed

lemma parse_format:
  assumes "civil (t div 1000000000 div 86400) = (y, m, day)" and "0 \<le> y" and "y \<le> 9999"
  shows "ParseRFC3339Nano (FormatRFC3339Nano t) = Some t"
proof -
  define secs where "secs = t div 1000000000"
  define ns where "ns = t mod 1000000000"
  define sod where "sod = secs mod 86400"
  have ns: "0 \<le> ns" "ns < 1000000000" and sod: "0 \<le> sod" "sod < 86400"
    by (simp_all add: ns_def sod_def)
  note c = civil_correct [OF assms(1)]
  have days: "day \<le> 31" using c by (simp add: days_in_def split: if_splits)
  have h: "0 \<le> sod div 3600" "sod div 3600 < 24" "0 \<le> sod mod 3600 div 60" "sod mod 3600 div 60 < 60"
    "0 \<le> sod mod 60" "sod mod 60 < 60"
    using sod by auto
  have f: "FormatRFC3339Nano t = append_int y 4 @ CHR ''-'' # append_int m 2 @ CHR ''-'' # append_int day 2
      @ CHR ''T'' # append_int (sod div 3600) 2 @ CHR '':'' # append_int (sod mod 3600 div 60) 2
      @ CHR '':'' # append_int (sod mod 60) 2 @ frac ns @ CHR ''Z'' # []"
    using assms(1) by (simp add: FormatRFC3339Nano_def Let_def secs_def [symmetric] ns_def [symmetric] sod_def [symmetric])
  have zone: "getzone (CHR ''Z'' # []) = Some (0, [])" by (simp add: getzone_def)
  have time: "sod div 3600 * 3600 + sod mod 3600 div 60 * 60 + sod mod 60 = sod"
  proof -
    have "sod mod 3600 div 60 * 60 + sod mod 3600 mod 60 = sod mod 3600" by simp
    moreover have "sod mod 3600 mod 60 = sod mod 60" by (rule mod_mod_cancel) simp
    ultimately show ?thesis using div_mult_mod_eq [of sod 3600] by linarith
  qed
  have "instant y m day (sod div 3600) (sod mod 3600 div 60) (sod mod 60) ns 0 = t"
  proof -
    have "day_number y m day * 86400 + sod = secs" using c by (simp add: sod_def secs_def)
    then have "day_number y m day * 86400 + sod div 3600 * 3600 + sod mod 3600 div 60 * 60 + sod mod 60 - 0 = secs"
      using time by (simp only: add.assoc diff_0_right)
    then show ?thesis unfolding instant_def by (simp only: ns_def secs_def div_mult_mod_eq)
  qed
  then have inst: "instant y m day (sod div 3600) (sod mod 3600 div 60) ss ns 0 = t" if "ss = sod mod 60" for ss
    using that by simp
  obtain ss where ss: "ss = sod mod 60" "0 \<le> ss" "ss < 60" using h(5,6) by blast
  show ?thesis
    unfolding f ParseRFC3339Nano_def ss(1) [symmetric]
    using c days h(1-4) ns assms(2,3) ss(2,3)
    by (simp add: getyear_four getnum_two getfrac_frac zone inst [OF ss(1)])
qed

end
