(* ===== verification/CursorCodec.thy ===== *)
theory CursorCodec
  imports ListOpts JsonText Base64 GoTime
begin

text \<open>
  The opaque pagination cursor of \<^verbatim>\<open>internal/server/cursor\<close>: URL-safe base64 over a JSON
  envelope, version 1 with the sort it was minted under, and the older envelope \<^verbatim>\<open>{t, i}\<close>
  that is still accepted. The texts of the errors of the standard decoders are a parameter,
  the record \<open>decoder_texts\<close>.
\<close>

record decoder_texts =
  base64_text :: "string \<Rightarrow> string"
  json_text :: "string \<Rightarrow> string"
  time_text :: "string \<Rightarrow> string"

definition no_texts :: decoder_texts where
  "no_texts = \<lparr>base64_text = (\<lambda>_. []), json_text = (\<lambda>_. []), time_text = (\<lambda>_. [])\<rparr>"

definition MaxLen :: nat where "MaxLen = 256"

record wireV1 =
  w_V :: int
  w_S :: string
  w_K0 :: string
  w_K1 :: string

record wireLegacy =
  w_T :: string
  w_I :: string

fun isTimeSort :: "Sort \<Rightarrow> bool" where
  "isTimeSort SortCreatedDesc = True"
| "isTimeSort SortCreatedAsc = True"
| "isTimeSort SortUpdatedDesc = True"
| "isTimeSort SortUpdatedAsc = True"
| "isTimeSort _ = False"

section \<open>Encode\<close>

text \<open>\<^verbatim>\<open>json.Marshal\<close> of a \<^verbatim>\<open>wireV1\<close>.\<close>

definition marshalV1 :: "wireV1 \<Rightarrow> string" where
  "marshalV1 w =
     CHR ''{'' # CHR 0x22 # CHR ''v'' # CHR 0x22 # CHR '':'' # Itoa (w_V w)
     @ CHR '','' # CHR 0x22 # CHR ''s'' # CHR 0x22 # CHR '':'' # json_quote (w_S w)
     @ CHR '','' # CHR 0x22 # CHR ''k'' # CHR 0x22 # CHR '':'' # CHR ''['' # json_quote (w_K0 w)
     @ CHR '','' # json_quote (w_K1 w) @ '']}''"

definition wire_of :: "Cursor \<Rightarrow> wireV1" where
  "wire_of c =
     (let sort = (if cur_sort c = SortRaw [] then DefaultSort else cur_sort c);
          sortValue = (if isTimeSort sort then FormatRFC3339Nano (cur_value c) else [])
      in \<lparr>w_V = 1, w_S = sort_text sort, w_K0 = sortValue, w_K1 = cur_id c\<rparr>)"

definition Encode :: "Cursor option \<Rightarrow> string" where
  "Encode c = (case c of None \<Rightarrow> [] | Some c \<Rightarrow> EncodeToString (marshalV1 (wire_of c)))"

section \<open>Decode\<close>

text \<open>
  A \<^verbatim>\<open>[2]string\<close>: the elements present are decoded over the old ones, those missing are
  cleared, those beyond the second are skipped.
\<close>

fun dec_pair :: "string \<times> string \<Rightarrow> json \<Rightarrow> (string \<times> string) option" where
  "dec_pair (a, b) (JArr []) = Some ([], [])"
| "dec_pair (a, b) (JArr [x]) = map_option (\<lambda>a'. (a', [])) (dec_string a x)"
| "dec_pair (a, b) (JArr (x # y # vs)) =
     Option.bind (dec_string a x) (\<lambda>a'. map_option (\<lambda>b'. (a', b')) (dec_string b y))"
| "dec_pair (a, b) JNull = Some (a, b)"
| "dec_pair _ _ = None"

definition probe_version :: "string \<Rightarrow> int option" where
  "probe_version raw =
     Option.bind (parse_json raw) (\<lambda>j. Option.bind (obj_members j) (int_field ''v''))"

definition unmarshalV1 :: "string \<Rightarrow> wireV1 option" where
  "unmarshalV1 raw =
     Option.bind (parse_json raw) (\<lambda>j. Option.bind (obj_members j) (\<lambda>ms.
       case (int_field ''v'' ms, str_field ''s'' ms, field dec_pair ''k'' ([], []) ms) of
         (Some v, Some s, Some (a, b)) \<Rightarrow> Some \<lparr>w_V = v, w_S = s, w_K0 = a, w_K1 = b\<rparr>
       | _ \<Rightarrow> None))"

definition unmarshalLegacy :: "string \<Rightarrow> wireLegacy option" where
  "unmarshalLegacy raw =
     Option.bind (parse_json raw) (\<lambda>j. Option.bind (obj_members j) (\<lambda>ms.
       case (str_field ''t'' ms, str_field ''i'' ms) of
         (Some t, Some i) \<Rightarrow> Some \<lparr>w_T = t, w_I = i\<rparr>
       | _ \<Rightarrow> None))"

abbreviation invalid :: "frag list \<Rightarrow> goerr" where
  "invalid fs \<equiv> Errorf (Wrap (Sentinel ErrInvalid) # fs)"

definition decodeV1 :: "decoder_texts \<Rightarrow> string \<Rightarrow> Cursor option result" where
  "decodeV1 X raw =
     (case unmarshalV1 raw of
        None \<Rightarrow> Inl (invalid [Lit '': json: '', Wrap (New (json_text X raw))])
      | Some w \<Rightarrow>
          let s = sort_of (w_S w); id = w_K1 w in
          if \<not> SortValid s then Inl (invalid [Lit '': unknown sort '', Quo (w_S w)])
          else if id = [] then Inl (invalid [Lit '': missing id''])
          else if isTimeSort s then
            (if w_K0 w = [] then Inl (invalid [Lit '': missing sort value for '', Lit (w_S w)])
             else (case ParseRFC3339Nano (w_K0 w) of
                     None \<Rightarrow> Inl (invalid [Lit '': time: '', Wrap (New (time_text X (w_K0 w)))])
                   | Some t \<Rightarrow> Inr (Some \<lparr>cur_sort = s, cur_value = t, cur_id = id\<rparr>)))
          else Inr (Some \<lparr>cur_sort = s, cur_value = 0, cur_id = id\<rparr>))"

definition decodeLegacy :: "decoder_texts \<Rightarrow> string \<Rightarrow> Cursor option result" where
  "decodeLegacy X raw =
     (case unmarshalLegacy raw of
        None \<Rightarrow> Inl (invalid [Lit '': json: '', Wrap (New (json_text X raw))])
      | Some w \<Rightarrow>
          if w_T w = [] \<or> w_I w = [] then Inl (invalid [Lit '': missing fields''])
          else (case ParseRFC3339Nano (w_T w) of
                  None \<Rightarrow> Inl (invalid [Lit '': time: '', Wrap (New (time_text X (w_T w)))])
                | Some t \<Rightarrow> Inr (Some \<lparr>cur_sort = SortCreatedDesc, cur_value = t, cur_id = w_I w\<rparr>)))"

definition Decode :: "decoder_texts \<Rightarrow> string \<Rightarrow> Cursor option result" where
  "Decode X s =
     (if s = [] then Inr None
      else if length s > MaxLen then Inl (invalid [Lit '': too long''])
      else (case DecodeString s of
              None \<Rightarrow> Inl (invalid [Lit '': base64: '', Wrap (New (base64_text X s))])
            | Some raw \<Rightarrow>
                (case probe_version raw of
                   None \<Rightarrow> Inl (invalid [Lit '': json: '', Wrap (New (json_text X raw))])
                 | Some v \<Rightarrow> if v = 1 then decodeV1 X raw else decodeLegacy X raw)))"

section \<open>Round trip\<close>

lemma skip_ws_same [simp]: "\<not> is_ws c \<Longrightarrow> skip_ws (c # r) = c # r"
  by simp

lemma not_ws [simp]: "\<not> is_ws CHR ''{''" "\<not> is_ws CHR ''}''" "\<not> is_ws CHR ''[''" "\<not> is_ws CHR '']''"
  "\<not> is_ws CHR '':''" "\<not> is_ws CHR '',''" "\<not> is_ws CHR 0x22" "\<not> is_ws CHR ''1''"
  by (simp_all add: is_ws_def)

lemma parse_letter:
  assumes "is_alpha_char c"
  shows "parse_str (c # CHR 0x22 # r) = Some ([c], r)"
proof -
  have c: "32 \<le> (of_char c :: nat)" "of_char c < (128::nat)" "c \<noteq> CHR 0x22" "c \<noteq> CHR 0x5C"
    using assms by (auto simp: is_alpha_char_def is_upper_char_def is_lower_char_def)
  then show ?thesis using rune_len_ascii [of c] by simp
qed

lemma parse_one: "parse_num (CHR ''1'' # CHR '','' # r) = Some (''1'', CHR '','' # r)"
  by (simp add: parse_num_def num_int_def num_frac_def num_exp_def is_digit_char_def Let_def)

lemma parse_one_value: "parse_value (Suc f) (CHR ''1'' # CHR '','' # r) = Some (JNum ''1'', CHR '','' # r)"
  by (simp add: parse_one)

lemma elems_last: "parse_value f s = Some (v, CHR '']'' # q) \<Longrightarrow> parse_elems (Suc f) s = Some ([v], q)"
  by simp

lemma elems_more:
  "parse_value f s = Some (v, CHR '','' # q) \<Longrightarrow> parse_elems f q = Some (vs, p) \<Longrightarrow> parse_elems (Suc f) s = Some (v # vs, p)"
  by simp

lemma members_last:
  "is_alpha_char c \<Longrightarrow> parse_value f s = Some (v, CHR ''}'' # q) \<Longrightarrow>
   parse_members (Suc f) (CHR 0x22 # c # CHR 0x22 # CHR '':'' # s) = Some ([([c], v)], q)"
  by (simp add: parse_letter del: parse_str.simps)

lemma members_more:
  "is_alpha_char c \<Longrightarrow> parse_value f s = Some (v, CHR '','' # q) \<Longrightarrow> parse_members f q = Some (ms, p) \<Longrightarrow>
   parse_members (Suc f) (CHR 0x22 # c # CHR 0x22 # CHR '':'' # s) = Some (([c], v) # ms, p)"
  by (simp add: parse_letter del: parse_str.simps)

lemma parse_array:
  "parse_elems f (json_quote a @ s) = Some (vs, r) \<Longrightarrow>
   parse_value (Suc f) (CHR ''['' # json_quote a @ s) = Some (JArr vs, r)"
  by (simp add: json_quote_def)

lemma parse_object:
  "parse_members f (CHR 0x22 # s) = Some (ms, r) \<Longrightarrow>
   parse_value (Suc f) (CHR ''{'' # CHR 0x22 # s) = Some (JObj ms, r)"
  by simp

text \<open>The envelope is parsed back member by member.\<close>

lemma parse_marshalV1:
  assumes "valid_utf8 s" and "valid_utf8 a" and "valid_utf8 b"
  shows "parse_json (marshalV1 \<lparr>w_V = 1, w_S = s, w_K0 = a, w_K1 = b\<rparr>) =
    Some (JObj [(''v'', JNum ''1''), (''s'', JStr s), (''k'', JArr [JStr a, JStr b])])"
proof -
  let ?w = "marshalV1 \<lparr>w_V = 1, w_S = s, w_K0 = a, w_K1 = b\<rparr>"
  have one: "Itoa 1 = ''1''" by code_simp
  have k: "is_alpha_char CHR ''v''" "is_alpha_char CHR ''s''" "is_alpha_char CHR ''k''"
    by (simp_all add: is_alpha_char_def is_lower_char_def)
  note q = assms [THEN parse_value_quote]
  define f where "f = 2 * length ?w"
  have "parse_elems (Suc (Suc (Suc f))) (json_quote a @ CHR '','' # json_quote b @ '']}'') = Some ([JStr a, JStr b], ''}'')"
    by (rule elems_more [OF q(2) elems_last [OF q(3)]])
  note k' = members_last [OF k(3) parse_array [OF this]]
  note ms = members_more [OF k(1) parse_one_value members_more [OF k(2) q(1) k']]
  have "parse_value (Suc (Suc (Suc (Suc (Suc (Suc (Suc (Suc f))))))))
      ?w = Some (JObj [(''v'', JNum ''1''), (''s'', JStr s), (''k'', JArr [JStr a, JStr b])], [])"
    unfolding marshalV1_def wireV1.simps one append_Cons append_Nil by (rule parse_object [OF ms])
  then show ?thesis
    by (subst parse_json_fuel [where f = "Suc (Suc (Suc (Suc (Suc (Suc (Suc (Suc f)))))))"]) (simp_all add: f_def)
qed

lemma digits_ascii: "list_all is_digit_char s \<Longrightarrow> is_ascii s"
  by (auto simp: list_all_iff is_ascii_def is_digit_char_def)

lemma append_int_ascii: "is_ascii (append_int x w)"
  using digits_ascii [OF pad_digits] by (simp add: append_int_def is_ascii_def del: pad_left.simps)

lemma format_ascii: "is_ascii (FormatRFC3339Nano t)"
proof -
  have "is_ascii (rev (dropWhile P (rev (append_int x w))))" for P x w
    using append_int_ascii [of x w] set_dropWhileD unfolding is_ascii_def list_all_iff set_rev by fastforce
  then have "is_ascii (frac ns)" for ns by (simp add: frac_def Let_def is_ascii_def)
  then show ?thesis
    using append_int_ascii
    by (simp add: FormatRFC3339Nano_def Let_def is_ascii_append is_ascii_def split: prod.split)
qed

lemma format_nonempty: "FormatRFC3339Nano t \<noteq> []"
  by (simp add: FormatRFC3339Nano_def Let_def split: prod.split)

lemma sort_text_ascii: "SortValid s \<Longrightarrow> is_ascii (sort_text s)"
  by (cases s) (simp_all add: is_ascii_def)

text \<open>The year of an instant, as \<^verbatim>\<open>Format\<close> prints it.\<close>

definition year_of :: "time \<Rightarrow> int" where
  "year_of t = fst (civil (t div 1000000000 div 86400))"

lemma parse_format_year:
  "0 \<le> year_of t \<Longrightarrow> year_of t \<le> 9999 \<Longrightarrow> ParseRFC3339Nano (FormatRFC3339Nano t) = Some t"
  using parse_format [of t "fst (civil (t div 1000000000 div 86400))"
      "fst (snd (civil (t div 1000000000 div 86400)))" "snd (snd (civil (t div 1000000000 div 86400)))"]
  by (simp add: year_of_def)

text \<open>The cursors a store mints, and the form Decode gives back: the zero sort read as the
  default, the sort value kept for the time sorts only.\<close>

definition encodable :: "Cursor \<Rightarrow> bool" where
  "encodable c =
     ((SortValid (cur_sort c) \<or> cur_sort c = SortRaw [])
      \<and> cur_id c \<noteq> [] \<and> valid_utf8 (cur_id c)
      \<and> 0 \<le> year_of (cur_value c) \<and> year_of (cur_value c) \<le> 9999)"

definition normal :: "Cursor \<Rightarrow> Cursor" where
  "normal c =
     (let s = (if cur_sort c = SortRaw [] then DefaultSort else cur_sort c)
      in \<lparr>cur_sort = s, cur_value = (if isTimeSort s then cur_value c else 0), cur_id = cur_id c\<rparr>)"

lemma names_distinct: "\<not> field_match ''v'' ''s''" "\<not> field_match ''v'' ''k''" "\<not> field_match ''s'' ''v''"
  "\<not> field_match ''s'' ''k''" "\<not> field_match ''k'' ''v''" "\<not> field_match ''k'' ''s''"
  by code_simp+

lemma Atoi_one: "Atoi ''1'' = Some 1"
  by code_simp

lemma wire_members:
  assumes "encodable c"
  shows "parse_json (marshalV1 (wire_of c)) =
    Some (JObj [(''v'', JNum ''1''), (''s'', JStr (w_S (wire_of c))), (''k'', JArr [JStr (w_K0 (wire_of c)), JStr (cur_id c)])])"
proof -
  have v: "valid_utf8 (w_S (wire_of c))" "valid_utf8 (w_K0 (wire_of c))" "valid_utf8 (cur_id c)"
    using assms sort_text_ascii format_ascii
    by (auto simp: encodable_def wire_of_def Let_def DefaultSort_def is_ascii_def [of "''created_desc''"] intro!: valid_utf8_ascii)
  have "wire_of c = \<lparr>w_V = 1, w_S = w_S (wire_of c), w_K0 = w_K0 (wire_of c), w_K1 = cur_id c\<rparr>"
    by (simp add: wire_of_def Let_def)
  then show ?thesis using parse_marshalV1 [OF v] by simp
qed

lemma probe_wire: "encodable c \<Longrightarrow> probe_version (marshalV1 (wire_of c)) = Some 1"
  by (simp add: probe_version_def wire_members names_distinct Atoi_one)

lemma unmarshal_wire: "encodable c \<Longrightarrow> unmarshalV1 (marshalV1 (wire_of c)) = Some (wire_of c)"
  by (simp add: unmarshalV1_def wire_members names_distinct Atoi_one) (simp add: wire_of_def Let_def)

lemma decodeV1_wire: "encodable c \<Longrightarrow> decodeV1 X (marshalV1 (wire_of c)) = Inr (Some (normal c))"
  unfolding decodeV1_def unmarshal_wire option.case
  by (auto simp: wire_of_def normal_def Let_def encodable_def DefaultSort_def format_nonempty parse_format_year
      sort_of_text [of SortCreatedDesc, simplified])

lemma decode_Encode:
  assumes "encodable c" and "length (Encode (Some c)) \<le> MaxLen"
  shows "Decode X (Encode (Some c)) = Inr (Some (normal c))"
proof -
  have "Encode (Some c) \<noteq> []"
    using encode_nonempty by (simp add: Encode_def marshalV1_def)
  then show ?thesis
    using assms by (simp add: Decode_def) (simp add: Encode_def decode_encode probe_wire decodeV1_wire)
qed

text \<open>C19: A cursor survives the trip through a client: for every cursor whose id is non-empty,
  valid UTF-8 and whose time has a four-digit year, when the token is within the 256-byte budget,
  \<open>Decode\<close> of \<open>Encode\<close> returns the cursor, with the zero sort read as the default sort and the
  sort value kept exactly for the time-based sorts.\<close>

theorem cursor_roundtrip:
  assumes "encodable c" and "length (Encode (Some c)) \<le> MaxLen"
  shows "Decode X (Encode (Some c)) = Inr (Some (normal c))"
  using assms by (rule decode_Encode)

definition sample_cursor :: Cursor where
  "sample_cursor = \<lparr>cur_sort = SortUpdatedAsc, cur_value = 63072000000000000, cur_id = ''RFC-0007''\<rparr>"

theorem cursor_roundtrip_witness:
  "encodable sample_cursor \<and> length (Encode (Some sample_cursor)) \<le> MaxLen
   \<and> Decode no_texts (Encode (Some sample_cursor)) = Inr (Some (normal sample_cursor))"
proof -
  have "encodable sample_cursor" by code_simp
  moreover have "length (marshalV1 (wire_of sample_cursor)) \<le> 192" by code_simp
  then have "length (Encode (Some sample_cursor)) \<le> MaxLen" by (simp add: Encode_def encode_length MaxLen_def)
  ultimately show ?thesis using cursor_roundtrip [of sample_cursor no_texts] by blast
qed

section \<open>What is accepted\<close>

lemma decode_valid:
  "Decode X s = Inr (Some c) \<Longrightarrow> SortValid (cur_sort c) \<and> cur_id c \<noteq> [] \<and> s \<noteq> [] \<and> length s \<le> MaxLen"
  by (auto simp: Decode_def decodeV1_def decodeLegacy_def Let_def split: option.splits if_splits)

text \<open>Whatever a client sends as a cursor, \<open>Decode\<close> either accepts it as a cursor with one of
  the six sorts and a non-empty id, or fails with an error that \<^verbatim>\<open>errors.Is\<close> recognises as
  \<open>ErrInvalid\<close>; the empty string alone is no cursor, and a token over 256 bytes is always
  rejected.\<close>

theorem decode_total:
  "(case Decode X s of
      Inl e \<Rightarrow> error_is e ErrInvalid \<and> s \<noteq> []
    | Inr None \<Rightarrow> s = []
    | Inr (Some c) \<Rightarrow> SortValid (cur_sort c) \<and> cur_id c \<noteq> [] \<and> s \<noteq> [] \<and> length s \<le> MaxLen)"
  by (auto simp: Decode_def decodeV1_def decodeLegacy_def Let_def split: option.splits)

text \<open>The older envelope, as it was written before the sort became part of the cursor.\<close>

definition marshalLegacy :: "wireLegacy \<Rightarrow> string" where
  "marshalLegacy w =
     CHR ''{'' # CHR 0x22 # CHR ''t'' # CHR 0x22 # CHR '':'' # json_quote (w_T w)
     @ CHR '','' # CHR 0x22 # CHR ''i'' # CHR 0x22 # CHR '':'' # json_quote (w_I w) @ ''}''"

lemma parse_marshalLegacy:
  assumes "valid_utf8 t" and "valid_utf8 i"
  shows "parse_json (marshalLegacy \<lparr>w_T = t, w_I = i\<rparr>) = Some (JObj [(''t'', JStr t), (''i'', JStr i)])"
proof -
  let ?w = "marshalLegacy \<lparr>w_T = t, w_I = i\<rparr>"
  have k: "is_alpha_char CHR ''t''" "is_alpha_char CHR ''i''"
    by (simp_all add: is_alpha_char_def is_lower_char_def)
  note q = assms [THEN parse_value_quote]
  define f where "f = 2 * length ?w"
  note ms = members_more [OF k(1) q(1) members_last [OF k(2) q(2)]]
  have "parse_value (Suc (Suc (Suc (Suc f)))) ?w = Some (JObj [(''t'', JStr t), (''i'', JStr i)], [])"
    unfolding marshalLegacy_def wireLegacy.simps append_Cons append_Nil by (rule parse_object [OF ms])
  then show ?thesis
    by (subst parse_json_fuel [where f = "Suc (Suc (Suc (Suc f)))"]) (simp_all add: f_def)
qed

lemma legacy_names: "\<not> field_match ''v'' ''t''" "\<not> field_match ''v'' ''i''" "\<not> field_match ''t'' ''i''"
  "\<not> field_match ''i'' ''t''"
  by code_simp+

text \<open>A cursor minted in the older envelope stays honored: within the 256-byte budget it decodes
  to the same time and id under the creation-time descending sort.\<close>

theorem legacy_cursor_honored:
  assumes "i \<noteq> []" and "valid_utf8 i" and "0 \<le> year_of t" and "year_of t \<le> 9999"
    and "length (EncodeToString (marshalLegacy \<lparr>w_T = FormatRFC3339Nano t, w_I = i\<rparr>)) \<le> MaxLen"
  shows "Decode X (EncodeToString (marshalLegacy \<lparr>w_T = FormatRFC3339Nano t, w_I = i\<rparr>)) =
    Inr (Some \<lparr>cur_sort = SortCreatedDesc, cur_value = t, cur_id = i\<rparr>)"
proof -
  let ?w = "marshalLegacy \<lparr>w_T = FormatRFC3339Nano t, w_I = i\<rparr>"
  note p = parse_marshalLegacy [OF valid_utf8_ascii [OF format_ascii] assms(2), of t]
  have "EncodeToString ?w \<noteq> []" using encode_nonempty by (simp add: marshalLegacy_def)
  moreover have "probe_version ?w = Some 0" by (simp add: probe_version_def p legacy_names)
  moreover have "unmarshalLegacy ?w = Some \<lparr>w_T = FormatRFC3339Nano t, w_I = i\<rparr>"
    by (simp add: unmarshalLegacy_def p legacy_names)
  ultimately show ?thesis
    using assms by (simp add: Decode_def decode_encode decodeLegacy_def format_nonempty parse_format_year)
qed

theorem legacy_cursor_honored_witness:
  "Decode no_texts (EncodeToString (marshalLegacy \<lparr>w_T = FormatRFC3339Nano 63072000000000000, w_I = ''ADR-0001''\<rparr>)) =
    Inr (Some \<lparr>cur_sort = SortCreatedDesc, cur_value = 63072000000000000, cur_id = ''ADR-0001''\<rparr>)"
proof (rule legacy_cursor_honored)
  show "''ADR-0001'' \<noteq> []" by simp
  show "valid_utf8 ''ADR-0001''" by code_simp
  show "0 \<le> year_of 63072000000000000" by code_simp
  show "year_of 63072000000000000 \<le> 9999" by code_simp
  show "length (EncodeToString (marshalLegacy \<lparr>w_T = FormatRFC3339Nano 63072000000000000, w_I = ''ADR-0001''\<rparr>)) \<le> MaxLen"
  proof -
    have "length (marshalLegacy \<lparr>w_T = FormatRFC3339Nano 63072000000000000, w_I = ''ADR-0001''\<rparr>) \<le> 192"
      by code_simp
    then show ?thesis by (simp add: encode_length MaxLen_def)
  qed
qed

end
