(* ===== verification/Store.thy ===== *)
theory Store
  imports ListOpts Keyset
begin

text \<open>
  The persistence seam of \<^verbatim>\<open>internal/store/docs.go\<close>: the page and revision types, the abstract
  specification of \<^verbatim>\<open>Docs.List\<close> that both backends implement (filter, order, seek past the
  cursor, cut to the limit), and the contract of a document store as the locale \<open>docs_store\<close>.

  The order of the document ids is a parameter: the in-memory store compares ids bytewise,
  Postgres with the collation of the column. The locale \<open>id_order\<close> says what is asked of it,
  and gives every sort key the pagination laws of \<open>keyset\<close>.
\<close>

section \<open>Types\<close>

record Page =
  pg_items :: "Document list"
  pg_next :: "Cursor option"
  pg_total :: int

record Revision =
  rv_commit :: string
  rv_message :: string
  rv_author :: Author
  rv_created :: time
  rv_id :: DocumentID

section \<open>Abstract specification of List\<close>

type_synonym id_lt = "DocumentID \<Rightarrow> DocumentID \<Rightarrow> bool"

text \<open>The order a sort key stands for, with the id as tiebreaker.\<close>

fun doc_less :: "id_lt \<Rightarrow> Sort \<Rightarrow> Document \<Rightarrow> Document \<Rightarrow> bool" where
  "doc_less ilt SortCreatedAsc a b =
     (d_created a < d_created b \<or> d_created a = d_created b \<and> ilt (d_id a) (d_id b))"
| "doc_less ilt SortUpdatedDesc a b =
     (d_updated b < d_updated a \<or> d_updated a = d_updated b \<and> ilt (d_id a) (d_id b))"
| "doc_less ilt SortUpdatedAsc a b =
     (d_updated a < d_updated b \<or> d_updated a = d_updated b \<and> ilt (d_id a) (d_id b))"
| "doc_less ilt SortIDDesc a b = ilt (d_id b) (d_id a)"
| "doc_less ilt SortIDAsc a b = ilt (d_id a) (d_id b)"
| "doc_less ilt _ a b =
     (d_created b < d_created a \<or> d_created a = d_created b \<and> ilt (d_id a) (d_id b))"

text \<open>The rows that come after a cursor.\<close>

fun doc_after :: "id_lt \<Rightarrow> Sort \<Rightarrow> Document \<Rightarrow> Cursor \<Rightarrow> bool" where
  "doc_after ilt SortCreatedAsc r c =
     (cur_value c < d_created r \<or> d_created r = cur_value c \<and> ilt (cur_id c) (d_id r))"
| "doc_after ilt SortUpdatedDesc r c =
     (d_updated r < cur_value c \<or> d_updated r = cur_value c \<and> ilt (cur_id c) (d_id r))"
| "doc_after ilt SortUpdatedAsc r c =
     (cur_value c < d_updated r \<or> d_updated r = cur_value c \<and> ilt (cur_id c) (d_id r))"
| "doc_after ilt SortIDDesc r c = ilt (d_id r) (cur_id c)"
| "doc_after ilt SortIDAsc r c = ilt (cur_id c) (d_id r)"
| "doc_after ilt _ r c =
     (d_created r < cur_value c \<or> d_created r = cur_value c \<and> ilt (cur_id c) (d_id r))"

text \<open>
  The cursor of a row, \<^verbatim>\<open>nextCursor\<close> of both stores. A sort outside the enum leaves the sort
  value zero, as in the sources.
\<close>

fun nextCursor :: "Sort \<Rightarrow> Document \<Rightarrow> Cursor" where
  "nextCursor SortCreatedDesc d = \<lparr>cur_sort = SortCreatedDesc, cur_value = d_created d, cur_id = d_id d\<rparr>"
| "nextCursor SortCreatedAsc d = \<lparr>cur_sort = SortCreatedAsc, cur_value = d_created d, cur_id = d_id d\<rparr>"
| "nextCursor SortUpdatedDesc d = \<lparr>cur_sort = SortUpdatedDesc, cur_value = d_updated d, cur_id = d_id d\<rparr>"
| "nextCursor SortUpdatedAsc d = \<lparr>cur_sort = SortUpdatedAsc, cur_value = d_updated d, cur_id = d_id d\<rparr>"
| "nextCursor s d = \<lparr>cur_sort = s, cur_value = 0, cur_id = d_id d\<rparr>"

definition type_match :: "string list \<Rightarrow> Document \<Rightarrow> bool" where
  "type_match tys d = (tys = [] \<or> d_type d \<in> set tys)"

text \<open>The rows of a listing: those of the wanted types, in the order of the sort key.\<close>

definition listing :: "id_lt \<Rightarrow> Document list \<Rightarrow> string list \<Rightarrow> Sort \<Rightarrow> Document list" where
  "listing ilt docs tys s = sort_slice (doc_less ilt s) (filter (type_match tys) docs)"

definition after_cursor :: "id_lt \<Rightarrow> Sort \<Rightarrow> Cursor option \<Rightarrow> Document list \<Rightarrow> Document list" where
  "after_cursor ilt s c rows = (case c of None \<Rightarrow> rows | Some k \<Rightarrow> filter (\<lambda>r. doc_after ilt s r k) rows)"

definition spec_page :: "id_lt \<Rightarrow> Document list \<Rightarrow> ListConfig \<Rightarrow> Page" where
  "spec_page ilt docs cfg =
     (case page_of (nextCursor (lc_sort cfg)) (nat (lc_limit cfg))
             (after_cursor ilt (lc_sort cfg) (lc_cursor cfg)
                (listing ilt docs (lc_types cfg) (lc_sort cfg)))
      of (items, nx) \<Rightarrow> \<lparr>pg_items = items, pg_next = nx,
            pg_total = int (length (filter (type_match (lc_types cfg)) docs))\<rparr>)"

section \<open>Orders on ids\<close>

locale id_order =
  fixes ilt :: id_lt
  assumes ilt_irrefl: "\<not> ilt i i"
    and ilt_trans: "ilt i j \<Longrightarrow> ilt j k \<Longrightarrow> ilt i k"
    and ilt_total: "i \<noteq> j \<Longrightarrow> ilt i j \<or> ilt j i"
begin

lemma keyset_doc:
  assumes "SortValid s"
  shows "keyset (doc_less ilt s) (doc_after ilt s) (nextCursor s)"
proof
  fix a b d :: Document and c :: Cursor
  show "\<not> doc_less ilt s a a"
    by (cases s) (auto simp: ilt_irrefl)
  show "doc_less ilt s a b \<Longrightarrow> doc_less ilt s b d \<Longrightarrow> doc_less ilt s a d"
    by (cases s) (auto dest: ilt_trans)
  show "doc_after ilt s b (nextCursor s a) \<longleftrightarrow> doc_less ilt s a b"
    using assms by (cases s) auto
  show "doc_after ilt s a c \<Longrightarrow> doc_less ilt s a b \<Longrightarrow> doc_after ilt s b c"
    by (cases s) (auto dest: ilt_trans)
qed

lemma doc_less_total: "d_id a \<noteq> d_id b \<Longrightarrow> doc_less ilt s a b \<or> doc_less ilt s b a"
  using ilt_total [of "d_id a" "d_id b"] by (cases s) auto

lemma ids_total:
  assumes "distinct (map d_id docs)"
  shows "\<forall>a \<in> set docs. \<forall>b \<in> set docs. a \<noteq> b \<longrightarrow> doc_less ilt s a b \<or> doc_less ilt s b a"
  using assms doc_less_total by (metis distinct_map inj_onD)

lemma distinct_filter_ids: "distinct (map d_id docs) \<Longrightarrow> distinct (map d_id (filter P docs))"
  by (induction docs) auto

lemma listing_sorted:
  assumes "SortValid s" and "distinct (map d_id docs)"
  shows "sorted_wrt (doc_less ilt s) (listing ilt docs tys s)"
  unfolding listing_def
  using keyset.sort_slice_sorted [OF keyset_doc [OF assms(1)]] distinct_filter_ids [OF assms(2)]
    ids_total by (metis distinct_map)

lemma listing_set [simp]: "set (listing ilt docs tys s) = {d \<in> set docs. type_match tys d}"
  by (auto simp: listing_def)

lemma listing_unique:
  assumes "SortValid s" and "distinct (map d_id docs)"
    and "sorted_wrt (doc_less ilt s) rows" and "set rows = {d \<in> set docs. type_match tys d}"
  shows "rows = listing ilt docs tys s"
  using keyset.sorted_unique [OF keyset_doc [OF assms(1)] assms(3) listing_sorted [OF assms(1,2)]]
    assms(4) by simp

text \<open>Seeking in a sorted listing, in the form the pagination lemmas use.\<close>

lemma after_cursor_seek:
  "SortValid s \<Longrightarrow> after_cursor ilt s c rows = keyset.seek (doc_after ilt s) rows c"
  by (simp add: after_cursor_def keyset.seek_def [OF keyset_doc] split: option.splits)

end

text \<open>Byte order on ids, the order of Go's \<open><\<close> on strings.\<close>

interpretation bytewise: id_order "(<) :: DocumentID \<Rightarrow> DocumentID \<Rightarrow> bool"
  by unfold_locales auto

text \<open>The default sort, newest first, with its cursors.\<close>

interpretation newest: keyset "doc_less (<) SortCreatedDesc" "doc_after (<) SortCreatedDesc" "nextCursor SortCreatedDesc"
  by (rule bytewise.keyset_doc) simp

section \<open>The contract of a document store\<close>

text \<open>
  \<open>contents\<close> is the set of documents a store state holds, \<open>lst\<close> its \<^verbatim>\<open>List\<close>. A backend may
  fail; when it answers, the answer is the page of the specification, and a limit that is not
  positive is always refused. A backend may ask for cursors it can represent (\<open>cok\<close>); those it
  hands out are such cursors.
\<close>

locale docs_store = id_order ilt
  for ilt :: id_lt +
  fixes contents :: "'s \<Rightarrow> Document list"
    and lst :: "'s \<Rightarrow> ListOption list \<Rightarrow> Page result"
    and inv :: "'s \<Rightarrow> bool"
    and cok :: "Cursor option \<Rightarrow> bool"
  assumes ids: "inv st \<Longrightarrow> distinct (map d_id (contents st))"
    and bad_limit: "lc_limit (Apply opts) \<le> 0 \<Longrightarrow>
      \<exists>e. lst st opts = Inl e \<and> error_is e ErrInvalidInput"
    and page: "inv st \<Longrightarrow> SortValid (lc_sort (Apply opts)) \<Longrightarrow> cok (lc_cursor (Apply opts)) \<Longrightarrow>
      lst st opts = Inr p \<Longrightarrow> p = spec_page ilt (contents st) (Apply opts)"
    and cok_None: "cok None"
    and cok_next: "inv st \<Longrightarrow> d \<in> set (contents st) \<Longrightarrow> cok (Some (nextCursor s d))"
begin

lemma page_bounded:
  assumes "inv st" "SortValid (lc_sort (Apply opts))" "cok (lc_cursor (Apply opts))" "lst st opts = Inr p"
  shows "int (length (pg_items p)) \<le> lc_limit (Apply opts)"
proof -
  have "0 < lc_limit (Apply opts)"
    using bad_limit [of opts st] assms(4) by fastforce
  then show ?thesis
    using page [OF assms] by (auto simp: spec_page_def page_of_def)
qed

lemma page_items:
  assumes "inv st" "SortValid (lc_sort (Apply opts))" "cok (lc_cursor (Apply opts))" "lst st opts = Inr p"
  shows "sorted_wrt (doc_less ilt (lc_sort (Apply opts))) (pg_items p)
    \<and> set (pg_items p) \<subseteq> {d \<in> set (contents st). type_match (lc_types (Apply opts)) d}"
proof -
  let ?s = "lc_sort (Apply opts)"
  let ?all = "listing ilt (contents st) (lc_types (Apply opts)) ?s"
  let ?rows = "after_cursor ilt ?s (lc_cursor (Apply opts)) ?all"
  have "sorted_wrt (doc_less ilt ?s) ?all"
    using listing_sorted assms ids by blast
  then have "sorted_wrt (doc_less ilt ?s) ?rows"
    by (auto simp: after_cursor_def sorted_wrt_filter split: option.split)
  moreover have "set ?rows \<subseteq> set ?all"
    by (auto simp: after_cursor_def split: option.splits)
  moreover obtain n where "pg_items p = take n ?rows"
    using page [OF assms] by (auto simp: spec_page_def page_of_def split: if_splits) (metis take_all_iff order_refl)
  ultimately show ?thesis
    by (auto simp: sorted_wrt_take dest!: in_set_takeD)
qed

text \<open>
  The store as a client sees it when it lists with fixed types, sort and limit and a cursor
  that varies.
\<close>

definition list_opts :: "string list \<Rightarrow> Sort \<Rightarrow> int \<Rightarrow> Cursor option \<Rightarrow> ListOption list" where
  "list_opts tys s n c = [WithLimit n, WithCursor c, WithTypes tys, WithSort s]"

definition ask :: "string list \<Rightarrow> Sort \<Rightarrow> int \<Rightarrow> 's \<Rightarrow> Cursor option \<Rightarrow> Document list \<times> Cursor option" where
  "ask tys s n st c = (case lst st (list_opts tys s n c) of
      Inr p \<Rightarrow> (pg_items p, pg_next p) | Inl e \<Rightarrow> ([], None))"

lemma Apply_list_opts [simp]:
  "SortValid s \<Longrightarrow> Apply (list_opts tys s n c) =
     \<lparr>lc_sort = s, lc_types = tys, lc_limit = n, lc_cursor = c\<rparr>"
  by (cases s) (auto simp: list_opts_def option_defs)

lemma ask_page_of:
  assumes "inv st" and "SortValid s" and "\<exists>p. lst st (list_opts tys s n c) = Inr p" and "cok c"
  shows "ask tys s n st c = page_of (nextCursor s) (nat n)
       (keyset.seek (doc_after ilt s) (listing ilt (contents st) tys s) c)"
proof -
  obtain p where p: "lst st (list_opts tys s n c) = Inr p" using assms(3) by blast
  moreover have "p = spec_page ilt (contents st) (Apply (list_opts tys s n c))"
    using page [OF assms(1) _ _ p] assms(2,4) by simp
  ultimately show ?thesis
    using assms(2) by (simp add: ask_def spec_page_def after_cursor_seek split: prod.split)
qed

lemma page_of_cok:
  assumes "inv st" and "SortValid s" and "0 < n"
  shows "cok (snd (page_of (nextCursor s) (nat n)
       (keyset.seek (doc_after ilt s) (listing ilt (contents st) tys s) c)))"
proof -
  let ?rows = "keyset.seek (doc_after ilt s) (listing ilt (contents st) tys s) c"
  have "set ?rows \<subseteq> set (contents st)"
    by (auto simp: keyset.seek_def [OF keyset_doc [OF assms(2)]] split: option.splits)
  moreover have "nat n < length ?rows \<Longrightarrow> ?rows ! (nat n - 1) \<in> set ?rows"
    using assms(3) by (intro nth_mem) linarith
  ultimately have "nat n < length ?rows \<Longrightarrow> cok (Some (nextCursor s (?rows ! (nat n - 1))))"
    using cok_next [OF assms(1)] by blast
  then show ?thesis using cok_None by (simp add: page_of_def)
qed

lemma follow_ask:
  assumes "\<forall>st \<in> set sts. inv st \<and> (\<forall>c. \<exists>p. lst st (list_opts tys s n c) = Inr p)"
    and "SortValid s" and "0 < n"
  shows "follow (map (ask tys s n) sts) None =
    follow (map (\<lambda>rows c. page_of (nextCursor s) (nat n) (keyset.seek (doc_after ilt s) rows c))
      (map (\<lambda>st. listing ilt (contents st) tys s) sts)) None"
  by (rule follow_cong [where ok = cok])
    (use assms in \<open>auto simp: cok_None ask_page_of page_of_cok\<close>)

lemma list_all_pages:
  assumes "inv st" and "\<forall>c. \<exists>p. lst st (list_opts tys s n c) = Inr p" and "SortValid s"
    and "0 < n" and "length (listing ilt (contents st) tys s) < m"
  shows "follow (replicate m (ask tys s n st)) None = (listing ilt (contents st) tys s, True)"
  using keyset.follow_all [OF keyset_doc [OF assms(3)] listing_sorted [OF assms(3) ids [OF assms(1)]],
      where limit = "nat n" and n = m] assms follow_ask [of "replicate m st" tys s n]
  by simp

lemma list_changing:
  assumes "\<forall>st \<in> set sts. inv st \<and> (\<forall>c. \<exists>p. lst st (list_opts tys s n c) = Inr p)"
    and "SortValid s" and "0 < n" and res: "follow (map (ask tys s n) sts) None = (items, fin)"
  shows "sorted_wrt (doc_less ilt s) items
    \<and> (\<forall>d \<in> set items. type_match tys d \<and> (\<exists>st \<in> set sts. d \<in> set (contents st)))
    \<and> (fin \<longrightarrow> (\<forall>d. type_match tys d \<and> (\<forall>st \<in> set sts. d \<in> set (contents st)) \<longrightarrow> d \<in> set items))"
proof -
  note ks = keyset_doc [OF assms(2)]
  let ?snaps = "map (\<lambda>st. listing ilt (contents st) tys s) sts"
  have sorted: "\<forall>rows \<in> set ?snaps. sorted_wrt (doc_less ilt s) rows"
    using listing_sorted [OF assms(2)] ids assms(1) by auto
  have n: "0 < nat n" using assms(3) by simp
  have eq: "follow (map (\<lambda>rows c. page_of (nextCursor s) (nat n)
      (keyset.seek (doc_after ilt s) rows c)) ?snaps) None = (items, fin)"
    using res unfolding follow_ask [OF assms(1-3)] .
  have "sorted_wrt (doc_less ilt s) items"
    using keyset.follow_sorted [OF ks sorted n, of None] unfolding eq by simp
  moreover have "\<forall>d \<in> set items. type_match tys d \<and> (\<exists>st \<in> set sts. d \<in> set (contents st))"
    using keyset.follow_sound [OF ks, of _ "nat n" ?snaps None] unfolding eq by fastforce
  moreover have "d \<in> set items" if fin "type_match tys d" "\<forall>st \<in> set sts. d \<in> set (contents st)" for d
    using keyset.follow_complete [OF ks sorted n, of None d] that unfolding eq by simp
  ultimately show ?thesis by blast
qed

end

end
