(* ===== verification/MemStore.thy ===== *)
theory MemStore
  imports Store
begin

text \<open>
  The in-memory document store, \<^verbatim>\<open>internal/store/memory/memory.go\<close>: the record of its three
  fields, every method, the invariant that \<open>Add\<close> and \<open>LoadDir\<close> establish, and the
  refinement of \<^verbatim>\<open>List\<close> to the specification of the persistence seam.

  A Go map is an association list in insertion order. Go ranges over a map in an unspecified
  order: for \<open>sortIndex\<close> the order does not matter because the result is sorted by a total
  order, and the statements about \<open>mem_Links\<close> are about the multiset of links.
\<close>

section \<open>State and writes\<close>

record MemStore =
  m_byID :: "(DocumentID \<times> Document) list"
  m_ordered :: "Document list"
  m_links :: "(DocumentID \<times> Link list) list"

definition mem_New :: MemStore where
  "mem_New = \<lparr>m_byID = [], m_ordered = [], m_links = []\<rparr>"

definition mem_add :: "MemStore \<Rightarrow> Document \<Rightarrow> MemStore result" where
  "mem_add s doc =
     (if d_id doc = [] then Inl (New ''document id is required'')
      else if map_of (m_byID s) (d_id doc) \<noteq> None
      then Inl (Errorf [Lit ''duplicate document id '', Quo (d_id doc)])
      else Inr (s\<lparr>m_byID := m_byID s @ [(d_id doc, doc)],
                  m_links := m_links s @ [(d_id doc, d_links doc)]\<rparr>))"

definition ordered_less :: "Document \<Rightarrow> Document \<Rightarrow> bool" where
  "ordered_less a b =
     (if d_created a \<noteq> d_created b then d_created a > d_created b else d_id a < d_id b)"

definition sortIndex :: "MemStore \<Rightarrow> MemStore" where
  "sortIndex s = s\<lparr>m_ordered := sort_slice ordered_less (map snd (m_byID s))\<rparr>"

definition mem_Add :: "MemStore \<Rightarrow> Document \<Rightarrow> MemStore result" where
  "mem_Add s doc = (case mem_add s doc of Inl e \<Rightarrow> Inl e | Inr s' \<Rightarrow> Inr (sortIndex s'))"

text \<open>
  \<^verbatim>\<open>fs.FS\<close>: reading a directory gives the entries, each with its name and whether it is a
  directory; reading a file gives its bytes. \<^verbatim>\<open>json.Unmarshal\<close> into a document is an argument.
\<close>

record DirFS =
  ReadDir :: "string \<Rightarrow> (string \<times> bool) list result"
  ReadFile :: "string \<Rightarrow> string result"

text \<open>\<^verbatim>\<open>filepath.Join(dir, name)\<close> for a clean directory path and an entry name.\<close>

definition path_join :: "string \<Rightarrow> string \<Rightarrow> string" where
  "path_join dir name = (if dir = [] \<or> dir = ''.'' then name else dir @ ''/'' @ name)"

fun load_entries :: "DirFS \<Rightarrow> (string \<Rightarrow> Document result) \<Rightarrow> string \<Rightarrow> (string \<times> bool) list
    \<Rightarrow> MemStore \<Rightarrow> MemStore result" where
  "load_entries fsys unmarshal dir [] s = Inr s"
| "load_entries fsys unmarshal dir ((name, isDir) # es) s =
     (if isDir \<or> \<not> HasSuffix name ''.json'' then load_entries fsys unmarshal dir es s
      else let path = path_join dir name in
        (case ReadFile fsys path of
           Inl e \<Rightarrow> Inl (Errorf [Lit ''read '', Quo path, Lit '': '', Wrap e])
         | Inr data \<Rightarrow>
             (case unmarshal data of
                Inl e \<Rightarrow> Inl (Errorf [Lit ''parse '', Quo path, Lit '': '', Wrap e])
              | Inr doc \<Rightarrow>
                  (case mem_add s doc of
                     Inl e \<Rightarrow> Inl (Errorf [Lit ''add '', Quo path, Lit '': '', Wrap e])
                   | Inr s' \<Rightarrow> load_entries fsys unmarshal dir es s'))))"

definition LoadDir :: "DirFS \<Rightarrow> (string \<Rightarrow> Document result) \<Rightarrow> string \<Rightarrow> MemStore result" where
  "LoadDir fsys unmarshal dir =
     (case ReadDir fsys dir of
        Inl e \<Rightarrow> Inl (Errorf [Lit ''read seed dir '', Quo dir, Lit '': '', Wrap e])
      | Inr entries \<Rightarrow>
          (case load_entries fsys unmarshal dir entries mem_New of
             Inl e \<Rightarrow> Inl e
           | Inr s \<Rightarrow> Inr (sortIndex s)))"

section \<open>Reads\<close>

definition not_found :: "DocumentID \<Rightarrow> goerr" where
  "not_found i = Errorf [Wrap (Sentinel ErrNotFound), Lit '': '', Lit i]"

definition mem_Get :: "MemStore \<Rightarrow> DocumentID \<Rightarrow> Document result" where
  "mem_Get s i = (case map_of (m_byID s) i of None \<Rightarrow> Inl (not_found i) | Some doc \<Rightarrow> Inr doc)"

definition mem_filter :: "MemStore \<Rightarrow> string list \<Rightarrow> Document list" where
  "mem_filter s typeIDs =
     filter (\<lambda>d. \<not> (length typeIDs > 0 \<and> d_type d \<notin> set typeIDs)) (m_ordered s)"

fun mem_less :: "Document \<Rightarrow> Document \<Rightarrow> Sort \<Rightarrow> bool" where
  "mem_less a b SortCreatedDesc =
     (if d_created a \<noteq> d_created b then d_created a > d_created b else d_id a < d_id b)"
| "mem_less a b SortCreatedAsc =
     (if d_created a \<noteq> d_created b then d_created a < d_created b else d_id a < d_id b)"
| "mem_less a b SortUpdatedDesc =
     (if d_updated a \<noteq> d_updated b then d_updated a > d_updated b else d_id a < d_id b)"
| "mem_less a b SortUpdatedAsc =
     (if d_updated a \<noteq> d_updated b then d_updated a < d_updated b else d_id a < d_id b)"
| "mem_less a b SortIDDesc = (d_id a > d_id b)"
| "mem_less a b SortIDAsc = (d_id a < d_id b)"
| "mem_less a b (SortRaw _) =
     (if d_created a \<noteq> d_created b then d_created a > d_created b else d_id a < d_id b)"

definition sortRows :: "Document list \<Rightarrow> Sort \<Rightarrow> Document list" where
  "sortRows rows s = sort_slice (\<lambda>a b. mem_less a b s) rows"

fun rowAfterCursor :: "Document \<Rightarrow> Sort \<Rightarrow> Cursor \<Rightarrow> bool" where
  "rowAfterCursor r SortCreatedDesc c =
     (if d_created r \<noteq> cur_value c then d_created r < cur_value c else d_id r > cur_id c)"
| "rowAfterCursor r SortCreatedAsc c =
     (if d_created r \<noteq> cur_value c then d_created r > cur_value c else d_id r > cur_id c)"
| "rowAfterCursor r SortUpdatedDesc c =
     (if d_updated r \<noteq> cur_value c then d_updated r < cur_value c else d_id r > cur_id c)"
| "rowAfterCursor r SortUpdatedAsc c =
     (if d_updated r \<noteq> cur_value c then d_updated r > cur_value c else d_id r > cur_id c)"
| "rowAfterCursor r SortIDDesc c = (d_id r < cur_id c)"
| "rowAfterCursor r SortIDAsc c = (d_id r > cur_id c)"
| "rowAfterCursor r (SortRaw _) c =
     (if d_created r \<noteq> cur_value c then d_created r < cur_value c else d_id r > cur_id c)"

definition seekPastCursor :: "Document list \<Rightarrow> Sort \<Rightarrow> Cursor option \<Rightarrow> Document list" where
  "seekPastCursor rows s cur =
     (case cur of None \<Rightarrow> rows
      | Some c \<Rightarrow> drop (sort_search (length rows) (\<lambda>i. rowAfterCursor (rows ! i) s c)) rows)"

definition mem_List :: "MemStore \<Rightarrow> ListOption list \<Rightarrow> Page result" where
  "mem_List s opts =
     (let cfg = Apply opts
      in if lc_limit cfg \<le> 0
         then Inl (Errorf [Wrap (Sentinel ErrInvalidInput), Lit '': limit must be positive''])
         else let rows = mem_filter s (lc_types cfg);
                  total = int (length rows);
                  rows' = seekPastCursor (sortRows rows (lc_sort cfg)) (lc_sort cfg) (lc_cursor cfg);
                  limit = nat (lc_limit cfg)
              in if length rows' > limit
                 then Inr \<lparr>pg_items = take limit rows',
                        pg_next = Some (nextCursor (lc_sort cfg) (rows' ! (limit - 1))), pg_total = total\<rparr>
                 else Inr \<lparr>pg_items = rows', pg_next = None, pg_total = total\<rparr>)"

definition mem_CountAll :: "MemStore \<Rightarrow> int result" where
  "mem_CountAll s = Inr (int (length (m_ordered s)))"

definition mem_Links :: "MemStore \<Rightarrow> DocumentID \<Rightarrow> Link list result" where
  "mem_Links s i =
     (if map_of (m_byID s) i = None then Inl (not_found i)
      else Inr (map (\<lambda>l. l\<lparr>l_direction := LinkOutgoing\<rparr>)
                 (case map_of (m_links s) i of None \<Rightarrow> [] | Some ls \<Rightarrow> ls)
             @ concat (map (\<lambda>(srcID, srcLinks).
                 if srcID = i then []
                 else map (\<lambda>l. \<lparr>l_direction = LinkIncoming, l_target = srcID, l_href = l_href l,
                            l_label = l_label l\<rparr>)
                        (filter (\<lambda>l. l_target l = i) srcLinks)) (m_links s))))"

definition mem_Discussion :: "MemStore \<Rightarrow> DocumentID \<Rightarrow> Discussion result" where
  "mem_Discussion s i =
     (case map_of (m_byID s) i of
        None \<Rightarrow> Inl (not_found i)
      | Some doc \<Rightarrow> (case d_discussion doc of None \<Rightarrow> Inr zero_discussion | Some d \<Rightarrow> Inr d))"

definition mem_Authors :: "MemStore \<Rightarrow> DocumentID \<Rightarrow> Author list result" where
  "mem_Authors s i =
     (case map_of (m_byID s) i of None \<Rightarrow> Inl (not_found i) | Some doc \<Rightarrow> Inr (d_authors doc))"

definition mem_Upsert :: "MemStore \<Rightarrow> Document \<Rightarrow> MemStore result" where
  "mem_Upsert s doc = Inl (Errorf [Lit ''upsert '', Lit (d_id doc),
     Lit '': not implemented: memory store is seed-only (IMPL-0003 uses postgres)''])"

definition mem_Revisions :: "MemStore \<Rightarrow> DocumentID \<Rightarrow> Revision list result" where
  "mem_Revisions s i =
     (case map_of (m_byID s) i of
        None \<Rightarrow> Inl (not_found i)
      | Some doc \<Rightarrow>
          let author = (case d_authors doc of [] \<Rightarrow> zero_author | a # _ \<Rightarrow> a)
          in Inr [\<lparr>rv_commit = so_commit (d_source doc), rv_message = ''initial seed'',
                   rv_author = author, rv_created = d_created doc, rv_id = d_id doc\<rparr>])"

section \<open>Invariant\<close>

text \<open>
  The three fields describe one set of documents: distinct non-empty ids, each document under
  its own id, its links under the same id, and (once indexed) the ordered slice.
\<close>

definition mem_maps_wf :: "MemStore \<Rightarrow> bool" where
  "mem_maps_wf s =
     (distinct (map fst (m_byID s)) \<and> list_all (\<lambda>(i, d). i = d_id d \<and> i \<noteq> []) (m_byID s)
      \<and> m_links s = map (\<lambda>(i, d). (i, d_links d)) (m_byID s))"

definition mem_wf :: "MemStore \<Rightarrow> bool" where
  "mem_wf s = (mem_maps_wf s \<and> m_ordered s = sort_slice ordered_less (map snd (m_byID s)))"

definition mem_contents :: "MemStore \<Rightarrow> Document list" where
  "mem_contents s = map snd (m_byID s)"

lemma byID_keys: "mem_maps_wf s \<Longrightarrow> map fst (m_byID s) = map d_id (mem_contents s)"
  by (auto simp: mem_maps_wf_def mem_contents_def list_all_iff)

lemma mem_byID_Some:
  assumes "mem_maps_wf s"
  shows "map_of (m_byID s) i = Some d \<longleftrightarrow> d \<in> set (mem_contents s) \<and> d_id d = i"
proof -
  have "map_of (m_byID s) i = Some d \<longleftrightarrow> (i, d) \<in> set (m_byID s)"
    using assms by (simp add: mem_maps_wf_def)
  then show ?thesis
    using assms by (force simp: mem_maps_wf_def mem_contents_def list_all_iff)
qed

lemma mem_byID_None:
  "mem_maps_wf s \<Longrightarrow> map_of (m_byID s) i = None \<longleftrightarrow> (\<forall>d \<in> set (mem_contents s). d_id d \<noteq> i)"
  by (metis mem_byID_Some not_None_eq)

lemma mem_wf_New: "mem_wf mem_New"
  by (simp add: mem_wf_def mem_maps_wf_def mem_New_def sort_slice_def)

lemma mem_wf_sortIndex: "mem_maps_wf s \<Longrightarrow> mem_wf (sortIndex s)"
  by (simp add: mem_wf_def mem_maps_wf_def sortIndex_def)

lemma mem_add_maps:
  assumes "mem_maps_wf s" and "mem_add s doc = Inr s'"
  shows "mem_maps_wf s'"
  using assms by (auto simp: mem_add_def mem_maps_wf_def map_of_eq_None_iff split: if_splits)

lemma mem_add_contents: "mem_add s doc = Inr s' \<Longrightarrow> mem_contents s' = mem_contents s @ [doc]"
  by (auto simp: mem_add_def mem_contents_def split: if_splits)

lemma mem_contents_sortIndex [simp]: "mem_contents (sortIndex s) = mem_contents s"
  by (simp add: mem_contents_def sortIndex_def)

lemma load_entries_maps:
  "mem_maps_wf s \<Longrightarrow> load_entries fsys unm dir es s = Inr s' \<Longrightarrow> mem_maps_wf s'"
proof (induction es arbitrary: s)
  case Nil
  then show ?case by simp
next
  case (Cons e es)
  then show ?case
    by (cases e) (auto simp: Let_def split: if_splits sum.splits dest: mem_add_maps)
qed

lemma mem_wf_Add: "mem_wf s \<Longrightarrow> mem_Add s doc = Inr s' \<Longrightarrow> mem_wf s'"
  by (auto simp: mem_Add_def mem_wf_def [of s] intro: mem_add_maps mem_wf_sortIndex split: sum.splits)

lemma mem_wf_LoadDir: "LoadDir fsys unm dir = Inr s \<Longrightarrow> mem_wf s"
  using mem_wf_New load_entries_maps
  by (auto simp: LoadDir_def mem_wf_def [of mem_New] intro!: mem_wf_sortIndex split: sum.splits)

section \<open>List refines the specification\<close>

lemma mem_less_doc_less: "mem_less a b s = doc_less (<) s a b"
  by (cases s) auto

lemma rowAfterCursor_doc_after: "rowAfterCursor r s c = doc_after (<) s r c"
  by (cases s) auto

lemma mem_filter_set: "mem_wf s \<Longrightarrow> set (mem_filter s tys) = {d \<in> set (mem_contents s). type_match tys d}"
  by (auto simp: mem_filter_def mem_wf_def mem_contents_def type_match_def)

lemma mem_filter_mset:
  assumes "mem_wf s"
  shows "mset (mem_filter s tys) = mset (filter (type_match tys) (mem_contents s))"
proof -
  have "mem_filter s tys = filter (type_match tys) (m_ordered s)"
    by (auto simp: mem_filter_def type_match_def intro!: filter_cong)
  then show ?thesis
    using assms by (simp add: mem_wf_def mem_contents_def mset_filter)
qed

lemma mem_ids: "mem_wf s \<Longrightarrow> distinct (map d_id (mem_contents s))"
  using byID_keys [of s] by (simp add: mem_wf_def mem_maps_wf_def)

lemma sortRows_listing:
  assumes "mem_wf s" and "SortValid k"
  shows "sortRows (mem_filter s tys) k = listing (<) (mem_contents s) tys k"
proof (rule bytewise.listing_unique [OF assms(2) mem_ids [OF assms(1)]])
  have "distinct (map d_id (filter (type_match tys) (mem_contents s)))"
    by (rule bytewise.distinct_filter_ids [OF mem_ids [OF assms(1)]])
  then have ids: "distinct (map d_id (mem_filter s tys))"
    using mem_filter_mset [OF assms(1), of tys] by (metis mset_eq_imp_distinct_iff mset_map)
  show "sorted_wrt (doc_less (<) k) (sortRows (mem_filter s tys) k)"
    unfolding sortRows_def mem_less_doc_less
    using keyset.sort_slice_sorted [OF bytewise.keyset_doc [OF assms(2)]] bytewise.ids_total [OF ids]
      ids by (metis distinct_map)
  show "set (sortRows (mem_filter s tys) k) = {d \<in> set (mem_contents s). type_match tys d}"
    using mem_filter_set [OF assms(1)] by (simp add: sortRows_def)
qed

lemma seekPastCursor_after_cursor:
  assumes "SortValid k" and "sorted_wrt (doc_less (<) k) rows"
  shows "seekPastCursor rows k c = after_cursor (<) k c rows"
  using keyset.drop_search_seek [OF bytewise.keyset_doc [OF assms(1)] assms(2)]
  by (simp add: seekPastCursor_def rowAfterCursor_doc_after bytewise.after_cursor_seek [OF assms(1)]
      keyset.seek_def [OF bytewise.keyset_doc [OF assms(1)]] split: option.splits)

lemma mem_List_spec:
  assumes "mem_wf s" and "SortValid (lc_sort (Apply opts))" and "0 < lc_limit (Apply opts)"
  shows "mem_List s opts = Inr (spec_page (<) (mem_contents s) (Apply opts))"
proof -
  let ?cfg = "Apply opts"
  have "sorted_wrt (doc_less (<) (lc_sort ?cfg)) (listing (<) (mem_contents s) (lc_types ?cfg) (lc_sort ?cfg))"
    by (rule bytewise.listing_sorted [OF assms(2) mem_ids [OF assms(1)]])
  moreover have "length (mem_filter s (lc_types ?cfg)) =
      length (filter (type_match (lc_types ?cfg)) (mem_contents s))"
    using mem_filter_mset [OF assms(1)] by (metis size_mset)
  ultimately show ?thesis
    using assms
    by (simp add: mem_List_def spec_page_def page_of_def Let_def sortRows_listing
        seekPastCursor_after_cursor)
qed

lemma mem_List_bad_limit:
  "lc_limit (Apply opts) \<le> 0 \<Longrightarrow> \<exists>e. mem_List s opts = Inl e \<and> error_is e ErrInvalidInput"
  by (simp add: mem_List_def)

interpretation mem: docs_store "(<)" mem_contents mem_List mem_wf "\<lambda>_. True"
proof
  fix st opts p
  show "mem_wf st \<Longrightarrow> distinct (map d_id (mem_contents st))" by (rule mem_ids)
  show "lc_limit (Apply opts) \<le> 0 \<Longrightarrow> \<exists>e. mem_List st opts = Inl e \<and> error_is e ErrInvalidInput"
    by (rule mem_List_bad_limit)
  assume "mem_wf st" "SortValid (lc_sort (Apply opts))" "mem_List st opts = Inr p"
  moreover from this have "0 < lc_limit (Apply opts)"
    using mem_List_bad_limit [of opts st] by fastforce
  ultimately show "p = spec_page (<) (mem_contents st) (Apply opts)"
    using mem_List_spec by simp
qed simp_all

section \<open>Properties\<close>

text \<open>The stores the program can build: an empty or loaded one, and successful \<open>Add\<close> calls.\<close>

inductive mem_built :: "MemStore \<Rightarrow> bool" where
  built_new: "mem_built mem_New"
| built_load: "LoadDir fsys unmarshal dir = Inr s \<Longrightarrow> mem_built s"
| built_add: "mem_built s \<Longrightarrow> mem_Add s doc = Inr s' \<Longrightarrow> mem_built s'"

lemma mem_built_wf: "mem_built s \<Longrightarrow> mem_wf s"
  by (induction rule: mem_built.induct) (auto intro: mem_wf_New mem_wf_LoadDir mem_wf_Add)

lemma mem_Add_iff:
  "(\<exists>s'. mem_Add s doc = Inr s') \<longleftrightarrow> d_id doc \<noteq> [] \<and> map_of (m_byID s) (d_id doc) = None"
  by (auto simp: mem_Add_def mem_add_def split: sum.splits)

lemma mem_Get_iff: "mem_wf s \<Longrightarrow> mem_Get s i = Inr d \<longleftrightarrow> d \<in> set (mem_contents s) \<and> d_id d = i"
  by (auto simp: mem_Get_def mem_wf_def mem_byID_Some [symmetric] split: option.splits)

lemma mem_Get_Inl: "mem_wf s \<Longrightarrow> mem_Get s i = Inl e \<longleftrightarrow> e = not_found i \<and> (\<forall>d \<in> set (mem_contents s). d_id d \<noteq> i)"
  by (auto simp: mem_Get_def mem_wf_def mem_byID_None [symmetric] split: option.splits)

lemma mem_Add_contents: "mem_Add s doc = Inr s' \<Longrightarrow> mem_contents s' = mem_contents s @ [doc]"
  by (auto simp: mem_Add_def split: sum.splits dest: mem_add_contents)

lemma mem_Get_Add:
  assumes "mem_wf s" and "mem_Add s doc = Inr s'"
  shows "mem_Get s' i = (if i = d_id doc then Inr doc else mem_Get s i)"
proof (cases "i = d_id doc")
  case True
  then show ?thesis
    using mem_Get_iff [OF mem_wf_Add [OF assms]] mem_Add_contents [OF assms(2)] by simp
next
  case False
  note wf' = mem_wf_Add [OF assms]
  have "mem_Get s' i = mem_Get s i"
  proof (cases "mem_Get s i")
    case (Inl e)
    then show ?thesis
      using mem_Get_Inl [OF assms(1), of i e] mem_Get_Inl [OF wf', of i e]
        mem_Add_contents [OF assms(2)] False by auto
  next
    case (Inr d)
    then show ?thesis
      using mem_Get_iff [OF assms(1), of i d] mem_Get_iff [OF wf', of i d]
        mem_Add_contents [OF assms(2)] by auto
  qed
  with False show ?thesis by simp
qed

text \<open>C4: Every store that \<open>LoadDir\<close> and \<open>Add\<close> can build satisfies the invariant: distinct
  non-empty ids, every document and its links filed under its own id, and the ordered slice a
  permutation of the documents by creation time, newest first, then id.\<close>

theorem mem_built_invariant:
  assumes "mem_built s"
  shows "distinct (map d_id (mem_contents s)) \<and> [] \<notin> set (map d_id (mem_contents s))
    \<and> mset (m_ordered s) = mset (mem_contents s) \<and> sorted_wrt (doc_less (<) SortCreatedDesc) (m_ordered s)
    \<and> m_links s = map (\<lambda>d. (d_id d, d_links d)) (mem_contents s)"
proof -
  have wf: "mem_wf s" using assms by (rule mem_built_wf)
  have eq: "ordered_less = doc_less (<) SortCreatedDesc"
    by (auto simp: ordered_less_def fun_eq_iff)
  have "sorted_wrt (doc_less (<) SortCreatedDesc) (m_ordered s)"
  proof -
    have "distinct (mem_contents s)" using mem_ids [OF wf] by (simp add: distinct_map)
    moreover have "m_ordered s = sort_slice (doc_less (<) SortCreatedDesc) (mem_contents s)"
      using wf unfolding mem_wf_def mem_contents_def eq by blast
    ultimately show ?thesis
      using keyset.sort_slice_sorted [OF bytewise.keyset_doc _ bytewise.ids_total [OF mem_ids [OF wf]]]
      by (metis SortValid.simps(2))
  qed
  moreover have "\<forall>d \<in> set (mem_contents s). d_id d \<noteq> []"
    using wf by (force simp: mem_wf_def mem_maps_wf_def mem_contents_def list_all_iff)
  moreover have "m_links s = map (\<lambda>d. (d_id d, d_links d)) (mem_contents s)"
    using wf by (auto simp: mem_wf_def mem_maps_wf_def mem_contents_def list_all_iff)
  moreover have "mset (m_ordered s) = mset (mem_contents s)"
    using wf by (simp add: mem_wf_def mem_contents_def)
  ultimately show ?thesis using mem_ids [OF wf] by auto
qed

definition sample_doc :: "string \<Rightarrow> string \<Rightarrow> time \<Rightarrow> Document" where
  "sample_doc i ty t = zero_document\<lparr>d_id := i, d_type := ty, d_created := t, d_updated := t\<rparr>"

definition sample_store :: MemStore where
  "sample_store = sortIndex \<lparr>m_byID = map (\<lambda>d. (d_id d, d))
       [sample_doc ''RFC-0001'' ''rfc'' 10, sample_doc ''ADR-0001'' ''adr'' 20, sample_doc ''RFC-0002'' ''rfc'' 20],
     m_ordered = [], m_links = [(''RFC-0001'', []), (''ADR-0001'', []), (''RFC-0002'', [])]\<rparr>"

lemma sample_store_built: "mem_built sample_store"
proof -
  obtain s1 s2 where "mem_Add mem_New (sample_doc ''RFC-0001'' ''rfc'' 10) = Inr s1"
    and "mem_Add s1 (sample_doc ''ADR-0001'' ''adr'' 20) = Inr s2"
    and "mem_Add s2 (sample_doc ''RFC-0002'' ''rfc'' 20) = Inr sample_store"
    by (simp add: mem_Add_def mem_add_def mem_New_def sample_doc_def zero_document_def
        sample_store_def sortIndex_def)
  then show ?thesis by (meson mem_built.intros)
qed

theorem mem_built_invariant_witness: "distinct (map d_id (mem_contents sample_store))"
  using mem_built_invariant [OF sample_store_built] by blast

text \<open>\<open>Add\<close> accepts exactly the documents with a non-empty id not yet in the store; after
  it \<open>Get\<close> returns the document under its id and is unchanged for every other id. A missing
  id is \<open>ErrNotFound\<close> for every read of a single document.\<close>

theorem mem_add_get:
  assumes "mem_built s"
  shows "((\<exists>s'. mem_Add s doc = Inr s') \<longleftrightarrow>
        d_id doc \<noteq> [] \<and> (\<forall>d \<in> set (mem_contents s). d_id d \<noteq> d_id doc))
    \<and> (\<forall>s' i. mem_Add s doc = Inr s' \<longrightarrow>
        mem_Get s' i = (if i = d_id doc then Inr doc else mem_Get s i))
    \<and> (\<forall>i. (\<forall>d \<in> set (mem_contents s). d_id d \<noteq> i) \<longrightarrow>
        mem_Get s i = Inl (not_found i) \<and> mem_Links s i = Inl (not_found i)
        \<and> mem_Discussion s i = Inl (not_found i) \<and> mem_Authors s i = Inl (not_found i)
        \<and> mem_Revisions s i = Inl (not_found i) \<and> error_is (not_found i) ErrNotFound)"
proof -
  have wf: "mem_wf s" using assms by (rule mem_built_wf)
  then have none: "map_of (m_byID s) i = None \<longleftrightarrow> (\<forall>d \<in> set (mem_contents s). d_id d \<noteq> i)" for i
    by (intro mem_byID_None) (simp add: mem_wf_def)
  have reads: "map_of (m_byID s) i = None \<Longrightarrow>
      mem_Get s i = Inl (not_found i) \<and> mem_Links s i = Inl (not_found i)
      \<and> mem_Discussion s i = Inl (not_found i) \<and> mem_Authors s i = Inl (not_found i)
      \<and> mem_Revisions s i = Inl (not_found i)" for i
    by (simp add: mem_Get_def mem_Links_def mem_Discussion_def mem_Authors_def mem_Revisions_def)
  show ?thesis
    unfolding mem_Add_iff none [symmetric]
    by (intro conjI allI impI) (simp_all add: mem_Get_Add [OF wf] reads not_found_def [of i for i])
qed

theorem mem_add_get_witness:
  "mem_Get sample_store ''RFC-0007'' = Inl (not_found ''RFC-0007'')
    \<and> (\<exists>s'. mem_Add sample_store (sample_doc ''RFC-0007'' ''rfc'' 5) = Inr s')"
proof -
  have "\<forall>d \<in> set (mem_contents sample_store). d_id d \<noteq> ''RFC-0007''"
    by (simp add: sample_store_def sortIndex_def mem_contents_def sample_doc_def)
  moreover have "d_id (sample_doc ''RFC-0007'' ''rfc'' 5) = ''RFC-0007''"
    by (simp add: sample_doc_def)
  ultimately show ?thesis
    using mem_add_get [OF sample_store_built, of "sample_doc ''RFC-0007'' ''rfc'' 5"] by simp
qed

definition incoming_links :: "DocumentID \<Rightarrow> Document \<Rightarrow> Link list" where
  "incoming_links i d =
     (if d_id d = i then []
      else map (\<lambda>l. \<lparr>l_direction = LinkIncoming, l_target = d_id d, l_href = l_href l, l_label = l_label l\<rparr>)
             (filter (\<lambda>l. l_target l = i) (d_links d)))"

lemma incoming_links_mem:
  assumes "mem_maps_wf s"
  shows "map (\<lambda>(srcID, srcLinks). if srcID = i then []
       else map (\<lambda>l. \<lparr>l_direction = LinkIncoming, l_target = srcID, l_href = l_href l, l_label = l_label l\<rparr>)
              (filter (\<lambda>l. l_target l = i) srcLinks)) (m_links s)
     = map (incoming_links i) (mem_contents s)"
  using assms by (auto simp: mem_maps_wf_def mem_contents_def incoming_links_def list_all_iff)

text \<open>\<open>Links\<close> answers with the document's own links, marked outgoing, and one incoming
  entry for every link of another document that targets it, naming that document; nothing
  else.\<close>

theorem mem_links_both_directions:
  assumes "mem_built s" and "mem_Links s i = Inr ls"
  shows "set ls =
    {l\<lparr>l_direction := LinkOutgoing\<rparr> | l d. d \<in> set (mem_contents s) \<and> d_id d = i \<and> l \<in> set (d_links d)}
    \<union> {\<lparr>l_direction = LinkIncoming, l_target = d_id d, l_href = l_href l, l_label = l_label l\<rparr>
        | l d. d \<in> set (mem_contents s) \<and> d_id d \<noteq> i \<and> l \<in> set (d_links d) \<and> l_target l = i}"
proof -
  have wf: "mem_maps_wf s" using mem_built_wf [OF assms(1)] by (simp add: mem_wf_def)
  obtain d where d: "map_of (m_byID s) i = Some d"
    using assms(2) by (auto simp: mem_Links_def split: if_splits)
  have own: "map_of (m_links s) i = Some (d_links d)"
    using d wf map_of_map [of d_links "m_byID s"] by (simp add: mem_maps_wf_def)
  have "ls = map (\<lambda>l. l\<lparr>l_direction := LinkOutgoing\<rparr>) (d_links d)
      @ concat (map (incoming_links i) (mem_contents s))"
    using assms(2) d by (simp add: mem_Links_def own incoming_links_mem [OF wf])
  moreover have "\<forall>d'. d' \<in> set (mem_contents s) \<and> d_id d' = i \<longleftrightarrow> d' = d"
    using mem_byID_Some [OF wf, of i] d by (metis option.inject)
  ultimately show ?thesis
    unfolding incoming_links_def by (auto split: if_splits)
qed

definition linked_store :: MemStore where
  "linked_store = sortIndex \<lparr>m_byID =
       [(''RFC-0001'', (sample_doc ''RFC-0001'' ''rfc'' 10)\<lparr>d_links :=
           [\<lparr>l_direction = [], l_target = ''RFC-0002'', l_href = ''/rfc/0002'', l_label = ''see''\<rparr>]\<rparr>),
        (''RFC-0002'', sample_doc ''RFC-0002'' ''rfc'' 20)],
     m_ordered = [],
     m_links = [(''RFC-0001'', [\<lparr>l_direction = [], l_target = ''RFC-0002'', l_href = ''/rfc/0002'', l_label = ''see''\<rparr>]),
        (''RFC-0002'', [])]\<rparr>"

lemma linked_store_built: "mem_built linked_store"
proof -
  let ?d = "(sample_doc ''RFC-0001'' ''rfc'' 10)\<lparr>d_links :=
           [\<lparr>l_direction = [], l_target = ''RFC-0002'', l_href = ''/rfc/0002'', l_label = ''see''\<rparr>]\<rparr>"
  obtain s1 where "mem_Add mem_New ?d = Inr s1"
    and "mem_Add s1 (sample_doc ''RFC-0002'' ''rfc'' 20) = Inr linked_store"
    by (simp add: mem_Add_def mem_add_def mem_New_def sample_doc_def zero_document_def
        linked_store_def sortIndex_def)
  then show ?thesis by (meson mem_built.intros)
qed

theorem mem_links_both_directions_witness:
  "\<exists>ls. mem_Links linked_store ''RFC-0002'' = Inr ls
    \<and> \<lparr>l_direction = LinkIncoming, l_target = ''RFC-0001'', l_href = ''/rfc/0002'', l_label = ''see''\<rparr> \<in> set ls"
proof -
  obtain ls where ls: "mem_Links linked_store ''RFC-0002'' = Inr ls"
    by (simp add: mem_Links_def linked_store_def sortIndex_def)
  let ?l = "\<lparr>l_direction = [], l_target = ''RFC-0002'', l_href = ''/rfc/0002'', l_label = ''see''\<rparr>"
  let ?d = "(sample_doc ''RFC-0001'' ''rfc'' 10)\<lparr>d_links := [?l]\<rparr>"
  have "?d \<in> set (mem_contents linked_store)" and "d_id ?d = ''RFC-0001''" and "?l \<in> set (d_links ?d)"
    by (simp_all add: linked_store_def mem_contents_def sortIndex_def sample_doc_def)
  then have "\<lparr>l_direction = LinkIncoming, l_target = ''RFC-0001'', l_href = l_href ?l, l_label = l_label ?l\<rparr> \<in> set ls"
    unfolding mem_links_both_directions [OF linked_store_built ls]
    by (intro UnI2 CollectI exI [of _ ?l] exI [of _ ?d]) simp
  then show ?thesis using ls by simp
qed

text \<open>C3: \<open>List\<close> of the memory store is the specification of the persistence seam. A limit
  that is not positive is refused as invalid input. Otherwise the answer is the page of the
  documents of the wanted types, in the order of the sort key, after the cursor, cut to the
  limit, with a next cursor exactly when rows remain and the total of the filtered documents;
  the binary search for the cursor finds the right position.\<close>

theorem mem_List_refines:
  assumes "mem_built s" and "SortValid (lc_sort (Apply opts))"
  shows "if lc_limit (Apply opts) \<le> 0
    then \<exists>e. mem_List s opts = Inl e \<and> error_is e ErrInvalidInput
    else mem_List s opts = Inr (spec_page (<) (mem_contents s) (Apply opts))"
  using mem_List_spec [OF mem_built_wf [OF assms(1)] assms(2)] mem_List_bad_limit [of opts s] by simp

theorem mem_List_refines_witness:
  "mem_List sample_store [WithTypes [''rfc''], WithLimit 1] =
     Inr (spec_page (<) (mem_contents sample_store) (Apply [WithTypes [''rfc''], WithLimit 1]))
   \<and> mem_List sample_store [WithTypes [''rfc''], WithLimit 1] =
     Inr \<lparr>pg_items = [sample_doc ''RFC-0002'' ''rfc'' 20],
           pg_next = Some \<lparr>cur_sort = SortCreatedDesc, cur_value = 20, cur_id = ''RFC-0002''\<rparr>,
           pg_total = 2\<rparr>"
proof
  show "mem_List sample_store [WithTypes [''rfc''], WithLimit 1] =
     Inr (spec_page (<) (mem_contents sample_store) (Apply [WithTypes [''rfc''], WithLimit 1]))"
    using mem_List_refines [OF sample_store_built, of "[WithTypes [''rfc''], WithLimit 1]"]
    by (simp add: option_defs)
  show "mem_List sample_store [WithTypes [''rfc''], WithLimit 1] =
     Inr \<lparr>pg_items = [sample_doc ''RFC-0002'' ''rfc'' 20],
           pg_next = Some \<lparr>cur_sort = SortCreatedDesc, cur_value = 20, cur_id = ''RFC-0002''\<rparr>,
           pg_total = 2\<rparr>"
    by (simp add: mem_List_def option_defs mem_filter_def sample_store_def sortIndex_def
        sort_slice_def ordered_less_def sample_doc_def zero_document_def sortRows_def
        seekPastCursor_def Let_def)
qed

end
