(* ===== verification/Service.thy ===== *)
theory Service
  imports Complex_Main Registry MemStore
begin

text \<open>
  The use-case layer, \<^verbatim>\<open>internal/service\<close>: page-size normalisation, the document service over
  any store (its \<^verbatim>\<open>List\<close> is an argument), the search service over any search client, and what
  a client that follows the cursors of the service gets.
\<close>

section \<open>Documents\<close>

definition MaxListLimit :: int where "MaxListLimit = 200"
definition DefaultListLimit :: int where "DefaultListLimit = 50"

definition normalizeLimit :: "int \<Rightarrow> int" where
  "normalizeLimit limit =
     (if limit \<le> 0 then DefaultListLimit
      else if limit > MaxListLimit then MaxListLimit
      else limit)"

type_synonym list_fn = "ListOption list \<Rightarrow> Page result"

definition svc_ListByType :: "Registry \<Rightarrow> list_fn \<Rightarrow> string \<Rightarrow> int \<Rightarrow> Cursor option \<Rightarrow> Page result" where
  "svc_ListByType reg lst typeID limit cursor =
     (if RegGet reg typeID = None
      then Inl (Errorf [Wrap (Sentinel ErrInvalidInput), Lit '': unknown type '', Quo typeID])
      else lst [WithTypes [typeID], WithLimit (normalizeLimit limit), WithCursor cursor])"

definition svc_ListAll :: "list_fn \<Rightarrow> int \<Rightarrow> Cursor option \<Rightarrow> string list \<Rightarrow> Sort \<Rightarrow> Page result" where
  "svc_ListAll lst limit cursor typeIDs srt =
     lst ([WithLimit (normalizeLimit limit), WithCursor cursor]
       @ (if length typeIDs > 0 then [WithTypes typeIDs] else [])
       @ (if srt \<noteq> SortRaw [] then [WithSort srt] else []))"

text \<open>The read methods of the interface \<^verbatim>\<open>store.Docs\<close>, one field each, and the memory store as a provider.\<close>

record docs_ops =
  op_Get :: "DocumentID \<Rightarrow> Document result"
  op_List :: list_fn
  op_CountAll :: "int result"
  op_Links :: "DocumentID \<Rightarrow> Link list result"
  op_Discussion :: "DocumentID \<Rightarrow> Discussion result"
  op_Authors :: "DocumentID \<Rightarrow> Author list result"
  op_Revisions :: "DocumentID \<Rightarrow> Revision list result"

definition mem_ops :: "MemStore \<Rightarrow> docs_ops" where
  "mem_ops s = \<lparr>op_Get = mem_Get s, op_List = mem_List s, op_CountAll = mem_CountAll s,
     op_Links = mem_Links s, op_Discussion = mem_Discussion s, op_Authors = mem_Authors s,
     op_Revisions = mem_Revisions s\<rparr>"

definition svc_Get :: "docs_ops \<Rightarrow> DocumentID \<Rightarrow> Document result" where
  "svc_Get st i = op_Get st i"

definition svc_CountAll :: "docs_ops \<Rightarrow> int result" where
  "svc_CountAll st = op_CountAll st"

definition svc_Links :: "docs_ops \<Rightarrow> DocumentID \<Rightarrow> Link list result" where
  "svc_Links st i = op_Links st i"

definition svc_Discussion :: "docs_ops \<Rightarrow> DocumentID \<Rightarrow> Discussion result" where
  "svc_Discussion st i = op_Discussion st i"

definition svc_Authors :: "docs_ops \<Rightarrow> DocumentID \<Rightarrow> Author list result" where
  "svc_Authors st i = op_Authors st i"

definition svc_Revisions :: "docs_ops \<Rightarrow> DocumentID \<Rightarrow> Revision list result" where
  "svc_Revisions st i = op_Revisions st i"

section \<open>Search\<close>

text \<open>\<^verbatim>\<open>internal/search/search.go\<close>. The score is a rational, standing for Go's \<^verbatim>\<open>float64\<close>.\<close>

record SearchQuery =
  sq_q :: string
  sq_type :: string
  sq_limit :: int
  sq_cursor :: string

record SearchResult =
  res_document :: Document
  res_score :: rat
  res_snippet :: string
  res_terms :: "string list"
  res_heading :: string
  res_slug :: string

record SearchPage =
  sp_hits :: "SearchResult list"
  sp_next :: string
  sp_total :: int

type_synonym search_client = "SearchQuery \<Rightarrow> SearchPage result"

definition NoopClient :: search_client where
  "NoopClient q = Inr \<lparr>sp_hits = [], sp_next = [], sp_total = 0\<rparr>"

definition svc_Search :: "Registry \<Rightarrow> search_client \<Rightarrow> SearchQuery \<Rightarrow> SearchPage result" where
  "svc_Search reg client q =
     (if sq_type q \<noteq> [] \<and> RegGet reg (sq_type q) = None
      then Inl (Errorf [Wrap (Sentinel ErrInvalidInput), Lit '': unknown type '', Quo (sq_type q)])
      else client (q\<lparr>sq_limit := normalizeLimit (sq_limit q)\<rparr>))"

section \<open>Lemmas\<close>

lemma normalizeLimit_range: "1 \<le> normalizeLimit n \<and> normalizeLimit n \<le> MaxListLimit"
  by (simp add: normalizeLimit_def DefaultListLimit_def MaxListLimit_def)

lemma normalizeLimit_id: "1 \<le> n \<Longrightarrow> n \<le> MaxListLimit \<Longrightarrow> normalizeLimit n = n"
  by (simp add: normalizeLimit_def)

text \<open>The sort a \<open>Sort\<close> argument of the service stands for.\<close>

definition effective_sort :: "Sort \<Rightarrow> Sort" where
  "effective_sort s = (if s = SortRaw [] then DefaultSort else s)"

lemma Apply_ListAll:
  "Apply ([WithLimit n, WithCursor c] @ (if length tys > 0 then [WithTypes tys] else [])
      @ (if s \<noteq> SortRaw [] then [WithSort s] else [])) =
   \<lparr>lc_sort = effective_sort s, lc_types = tys, lc_limit = n, lc_cursor = c\<rparr>"
  by (simp add: option_defs effective_sort_def)

text \<open>
  The service over a store that keeps the contract of the persistence seam: it asks the store
  for exactly the page of the specification. The lemmas are about the store's pages, so they
  hold for every backend.
\<close>

locale docs_service = docs_store ilt contents lst inv cok
  for ilt :: id_lt and contents :: "'s \<Rightarrow> Document list" and lst :: "'s \<Rightarrow> list_fn"
    and inv :: "'s \<Rightarrow> bool" and cok :: "Cursor option \<Rightarrow> bool" +
  assumes answers: "inv st \<Longrightarrow> 0 < lc_limit (Apply opts) \<Longrightarrow> \<exists>p. lst st opts = Inr p"
begin

lemma ListAll_page:
  assumes "inv st" and "SortValid (effective_sort s)" and "cok c"
  shows "svc_ListAll (lst st) n c tys s = Inr (spec_page ilt (contents st)
    \<lparr>lc_sort = effective_sort s, lc_types = tys, lc_limit = normalizeLimit n, lc_cursor = c\<rparr>)"
proof -
  let ?opts = "[WithLimit (normalizeLimit n), WithCursor c] @ (if length tys > 0 then [WithTypes tys] else [])
      @ (if s \<noteq> SortRaw [] then [WithSort s] else [])"
  have cfg: "Apply ?opts = \<lparr>lc_sort = effective_sort s, lc_types = tys,
      lc_limit = normalizeLimit n, lc_cursor = c\<rparr>" by (rule Apply_ListAll)
  then obtain p where p: "lst st ?opts = Inr p"
    using answers [OF assms(1), of ?opts] normalizeLimit_range [of n] by auto
  then have "p = spec_page ilt (contents st) (Apply ?opts)"
    using page [OF assms(1) _ _ p] assms(2,3) by (simp only: cfg ListConfig.simps)
  then show ?thesis using p by (simp only: svc_ListAll_def cfg)
qed

lemma ListByType_page:
  assumes "inv st" and "cok c"
  shows "svc_ListByType reg (lst st) ty n c =
    (if RegGet reg ty = None
     then Inl (Errorf [Wrap (Sentinel ErrInvalidInput), Lit '': unknown type '', Quo ty])
     else svc_ListAll (lst st) n c [ty] (SortRaw []))"
proof (cases "RegGet reg ty")
  case None
  then show ?thesis by (simp add: svc_ListByType_def)
next
  case (Some t)
  let ?opts = "[WithTypes [ty], WithLimit (normalizeLimit n), WithCursor c]"
  have cfg: "Apply ?opts = \<lparr>lc_sort = effective_sort (SortRaw []), lc_types = [ty],
      lc_limit = normalizeLimit n, lc_cursor = c\<rparr>"
    by (simp add: option_defs effective_sort_def)
  then obtain p where p: "lst st ?opts = Inr p"
    using answers [OF assms(1), of ?opts] normalizeLimit_range [of n] by auto
  then have "p = spec_page ilt (contents st) (Apply ?opts)"
    using page [OF assms(1) _ _ p] assms(2) by (simp add: cfg effective_sort_def DefaultSort_def)
  then show ?thesis
    using p Some ListAll_page [OF assms(1) _ assms(2), of "SortRaw []" n "[ty]"]
    by (simp add: svc_ListByType_def cfg effective_sort_def DefaultSort_def)
qed

text \<open>A client of \<open>ListAll\<close>.\<close>

definition client :: "string list \<Rightarrow> Sort \<Rightarrow> int \<Rightarrow> 's \<Rightarrow> Cursor option \<Rightarrow> Document list \<times> Cursor option" where
  "client tys s n st c = (case svc_ListAll (lst st) n c tys s of
      Inr p \<Rightarrow> (pg_items p, pg_next p) | Inl e \<Rightarrow> ([], None))"

lemma client_ask:
  assumes "inv st" and "SortValid (effective_sort s)" and "cok c"
  shows "client tys s n st c = ask tys (effective_sort s) (normalizeLimit n) st c"
proof -
  obtain p where p: "lst st (list_opts tys (effective_sort s) (normalizeLimit n) c) = Inr p"
    using answers [OF assms(1)] assms(2) normalizeLimit_range [of n] by force
  then show ?thesis
    using page [OF assms(1) _ _ p] assms ListAll_page [OF assms]
    by (simp add: client_def ask_def)
qed

lemma follow_client:
  assumes "\<forall>st \<in> set sts. inv st" and "SortValid (effective_sort s)"
  shows "follow (map (client tys s n) sts) None =
    follow (map (ask tys (effective_sort s) (normalizeLimit n)) sts) None"
proof (rule follow_cong [where ok = cok])
  have "cok (snd (ask tys (effective_sort s) (normalizeLimit n) st c))" if "st \<in> set sts" "cok c" for st c
  proof -
    have "\<exists>p. lst st (list_opts tys (effective_sort s) (normalizeLimit n) c) = Inr p"
      using answers assms that normalizeLimit_range [of n] by force
    then show ?thesis
      using ask_page_of page_of_cok assms that normalizeLimit_range [of n] by force
  qed
  then show "\<forall>i < length (map (client tys s n) sts). \<forall>c. cok c \<longrightarrow>
      (map (client tys s n) sts ! i) c = (map (ask tys (effective_sort s) (normalizeLimit n)) sts ! i) c
      \<and> cok (snd ((map (ask tys (effective_sort s) (normalizeLimit n)) sts ! i) c))"
    using assms client_ask by auto
qed (simp_all add: cok_None)

lemma client_all_pages:
  assumes "inv st" and "SortValid (effective_sort s)"
    and "length (listing ilt (contents st) tys (effective_sort s)) < m"
  shows "follow (replicate m (client tys s n st)) None =
    (listing ilt (contents st) tys (effective_sort s), True)"
  using assms normalizeLimit_range [of n] answers follow_client [of "replicate m st" s tys n]
  by (simp add: list_all_pages)

lemma client_changing:
  assumes "\<forall>st \<in> set sts. inv st" and "SortValid (effective_sort s)"
    and "follow (map (client tys s n) sts) None = (items, fin)"
  shows "sorted_wrt (doc_less ilt (effective_sort s)) items
    \<and> (\<forall>d \<in> set items. type_match tys d \<and> (\<exists>st \<in> set sts. d \<in> set (contents st)))
    \<and> (fin \<longrightarrow> (\<forall>d. type_match tys d \<and> (\<forall>st \<in> set sts. d \<in> set (contents st)) \<longrightarrow> d \<in> set items))"
proof -
  have "follow (map (ask tys (effective_sort s) (normalizeLimit n)) sts) None = (items, fin)"
    using assms(3) follow_client [OF assms(1,2)] by simp
  moreover have "\<forall>st \<in> set sts. inv st \<and>
      (\<forall>c. \<exists>p. lst st (list_opts tys (effective_sort s) (normalizeLimit n) c) = Inr p)"
    using assms answers normalizeLimit_range [of n] by simp
  moreover have "0 < normalizeLimit n" using normalizeLimit_range [of n] by simp
  ultimately show ?thesis using list_changing assms(2) by blast
qed

end

interpretation msvc: docs_service "(<)" mem_contents mem_List mem_wf "\<lambda>_. True"
proof
  fix st opts
  assume "mem_wf st" and "0 < lc_limit (Apply opts)"
  then show "\<exists>p. mem_List st opts = Inr p" by (auto simp: mem_List_def Let_def)
qed

section \<open>Properties\<close>

text \<open>The answer of one \<open>ListAll\<close> request to a memory store, as items and next cursor.\<close>

definition list_all_reply ::
  "string list \<Rightarrow> Sort \<Rightarrow> int \<Rightarrow> MemStore \<Rightarrow> Cursor option \<Rightarrow> Document list \<times> Cursor option" where
  "list_all_reply tys s n st c = (case svc_ListAll (mem_List st) n c tys s of
      Inr p \<Rightarrow> (pg_items p, pg_next p) | Inl e \<Rightarrow> ([], None))"

lemma list_all_reply_client: "list_all_reply = msvc.client"
  by (simp add: fun_eq_iff list_all_reply_def msvc.client_def)

text \<open>C1: Pagination is complete and exact. A client that starts without a cursor and follows
  the next cursors of \<open>ListAll\<close>, with any limit, any type filter and any sort of the enum (or
  none, meaning the default), gets every matching document exactly once, in the order of the
  sort, and finishes within one request more than there are documents.\<close>

theorem list_all_pages_exact:
  assumes "mem_built st" and "SortValid s \<or> s = SortRaw []" and "length (mem_contents st) < m"
  shows "\<exists>items. follow (replicate m (list_all_reply tys s n st)) None = (items, True)
    \<and> mset items = mset (filter (type_match tys) (mem_contents st))
    \<and> sorted_wrt (doc_less (<) (effective_sort s)) items"
proof -
  have wf: "mem_wf st" using assms(1) by (rule mem_built_wf)
  have s: "SortValid (effective_sort s)"
    using assms(2) by (auto simp: effective_sort_def DefaultSort_def)
  let ?rows = "listing (<) (mem_contents st) tys (effective_sort s)"
  have "length ?rows \<le> length (mem_contents st)" by (simp add: listing_def)
  then have "follow (replicate m (list_all_reply tys s n st)) None = (?rows, True)"
    unfolding list_all_reply_client
    using msvc.client_all_pages [OF wf s, of tys m n] assms(3) by simp
  then show ?thesis
    using bytewise.listing_sorted [OF s mem_ids [OF wf]] by (auto simp: listing_def)
qed

theorem list_all_pages_exact_witness:
  "\<exists>items. follow (replicate 4 (list_all_reply [''rfc''] (SortRaw []) 1 sample_store)) None = (items, True)
    \<and> mset items = mset [sample_doc ''RFC-0001'' ''rfc'' 10, sample_doc ''RFC-0002'' ''rfc'' 20]"
proof -
  have "length (mem_contents sample_store) < 4"
    by (simp add: sample_store_def mem_contents_def sortIndex_def)
  moreover have "filter (type_match [''rfc'']) (mem_contents sample_store) =
      [sample_doc ''RFC-0001'' ''rfc'' 10, sample_doc ''RFC-0002'' ''rfc'' 20]"
    by (simp add: sample_store_def mem_contents_def sortIndex_def type_match_def sample_doc_def)
  ultimately show ?thesis
    using list_all_pages_exact [OF sample_store_built, of "SortRaw []" 4 "[''rfc'']" 1] by auto
qed



text \<open>The per-type listing refuses a type the registry does not know, as invalid input, and
  is the cross-type listing filtered to that type under the default sort otherwise; the page it
  returns never has more than \<open>MaxListLimit\<close> documents whatever limit was asked for.\<close>

theorem list_by_type:
  assumes "mem_built st"
  shows "(RegGet reg ty = None \<longrightarrow>
      (\<exists>e. svc_ListByType reg (mem_List st) ty n c = Inl e \<and> error_is e ErrInvalidInput))
    \<and> (RegGet reg ty \<noteq> None \<longrightarrow> (\<exists>p. svc_ListByType reg (mem_List st) ty n c = Inr p
        \<and> svc_ListAll (mem_List st) n c [ty] DefaultSort = Inr p
        \<and> int (length (pg_items p)) \<le> MaxListLimit \<and> (\<forall>d \<in> set (pg_items p). d_type d = ty)))"
proof (intro conjI impI)
  have wf: "mem_wf st" using assms by (rule mem_built_wf)
  show "\<exists>e. svc_ListByType reg (mem_List st) ty n c = Inl e \<and> error_is e ErrInvalidInput"
    if "RegGet reg ty = None" using that by (simp add: svc_ListByType_def)
  let ?p = "spec_page (<) (mem_contents st)
      \<lparr>lc_sort = DefaultSort, lc_types = [ty], lc_limit = normalizeLimit n, lc_cursor = c\<rparr>"
  have eq: "svc_ListAll (mem_List st) n c [ty] s = Inr ?p" if "effective_sort s = DefaultSort" for s
    using msvc.ListAll_page [OF wf _ TrueI, of s n c "[ty]"] that by (simp add: DefaultSort_def)
  have all: "svc_ListAll (mem_List st) n c [ty] DefaultSort = Inr ?p"
    by (rule eq) (simp add: effective_sort_def)
  let ?opts = "[WithLimit (normalizeLimit n), WithCursor c, WithTypes [ty], WithSort DefaultSort]"
  have cfg: "Apply ?opts = \<lparr>lc_sort = DefaultSort, lc_types = [ty], lc_limit = normalizeLimit n, lc_cursor = c\<rparr>"
    by (simp add: option_defs)
  have m: "mem_List st ?opts = Inr ?p"
    using all by (simp add: svc_ListAll_def DefaultSort_def)
  have valid: "SortValid (lc_sort (Apply ?opts))" by (simp only: cfg) (simp add: DefaultSort_def)
  have "int (length (pg_items ?p)) \<le> normalizeLimit n"
    using mem.page_bounded [OF wf valid TrueI m] by (simp only: cfg ListConfig.simps)
  then have "int (length (pg_items ?p)) \<le> MaxListLimit"
    using normalizeLimit_range [of n] by linarith
  moreover have "set (pg_items ?p) \<subseteq> {d \<in> set (mem_contents st). type_match [ty] d}"
    using mem.page_items [OF wf valid TrueI m] by (simp only: cfg ListConfig.simps)
  then have "\<forall>d \<in> set (pg_items ?p). d_type d = ty" by (auto simp: type_match_def)
  ultimately show "\<exists>p. svc_ListByType reg (mem_List st) ty n c = Inr p
        \<and> svc_ListAll (mem_List st) n c [ty] DefaultSort = Inr p
        \<and> int (length (pg_items p)) \<le> MaxListLimit \<and> (\<forall>d \<in> set (pg_items p). d_type d = ty)"
    if "RegGet reg ty \<noteq> None"
    using that msvc.ListByType_page [OF wf TrueI, of reg ty n c] eq [of "SortRaw []"] all
    by (simp add: effective_sort_def)
qed

theorem list_by_type_witness:
  "\<exists>p. svc_ListByType (registry_of ascii_only default_types) (mem_List sample_store) ''rfc'' 9999 None = Inr p
    \<and> int (length (pg_items p)) \<le> 200"
proof -
  have "RegGet (registry_of ascii_only default_types) ''rfc'' \<noteq> None" by code_simp
  then show ?thesis
    using list_by_type [OF sample_store_built, of "registry_of ascii_only default_types" "''rfc''" 9999 None]
    by (auto simp: MaxListLimit_def)
qed

end
