(* ===== verification/Http.thy ===== *)
theory Http
  imports Url CursorCodec Service
begin

text \<open>
  The HTTP surface: \<^verbatim>\<open>internal/server/httperr\<close> (errors to problem responses), \<^verbatim>\<open>render\<close>
  (success responses and pagination headers), \<^verbatim>\<open>routectx\<close> and \<^verbatim>\<open>reqctx\<close> (what the context of a
  request carries), and the read handlers of \<^verbatim>\<open>internal/server/handler\<close>. A handler is a
  function from the request to the response it writes: status, the headers it sets, and the
  value it hands to the JSON encoder. Logging is left out.
\<close>

section \<open>Requests, contexts and responses\<close>

record Route =
  rt_TypeID :: string
  rt_Pattern :: string

text \<open>The values the middlewares put on a context: the route, whether a capture is installed, the
  request id. The capture itself is a cell outside the context that \<^verbatim>\<open>With\<close> writes through its pointer;
  it is passed along as an argument.\<close>

record reqctx =
  cx_route :: "Route option"
  cx_capture :: bool
  cx_id :: "string option"

definition zero_route :: Route where
  "zero_route = \<lparr>rt_TypeID = [], rt_Pattern = []\<rparr>"

definition ctx_With :: "reqctx \<Rightarrow> string \<Rightarrow> string \<Rightarrow> Route \<Rightarrow> reqctx \<times> Route" where
  "ctx_With ctx typeID pattern capture =
     (let route = \<lparr>rt_TypeID = typeID, rt_Pattern = pattern\<rparr>;
          capture' = (if cx_capture ctx then route else capture)
      in (ctx\<lparr>cx_route := Some route\<rparr>, capture'))"

definition ctx_WithCapture :: "reqctx \<Rightarrow> reqctx \<times> Route" where
  "ctx_WithCapture ctx = (ctx\<lparr>cx_capture := True\<rparr>, zero_route)"

definition ctx_From :: "reqctx \<Rightarrow> Route \<times> bool" where
  "ctx_From ctx = (case cx_route ctx of Some r \<Rightarrow> (r, True) | None \<Rightarrow> (zero_route, False))"

definition ctx_WithID :: "reqctx \<Rightarrow> string \<Rightarrow> reqctx" where
  "ctx_WithID ctx i = ctx\<lparr>cx_id := Some i\<rparr>"

definition ctx_ID :: "reqctx \<Rightarrow> string" where
  "ctx_ID ctx = (case cx_id ctx of Some v \<Rightarrow> v | None \<Rightarrow> [])"

text \<open>A request: the method, the request line's target, the URL after prefix stripping (its path,
  the encoded path where it differs, the raw query, and whether an empty one is written), the path value \<^verbatim>\<open>{id}\<close>, the context.\<close>

record request =
  r_Method :: string
  r_RequestURI :: string
  r_Path :: string
  r_RawPath :: string
  r_RawQuery :: string
  r_ForceQuery :: bool
  r_PathID :: string
  r_ctx :: reqctx

abbreviation r_Query :: "request \<Rightarrow> Values" where
  "r_Query r \<equiv> ParseQuery (r_RawQuery r)"

text \<open>\<^verbatim>\<open>URL.RequestURI()\<close>, for a target that is a path.\<close>

definition r_URLRequestURI :: "request \<Rightarrow> string" where
  "r_URLRequestURI r =
     (let p = EscapedPath (r_Path r) (r_RawPath r); p' = (if p = [] then ''/'' else p)
      in if r_ForceQuery r \<or> r_RawQuery r \<noteq> [] then p' @ ''?'' @ r_RawQuery r else p')"

record Problem =
  p_type :: string
  p_title :: string
  p_status :: int
  p_detail :: string
  p_instance :: string
  p_request_id :: string

record typeDTO =
  t_ID :: string
  t_DisplayPrefix :: string
  t_Title :: string
  t_Statuses :: "string list"

record readyFailureRow =
  rf_Probe :: string
  rf_Error :: string

datatype body = BProblem Problem | BDoc Document | BDocs "Document list" | BLinks "Link list"
  | BDiscussion Discussion | BAuthors "Author list" | BRevisions "Revision list"
  | BHits "SearchResult list" | BTypes "typeDTO list" | BReady string
  | BNotReady string "readyFailureRow list" | BText string

record response =
  rs_status :: int
  rs_headers :: "(string \<times> string) list"
  rs_body :: body

section \<open>Errors\<close>

record classification =
  cl_status :: int
  cl_kind :: string
  cl_title :: string

definition classify :: "goerr \<Rightarrow> classification" where
  "classify err =
     (if error_is err ErrNotFound then
        \<lparr>cl_status = 404, cl_kind = ''/problems/not-found'', cl_title = ''Resource not found''\<rparr>
      else if error_is err ErrInvalidInput then
        \<lparr>cl_status = 400, cl_kind = ''/problems/invalid-input'', cl_title = ''Invalid input''\<rparr>
      else if error_is err ErrConflict then
        \<lparr>cl_status = 409, cl_kind = ''/problems/conflict'', cl_title = ''Conflict''\<rparr>
      else if error_is err ErrUpstream then
        \<lparr>cl_status = 502, cl_kind = ''/problems/upstream'', cl_title = ''Upstream failure''\<rparr>
      else if error_is err ErrUnauthenticated then
        \<lparr>cl_status = 401, cl_kind = ''/problems/unauthenticated'', cl_title = ''Unauthenticated''\<rparr>
      else if error_is err ErrRateLimited then
        \<lparr>cl_status = 429, cl_kind = ''/problems/rate-limited'', cl_title = ''Rate limit exceeded''\<rparr>
      else \<lparr>cl_status = 500, cl_kind = ''/problems/internal'', cl_title = ''Internal error''\<rparr>)"

definition safeDetail :: "unicode \<Rightarrow> goerr \<Rightarrow> classification \<Rightarrow> string" where
  "safeDetail U err cls = (if cl_status cls = 500 then ''an internal error occurred'' else Error U err)"

definition err_Write :: "unicode \<Rightarrow> request \<Rightarrow> goerr \<Rightarrow> response" where
  "err_Write U r err =
     (let cls = classify err in
      \<lparr>rs_status = cl_status cls,
       rs_headers = [(''Content-Type'', ''application/problem+json'')],
       rs_body = BProblem \<lparr>p_type = cl_kind cls, p_title = cl_title cls, p_status = cl_status cls,
         p_detail = safeDetail U err cls, p_instance = r_URLRequestURI r, p_request_id = ctx_ID (r_ctx r)\<rparr>\<rparr>)"

section \<open>Success responses\<close>

record PageInfo =
  pi_Total :: int
  pi_NextCursor :: string
  pi_PrevCursor :: string
  pi_TotalUnfiltered :: "int option"

definition render_JSON :: "int \<Rightarrow> body \<Rightarrow> response" where
  "render_JSON status v =
     \<lparr>rs_status = status, rs_headers = [(''Content-Type'', ''application/json'')], rs_body = v\<rparr>"

definition requestURIPath :: "request \<Rightarrow> string option" where
  "requestURIPath r =
     (if r_RequestURI r = [] then None
      else (case IndexByte (r_RequestURI r) CHR ''?'' of
              Some i \<Rightarrow> Some (take i (r_RequestURI r))
            | None \<Rightarrow> Some (r_RequestURI r)))"

text \<open>The URL of one link, and the entry of the header.\<close>

definition link_url :: "request \<Rightarrow> string \<Rightarrow> string" where
  "link_url r cursor =
     (let base = (case requestURIPath r of Some p \<Rightarrow> p | None \<Rightarrow> r_Path r);
          encoded = ValuesEncode (ValuesSet (r_Query r) ''cursor'' cursor)
      in if encoded \<noteq> [] then base @ ''?'' @ encoded else base)"

definition formatLink :: "unicode \<Rightarrow> request \<Rightarrow> string \<Rightarrow> string \<Rightarrow> string" where
  "formatLink U r cursor rel = ''<'' @ link_url r cursor @ ''>; rel='' @ Quote U rel"

definition buildLinkHeader :: "unicode \<Rightarrow> request \<Rightarrow> PageInfo \<Rightarrow> string" where
  "buildLinkHeader U r info =
     Join ((if pi_NextCursor info \<noteq> [] then [formatLink U r (pi_NextCursor info) ''next''] else [])
         @ (if pi_PrevCursor info \<noteq> [] then [formatLink U r (pi_PrevCursor info) ''prev''] else [])) '', ''"

definition ArrayJSON :: "unicode \<Rightarrow> request \<Rightarrow> body \<Rightarrow> PageInfo \<Rightarrow> response" where
  "ArrayJSON U r items info =
     (let link = buildLinkHeader U r info in
      \<lparr>rs_status = 200,
       rs_headers = [(''Content-Type'', ''application/json''), (''X-Total-Count'', Itoa (pi_Total info))]
         @ (case pi_TotalUnfiltered info of Some n \<Rightarrow> [(''X-Total-Count-Unfiltered'', Itoa n)] | None \<Rightarrow> [])
         @ (if link \<noteq> [] then [(''Link'', link)] else []),
       rs_body = items\<rparr>)"

section \<open>Query parameters\<close>

record filter_pair =
  fl_Field :: string
  fl_Value :: string

definition filterField_match :: "string \<Rightarrow> bool" where
  "filterField_match s =
     (case s of [] \<Rightarrow> False
      | c # r \<Rightarrow> is_lower_char c \<and> list_all (\<lambda>c. is_lower_char c \<or> is_digit_char c \<or> c = CHR ''_'') r)"

definition filterValue_match :: "string \<Rightarrow> bool" where
  "filterValue_match s =
     (s \<noteq> [] \<and> list_all (\<lambda>c. is_alpha_char c \<or> is_digit_char c \<or> c = CHR ''_'' \<or> c = CHR ''-'') s)"

text \<open>The loop of \<^verbatim>\<open>splitOnce\<close>: position \<open>i\<close>, the rest of the string, and the index found so far;
  \<open>None\<close> is the early return on a second separator.\<close>

fun split_scan :: "string \<Rightarrow> char \<Rightarrow> nat \<Rightarrow> nat option \<Rightarrow> nat option option" where
  "split_scan [] sep i idx = Some idx"
| "split_scan (c # r) sep i idx =
     (if c = sep then (if idx \<noteq> None then None else split_scan r sep (Suc i) (Some i))
      else split_scan r sep (Suc i) idx)"

definition splitOnce :: "string \<Rightarrow> char \<Rightarrow> (string \<times> string) option" where
  "splitOnce s sep =
     (case split_scan s sep 0 None of
        Some (Some idx) \<Rightarrow> Some (take idx s, drop (idx + 1) s)
      | _ \<Rightarrow> None)"

definition parseFilter :: "string \<Rightarrow> filter_pair result" where
  "parseFilter s =
     (if s = [] then Inl (New ''empty'')
      else (case splitOnce s CHR '':'' of
              None \<Rightarrow> Inl (Errorf [Lit ''missing ':' separator in '', Quo s])
            | Some (fld, val) \<Rightarrow>
                if fld = [] then Inl (Errorf [Lit ''empty field in '', Quo s])
                else if val = [] then Inl (Errorf [Lit ''empty value in '', Quo s])
                else if \<not> filterField_match fld then
                  Inl (Errorf [Lit ''field '', Quo fld, Lit '' does not match '', Lit ''^[a-z][a-z0-9_]*$''])
                else if \<not> filterValue_match val then
                  Inl (Errorf [Lit ''value '', Quo val, Lit '' does not match '', Lit ''^[a-zA-Z0-9_-]+$''])
                else Inr \<lparr>fl_Field = fld, fl_Value = val\<rparr>))"

fun parse_filters_from :: "nat \<Rightarrow> string list \<Rightarrow> filter_pair list result" where
  "parse_filters_from i [] = Inr []"
| "parse_filters_from i (v # vs) =
     (case parseFilter v of
        Inl err \<Rightarrow> Inl (Errorf [Wrap (Sentinel ErrBadFilter), Lit '': index '', Dec (int i), Lit '': '', Wrap err])
      | Inr f \<Rightarrow> bindR (parse_filters_from (Suc i) vs) (\<lambda>fs. Inr (f # fs)))"

definition parseFilters :: "string list \<Rightarrow> filter_pair list result" where
  "parseFilters raw = parse_filters_from 0 raw"

definition parseSort :: "string \<Rightarrow> Sort result" where
  "parseSort raw =
     (case ParseSort raw of
        Inl err \<Rightarrow> Inl (Errorf [Wrap (Sentinel ErrBadSort), Lit '': '', Wrap err])
      | Inr s \<Rightarrow> Inr s)"

definition parse_limit :: "Values \<Rightarrow> int result" where
  "parse_limit q =
     (let v = ValuesGet q ''limit'';
          bad = Inl (Errorf [Wrap (Sentinel ErrInvalidInput), Lit '': limit must be 1..'', Dec MaxListLimit]) in
      if v \<noteq> [] then
        (case Atoi v of None \<Rightarrow> bad | Some n \<Rightarrow> if n < 1 \<or> n > MaxListLimit then bad else Inr n)
      else Inr 0)"

abbreviation invalid_input :: "goerr \<Rightarrow> goerr" where
  "invalid_input err \<equiv> Errorf [Wrap (Sentinel ErrInvalidInput), Lit '': '', Wrap err]"

definition parse_cursor :: "decoder_texts \<Rightarrow> Values \<Rightarrow> Cursor option result" where
  "parse_cursor X q =
     (case Decode X (ValuesGet q ''cursor'') of Inl err \<Rightarrow> Inl (invalid_input err) | Inr c \<Rightarrow> Inr c)"

definition parseListQuery :: "decoder_texts \<Rightarrow> request \<Rightarrow> (int \<times> Cursor option) result" where
  "parseListQuery X r =
     (let q = r_Query r in
      bindR (parse_limit q) (\<lambda>limit. bindR (parse_cursor X q) (\<lambda>cur. Inr (limit, cur))))"

record listAllQuery =
  la_Limit :: int
  la_Cursor :: "Cursor option"
  la_TypeIDs :: "string list"
  la_Sort :: Sort
  la_HasFilter :: bool

fun filter_types :: "Registry \<Rightarrow> filter_pair list \<Rightarrow> string list result" where
  "filter_types reg [] = Inr []"
| "filter_types reg (f # fs) =
     (if fl_Field f \<noteq> ''type'' then
        Inl (Errorf [Wrap (Sentinel ErrInvalidInput), Lit '': filter field '', Quo (fl_Field f),
          Lit '' not supported (phase 1: only 'type')''])
      else if RegGet reg (fl_Value f) = None then
        Inl (Errorf [Wrap (Sentinel ErrInvalidInput), Lit '': unknown type '', Quo (fl_Value f)])
      else bindR (filter_types reg fs) (\<lambda>tys. Inr (fl_Value f # tys)))"

definition wrap_input :: "'a result \<Rightarrow> 'a result" where
  "wrap_input m = (case m of Inl err \<Rightarrow> Inl (invalid_input err) | Inr v \<Rightarrow> Inr v)"

definition parseListAllQuery :: "decoder_texts \<Rightarrow> Registry \<Rightarrow> request \<Rightarrow> listAllQuery result" where
  "parseListAllQuery X reg r =
     (let q = r_Query r in
      bindR (parse_limit q) (\<lambda>limit.
      bindR (parse_cursor X q) (\<lambda>cur.
      bindR (wrap_input (parseFilters (values_of q ''filter''))) (\<lambda>filters.
      bindR (filter_types reg filters) (\<lambda>typeIDs.
      bindR (wrap_input (parseSort (ValuesGet q ''sort''))) (\<lambda>srt.
        let out = \<lparr>la_Limit = limit, la_Cursor = cur, la_TypeIDs = typeIDs, la_Sort = srt,
              la_HasFilter = (length filters > 0)\<rparr> in
        case cur of None \<Rightarrow> Inr out
        | Some c \<Rightarrow>
            if cur_sort c \<noteq> SortRaw [] \<and> cur_sort c \<noteq> srt then
              Inl (Errorf [Wrap (Sentinel ErrInvalidInput), Lit '': '', Wrap (Sentinel ErrCursorSortMismatch),
                Lit '': cursor='', Lit (sort_text (cur_sort c)), Lit '', request='', Lit (sort_text srt)])
            else Inr out))))))"

section \<open>Handlers\<close>

definition route_type :: "request \<Rightarrow> string" where
  "route_type r = rt_TypeID (fst (ctx_From (r_ctx r)))"

definition reply :: "unicode \<Rightarrow> request \<Rightarrow> 'a result \<Rightarrow> ('a \<Rightarrow> response) \<Rightarrow> response" where
  "reply U r m f = (case m of Inl err \<Rightarrow> err_Write U r err | Inr v \<Rightarrow> f v)"

definition docs_Get :: "unicode \<Rightarrow> docs_ops \<Rightarrow> request \<Rightarrow> response" where
  "docs_Get U st r =
     (let i = Canonical U (route_type r) (r_PathID r)
      in reply U r (svc_Get st i) (\<lambda>doc. render_JSON 200 (BDoc doc)))"

definition writePageWithUnfiltered :: "unicode \<Rightarrow> request \<Rightarrow> Page \<Rightarrow> int option \<Rightarrow> response" where
  "writePageWithUnfiltered U r page unfilteredTotal =
     (let info = \<lparr>pi_Total = pg_total page, pi_NextCursor = Encode (pg_next page), pi_PrevCursor = [],
           pi_TotalUnfiltered = unfilteredTotal\<rparr>
      in ArrayJSON U r (BDocs (pg_items page)) info)"

definition writePage :: "unicode \<Rightarrow> request \<Rightarrow> Page \<Rightarrow> response" where
  "writePage U r page = writePageWithUnfiltered U r page None"

definition docs_ListByType :: "unicode \<Rightarrow> decoder_texts \<Rightarrow> Registry \<Rightarrow> docs_ops \<Rightarrow> request \<Rightarrow> response" where
  "docs_ListByType U X reg st r =
     reply U r (parseListQuery X r) (\<lambda>(limit, cur).
     reply U r (svc_ListByType reg (op_List st) (route_type r) limit cur) (\<lambda>page.
     writePage U r page))"

definition docs_ListAll :: "unicode \<Rightarrow> decoder_texts \<Rightarrow> Registry \<Rightarrow> docs_ops \<Rightarrow> request \<Rightarrow> response" where
  "docs_ListAll U X reg st r =
     reply U r (parseListAllQuery X reg r) (\<lambda>q.
     reply U r (svc_ListAll (op_List st) (la_Limit q) (la_Cursor q) (la_TypeIDs q) (la_Sort q)) (\<lambda>page.
     if la_HasFilter q
     then reply U r (svc_CountAll st) (\<lambda>n. writePageWithUnfiltered U r page (Some n))
     else writePageWithUnfiltered U r page None))"

definition docs_Links :: "unicode \<Rightarrow> docs_ops \<Rightarrow> request \<Rightarrow> response" where
  "docs_Links U st r =
     (let i = Canonical U (route_type r) (r_PathID r)
      in reply U r (svc_Links st i) (\<lambda>links. render_JSON 200 (BLinks links)))"

definition docs_Discussion :: "unicode \<Rightarrow> docs_ops \<Rightarrow> request \<Rightarrow> response" where
  "docs_Discussion U st r =
     (let i = Canonical U (route_type r) (r_PathID r)
      in reply U r (svc_Discussion st i) (\<lambda>d. render_JSON 200 (BDiscussion d)))"

definition docs_Authors :: "unicode \<Rightarrow> docs_ops \<Rightarrow> request \<Rightarrow> response" where
  "docs_Authors U st r =
     (let i = Canonical U (route_type r) (r_PathID r)
      in reply U r (svc_Authors st i) (\<lambda>authors. render_JSON 200 (BAuthors authors)))"

definition docs_Revisions :: "unicode \<Rightarrow> docs_ops \<Rightarrow> request \<Rightarrow> response" where
  "docs_Revisions U st r =
     (let i = Canonical U (route_type r) (r_PathID r)
      in reply U r (svc_Revisions st i) (\<lambda>revs. render_JSON 200 (BRevisions revs)))"

definition search_Query :: "unicode \<Rightarrow> decoder_texts \<Rightarrow> Registry \<Rightarrow> search_client \<Rightarrow> request \<Rightarrow> response" where
  "search_Query U X reg cl r =
     reply U r (parseListQuery X r) (\<lambda>(limit, _).
     let q = r_Query r in
     reply U r (svc_Search reg cl \<lparr>sq_q = ValuesGet q ''q'', sq_type = ValuesGet q ''type'',
       sq_limit = limit, sq_cursor = ValuesGet q ''cursor''\<rparr>) (\<lambda>page.
     ArrayJSON U r (BHits (sp_hits page)) \<lparr>pi_Total = sp_total page, pi_NextCursor = sp_next page,
       pi_PrevCursor = [], pi_TotalUnfiltered = None\<rparr>))"

definition types_List :: "Registry \<Rightarrow> response" where
  "types_List reg =
     render_JSON 200 (BTypes (map (\<lambda>t. \<lparr>t_ID = dt_id t, t_DisplayPrefix = dt_prefix t, t_Title = dt_name t,
       t_Statuses = dt_lifecycle t\<rparr>) (RegList reg)))"

section \<open>Errors and statuses\<close>

abbreviation domain_errors :: "sentinel list" where
  "domain_errors \<equiv> [ErrNotFound, ErrInvalidInput, ErrConflict, ErrUpstream, ErrUnauthenticated, ErrRateLimited]"

text \<open>An error that wraps none of the domain sentinels is answered with status 500 and a body
  that says nothing about it: any two such errors give the same response to the same request, so no
  path, SQL text or stack trace can reach a client.\<close>

theorem internal_errors_hidden:
  assumes "list_all (\<lambda>s. \<not> error_is e s) domain_errors" and "list_all (\<lambda>s. \<not> error_is e' s) domain_errors"
  shows "err_Write U r e = err_Write U r e' \<and> rs_status (err_Write U r e) = 500"
  using assms by (simp add: err_Write_def classify_def safeDetail_def)

definition sample_request :: "string \<Rightarrow> request" where
  "sample_request q = \<lparr>r_Method = ''GET'', r_RequestURI = ''/api/v1/docs?'' @ q, r_Path = ''/docs'', r_RawPath = [], r_RawQuery = q,
     r_ForceQuery = (q = []), r_PathID = [],
     r_ctx = \<lparr>cx_route = Some \<lparr>rt_TypeID = ''rfc'', rt_Pattern = ''/api/v1/docs''\<rparr>, cx_capture = False, cx_id = None\<rparr>\<rparr>"

theorem internal_errors_hidden_witness:
  "err_Write ascii_only (sample_request []) (New ''secret dsn'') = err_Write ascii_only (sample_request []) (New ''other'')
   \<and> rs_status (err_Write ascii_only (sample_request []) (New ''secret dsn'')) = 500"
  by (rule internal_errors_hidden) simp_all

lemma status_400: "error_is e ErrInvalidInput \<Longrightarrow> \<not> error_is e ErrNotFound \<Longrightarrow> cl_status (classify e) = 400"
  by (simp add: classify_def)

lemma reply_cases: "reply U r (Inl e) f = err_Write U r e" "reply U r (Inr v) f = f v"
  by (simp_all add: reply_def)

section \<open>Query validation\<close>

lemma Decode_error: "Decode X s = Inl e \<Longrightarrow> error_is e x \<longleftrightarrow> x = ErrInvalid"
  by (auto simp: Decode_def decodeV1_def decodeLegacy_def Let_def split: option.splits if_splits)

lemma split_scan_found:
  "split_scan s sep i idx = Some (Some j) \<Longrightarrow>
   (idx = Some j \<and> sep \<notin> set s) \<or> (idx = None \<and> i \<le> j \<and> j - i < length s \<and> s ! (j - i) = sep
      \<and> sep \<notin> set (take (j - i) s) \<and> sep \<notin> set (drop (Suc (j - i)) s))"
proof (induction s sep i idx rule: split_scan.induct)
  case (1 sep i idx)
  then show ?case by simp
next
  case (2 c r sep i idx)
  show ?case
  proof (cases "c = sep")
    case True
    then have "idx = None" "split_scan r sep (Suc i) (Some i) = Some (Some j)" using 2(3) by (auto split: if_splits)
    then show ?thesis using 2(1) True by auto
  next
    case False
    then have "split_scan r sep (Suc i) idx = Some (Some j)" using 2(3) by simp
    from 2(2) [OF False this] show ?thesis
    proof
      assume "idx = Some j \<and> sep \<notin> set r"
      then show ?thesis using False by simp
    next
      assume a: "idx = None \<and> Suc i \<le> j \<and> j - Suc i < length r \<and> r ! (j - Suc i) = sep
        \<and> sep \<notin> set (take (j - Suc i) r) \<and> sep \<notin> set (drop (Suc (j - Suc i)) r)"
      then have "j - i = Suc (j - Suc i)" by linarith
      then show ?thesis using a False by simp
    qed
  qed
qed

lemma splitOnce_parts:
  assumes "splitOnce s sep = Some (a, b)"
  shows "s = a @ sep # b \<and> sep \<notin> set a \<and> sep \<notin> set b"
proof -
  obtain j where j: "split_scan s sep 0 None = Some (Some j)" "a = take j s" "b = drop (j + 1) s"
    using assms by (auto simp: splitOnce_def split: option.splits)
  note f = split_scan_found [OF j(1)]
  then have "s = take j s @ s ! j # drop (Suc j) s" using id_take_nth_drop [of j s] by simp
  then show ?thesis using f j(2,3) by simp
qed

lemma parseFilter_parts:
  "parseFilter s = Inr f \<Longrightarrow> s = fl_Field f @ CHR '':'' # fl_Value f"
  by (auto simp: parseFilter_def split: if_splits option.splits dest!: splitOnce_parts)

lemma parseFilter_error: "parseFilter s = Inl e \<Longrightarrow> \<not> error_is e x"
  by (auto simp: parseFilter_def split: if_splits option.splits)

lemma parse_filters_parts:
  "parse_filters_from i vs = Inr fs \<Longrightarrow> vs = map (\<lambda>f. fl_Field f @ CHR '':'' # fl_Value f) fs"
  by (induction i vs arbitrary: fs rule: parse_filters_from.induct)
    (auto simp: bindR_Inr split: sum.splits dest!: parseFilter_parts)

lemma parse_filters_error: "parse_filters_from i vs = Inl e \<Longrightarrow> error_is e x \<longleftrightarrow> x = ErrBadFilter"
  by (induction i vs rule: parse_filters_from.induct)
    (auto simp: bindR_Inl split: sum.splits dest!: parseFilter_error)

lemma filter_types_Inr:
  "filter_types reg fs = Inr tys \<Longrightarrow>
   map (\<lambda>f. fl_Field f @ CHR '':'' # fl_Value f) fs = map (\<lambda>t. ''type:'' @ t) tys
   \<and> list_all (\<lambda>t. RegGet reg t \<noteq> None) tys"
  by (induction fs arbitrary: tys) (auto simp: bindR_Inr split: if_splits)

text \<open>A result whose every error is answered with 400.\<close>

definition bad_input :: "'a result \<Rightarrow> bool" where
  "bad_input m = (case m of Inl e \<Rightarrow> error_is e ErrInvalidInput \<and> \<not> error_is e ErrNotFound | Inr _ \<Rightarrow> True)"

lemma bad_input_Inr [simp]: "bad_input (Inr v)"
  by (simp add: bad_input_def)

lemma bad_input_bind: "bad_input m \<Longrightarrow> (\<And>v. bad_input (f v)) \<Longrightarrow> bad_input (bindR m f)"
  by (cases m) (auto simp: bad_input_def)

lemma filter_types_bad: "bad_input (filter_types reg fs)"
  by (induction fs) (auto simp: bad_input_def bindR_def split: sum.splits)

lemma parseSort_valid: "parseSort s = Inr k \<Longrightarrow> SortValid k"
  by (auto simp: parseSort_def ParseSort_def DefaultSort_def split: if_splits)

lemma parseSort_error: "parseSort s = Inl e \<Longrightarrow> \<not> error_is e ErrNotFound"
  by (auto simp: parseSort_def ParseSort_def split: if_splits)

lemma parse_limit_Inr:
  "parse_limit q = Inr n \<Longrightarrow> n = 0 \<and> ValuesGet q ''limit'' = [] \<or> 1 \<le> n \<and> n \<le> MaxListLimit \<and> Atoi (ValuesGet q ''limit'') = Some n"
  by (auto simp: parse_limit_def Let_def split: if_splits option.splits)

lemma parse_limit_bad: "bad_input (parse_limit q)"
  by (auto simp: parse_limit_def Let_def bad_input_def split: option.splits)

lemma parse_cursor_bad: "bad_input (parse_cursor X q)"
  by (auto simp: parse_cursor_def Decode_error bad_input_def split: sum.splits)

lemma parse_cursor_Inr:
  "parse_cursor X q = Inr c \<longleftrightarrow> Decode X (ValuesGet q ''cursor'') = Inr c"
  by (auto simp: parse_cursor_def split: sum.splits)

lemma wrap_input_Inr [simp]: "wrap_input m = Inr v \<longleftrightarrow> m = Inr v"
  by (auto simp: wrap_input_def split: sum.splits)

lemma wrap_input_ok [simp]: "wrap_input (Inr v) = Inr v"
  by simp

lemma wrap_filters_bad: "bad_input (wrap_input (parseFilters vs))"
  by (auto simp: wrap_input_def bad_input_def parseFilters_def parse_filters_error split: sum.splits)

lemma wrap_sort_bad: "bad_input (wrap_input (parseSort s))"
  by (auto simp: wrap_input_def bad_input_def parseSort_error split: sum.splits)

lemma parseListAllQuery_bad: "bad_input (parseListAllQuery X reg r)"
  unfolding parseListAllQuery_def Let_def
  by (intro bad_input_bind parse_limit_bad parse_cursor_bad wrap_filters_bad filter_types_bad wrap_sort_bad)
    (auto simp: bad_input_def split: option.splits)

lemma parseListQuery_bad: "bad_input (parseListQuery X r)"
  unfolding parseListQuery_def Let_def
  by (intro bad_input_bind parse_limit_bad parse_cursor_bad) simp

text \<open>What a validated query of the cross-type list endpoint satisfies.\<close>

definition list_query_ok :: "decoder_texts \<Rightarrow> Registry \<Rightarrow> Values \<Rightarrow> listAllQuery \<Rightarrow> bool" where
  "list_query_ok X reg q out =
     ((la_Limit out = 0 \<and> ValuesGet q ''limit'' = []
        \<or> 1 \<le> la_Limit out \<and> la_Limit out \<le> MaxListLimit \<and> Atoi (ValuesGet q ''limit'') = Some (la_Limit out))
      \<and> Decode X (ValuesGet q ''cursor'') = Inr (la_Cursor out)
      \<and> values_of q ''filter'' = map (\<lambda>t. ''type:'' @ t) (la_TypeIDs out)
      \<and> list_all (\<lambda>t. RegGet reg t \<noteq> None) (la_TypeIDs out)
      \<and> ParseSort (ValuesGet q ''sort'') = Inr (la_Sort out)
      \<and> (case la_Cursor out of None \<Rightarrow> True | Some c \<Rightarrow> cur_sort c = la_Sort out)
      \<and> la_HasFilter out = (la_TypeIDs out \<noteq> []))"

text \<open>The cross-type list endpoint either answers 400 or works from a fully validated query: a
  limit between 1 and 200 (0 when absent), filters that are all \<^verbatim>\<open>type:<id>\<close> with a registered id,
  a sort of the enum, and a cursor that decodes and was minted under that same sort.\<close>

theorem list_all_query_validated:
  "case parseListAllQuery X reg r of
     Inl e \<Rightarrow> cl_status (classify e) = 400
   | Inr out \<Rightarrow> list_query_ok X reg (r_Query r) out"
proof (cases "parseListAllQuery X reg r")
  case (Inl e)
  then show ?thesis using parseListAllQuery_bad [of X reg r] by (simp add: status_400 bad_input_def)
next
  case (Inr out)
  then obtain n c fs tys k where p: "parse_limit (r_Query r) = Inr n" "parse_cursor X (r_Query r) = Inr c"
    "parseFilters (values_of (r_Query r) ''filter'') = Inr fs" "filter_types reg fs = Inr tys"
    "parseSort (ValuesGet (r_Query r) ''sort'') = Inr k"
    and out: "out = \<lparr>la_Limit = n, la_Cursor = c, la_TypeIDs = tys, la_Sort = k, la_HasFilter = (length fs > 0)\<rparr>"
    and cs: "\<forall>x. c = Some x \<longrightarrow> cur_sort x = SortRaw [] \<or> cur_sort x = k"
    by (fastforce simp: parseListAllQuery_def Let_def bindR_Inr split: option.splits if_splits)
  have "ParseSort (ValuesGet (r_Query r) ''sort'') = Inr k" using p(5) by (auto simp: parseSort_def split: sum.splits)
  moreover have "fs \<noteq> [] \<longleftrightarrow> tys \<noteq> []" using filter_types_Inr [OF p(4)] by auto
  moreover have "case c of None \<Rightarrow> True | Some c \<Rightarrow> cur_sort c = k"
    using cs decode_valid [of X "ValuesGet (r_Query r) ''cursor''"] p(2)
    by (auto simp: parse_cursor_Inr split: option.splits)
  ultimately show ?thesis
    using Inr p out parse_limit_Inr [OF p(1)] filter_types_Inr [OF p(4)]
      parse_filters_parts [OF p(3) [unfolded parseFilters_def]]
    by (cases c) (simp_all add: list_query_ok_def parse_cursor_Inr)
qed

section \<open>Following the Link header\<close>

text \<open>The next link of a list response can be followed: its query string parses to the parameters
  of the request with the cursor replaced by the new one, every other parameter with the same values
  in the same order, and its path is that of the original request line, before any prefix was
  stripped.\<close>

theorem next_link_followable:
  "\<exists>q. link_url r c = (case requestURIPath r of Some p \<Rightarrow> p | None \<Rightarrow> r_Path r) @ ''?'' @ q
     \<and> values_of (ParseQuery q) k = (if k = ''cursor'' then [c] else values_of (r_Query r) k)"
proof -
  let ?q = "ValuesEncode (ValuesSet (r_Query r) ''cursor'' c)"
  have p: "ParseQuery ?q = sort_key fst (ValuesSet (r_Query r) ''cursor'' c)" by (rule parse_encode)
  then have v: "values_of (ParseQuery ?q) k = (if k = ''cursor'' then [c] else values_of (r_Query r) k)" for k
    by (simp add: values_of_sort values_of_Set)
  have "values_of (ParseQuery ?q) ''cursor'' = [c]" using v [of "''cursor''"] by simp
  moreover have "ParseQuery [] = []" by (simp add: ParseQuery_def parse_segment_def map_filter_def)
  ultimately have "?q \<noteq> []" by (auto simp: values_of_def)
  then show ?thesis using v [of k] by (auto simp: link_url_def Let_def)
qed

text \<open>The request of a client that follows the next link.\<close>

definition follow_link :: "request \<Rightarrow> string \<Rightarrow> request" where
  "follow_link r c = r\<lparr>r_RequestURI := link_url r c, r_RawQuery := ValuesEncode (ValuesSet (r_Query r) ''cursor'' c)\<rparr>"

lemma follow_values:
  "values_of (r_Query (follow_link r c)) k = (if k = ''cursor'' then [c] else values_of (r_Query r) k)"
  by (simp add: follow_link_def parse_encode values_of_sort values_of_Set)

lemma follow_get:
  "ValuesGet (r_Query (follow_link r c)) k = (if k = ''cursor'' then c else ValuesGet (r_Query r) k)"
  by (simp add: ValuesGet_def follow_values)

text \<open>Following the link of a validated query gives the same validated query at the new cursor.\<close>

lemma parse_follow:
  assumes "parseListAllQuery X reg r = Inr q" and "Decode X tok = Inr (Some c)" and "cur_sort c = la_Sort q"
  shows "parseListAllQuery X reg (follow_link r tok) = Inr (q\<lparr>la_Cursor := Some c\<rparr>)"
proof -
  have l: "parse_limit (r_Query (follow_link r tok)) = parse_limit (r_Query r)"
    by (simp add: parse_limit_def follow_get)
  have c: "parse_cursor X (r_Query (follow_link r tok)) = Inr (Some c)"
    by (simp add: parse_cursor_def follow_get assms(2))
  obtain n c' fs tys k where p: "parse_limit (r_Query r) = Inr n"
    "parseFilters (values_of (r_Query r) ''filter'') = Inr fs" "filter_types reg fs = Inr tys"
    "parseSort (ValuesGet (r_Query r) ''sort'') = Inr k"
    and q: "q = \<lparr>la_Limit = n, la_Cursor = c', la_TypeIDs = tys, la_Sort = k, la_HasFilter = (length fs > 0)\<rparr>"
    using assms(1) by (fastforce simp: parseListAllQuery_def Let_def bindR_Inr split: option.splits if_splits)
  show ?thesis
    using p q assms(3) by (simp add: parseListAllQuery_def Let_def l c follow_values follow_get)
qed

section \<open>List responses over the memory store\<close>

definition query_config :: "listAllQuery \<Rightarrow> ListConfig" where
  "query_config q = \<lparr>lc_sort = la_Sort q, lc_types = la_TypeIDs q, lc_limit = normalizeLimit (la_Limit q),
     lc_cursor = la_Cursor q\<rparr>"

lemma parseListAllQuery_sort: "parseListAllQuery X reg r = Inr q \<Longrightarrow> SortValid (la_Sort q)"
  by (fastforce simp: parseListAllQuery_def Let_def bindR_Inr split: option.splits if_splits dest: parseSort_valid)

lemma ListAll_mem:
  assumes "mem_wf s" and "parseListAllQuery X reg r = Inr q"
  shows "\<exists>n. docs_ListAll U X reg (mem_ops s) r =
    writePageWithUnfiltered U r (spec_page (<) (mem_contents s) (query_config q)) n"
proof -
  have v: "SortValid (la_Sort q)" using assms(2) by (rule parseListAllQuery_sort)
  then have e: "effective_sort (la_Sort q) = la_Sort q" by (auto simp: effective_sort_def)
  have "svc_ListAll (mem_List s) (la_Limit q) (la_Cursor q) (la_TypeIDs q) (la_Sort q) =
      Inr (spec_page (<) (mem_contents s) (query_config q))"
    using msvc.ListAll_page [OF assms(1), where s = "la_Sort q" and c = "la_Cursor q" and n = "la_Limit q" and tys = "la_TypeIDs q"] v e
    by (simp add: query_config_def)
  then show ?thesis
    using assms(2) by (auto simp: docs_ListAll_def reply_cases mem_ops_def svc_CountAll_def mem_CountAll_def)
qed

lemma minted_cursor:
  "pg_next (spec_page ilt docs cfg) = Some c \<Longrightarrow> \<exists>d. c = nextCursor (lc_sort cfg) d"
  by (auto simp: spec_page_def page_of_def split: prod.splits if_splits)

lemma nextCursor_normal: "SortValid s \<Longrightarrow> normal (nextCursor s d) = nextCursor s d \<and> cur_sort (nextCursor s d) = s"
  by (cases s) (simp_all add: normal_def Let_def)

lemma ArrayJSON_parts [simp]:
  "rs_status (ArrayJSON U r b i) = 200" "rs_body (ArrayJSON U r b i) = b"
  by (simp_all add: ArrayJSON_def Let_def)

end
