(* ===== verification/MeiliQuery.thy ===== *)
theory MeiliQuery
  imports MeiliIndex Http
begin

text \<open>
  The read side of the search index, \<^verbatim>\<open>internal/search/meilisearch/query.go\<close>: the offset cursor, the
  filter, the decoding of hits with their highlights, and the query. The search call of the SDK is an
  argument; a hit is the list of its members. Floating-point scores are not read by this code.
\<close>

section \<open>Offset cursors\<close>

definition encodeCursor :: "int \<Rightarrow> string" where
  "encodeCursor offset = EncodeToString (''off:'' @ Itoa offset)"

text \<open>\<open>be\<close> is the error of the base64 decoder.\<close>

definition decodeCursor :: "(string \<Rightarrow> goerr) \<Rightarrow> string \<Rightarrow> int result" where
  "decodeCursor be cursor =
     (if cursor = [] then Inr 0
      else (case DecodeString cursor of
              None \<Rightarrow> Inl (Errorf [Lit ''cursor: '', Wrap (be cursor)])
            | Some b \<Rightarrow>
                if \<not> HasPrefix b ''off:'' then Inl (Errorf [Lit ''cursor: invalid shape '', Quo b])
                else (case Atoi (TrimPrefix b ''off:'') of
                        None \<Rightarrow> Inl (Errorf [Lit ''cursor: invalid offset '', Quo b])
                      | Some n \<Rightarrow> if n < 0 then Inl (Errorf [Lit ''cursor: invalid offset '', Quo b]) else Inr n)))"

definition buildFilter :: "unicode \<Rightarrow> string \<Rightarrow> string" where
  "buildFilter U typeID =
     Join ((''visibility = '' @ Quote U visibilityInternal) # (if typeID \<noteq> [] then [''type = '' @ Quote U typeID] else [])) '' AND ''"

definition meili_normalizeLimit :: "int \<Rightarrow> int" where
  "meili_normalizeLimit limit = (if limit \<le> 0 then 20 else if limit > 100 then 100 else limit)"

section \<open>Hits\<close>

type_synonym hit = "(string \<times> json) list"

record indexHit =
  ih_ID :: string
  ih_ParentID :: string
  ih_Type :: string
  ih_Title :: string
  ih_SectionHeading :: string
  ih_SectionSlug :: string
  ih_BodyExcerpt :: string
  ih_Status :: string
  ih_Labels :: "string list"
  ih_AuthorHandles :: "string list"
  ih_CreatedAt :: int
  ih_UpdatedAt :: int

record formatted =
  fo_Title :: string
  fo_BodyExcerpt :: string
  fo_SectionHeading :: string

definition DecodeInto :: "hit \<Rightarrow> indexHit option" where
  "DecodeInto h =
     (case (str_field ''id'' h, str_field ''parent_id'' h, str_field ''type'' h, str_field ''title'' h, str_field ''section_heading'' h,
            str_field ''section_slug'' h) of
        (Some i, Some p, Some t, Some ti, Some sh, Some ss) \<Rightarrow>
          (case (str_field ''body_excerpt'' h, str_field ''status'' h, field dec_strings ''labels'' [] h,
                 field dec_strings ''author_handles'' [] h, int_field ''created_at'' h, int_field ''updated_at'' h) of
             (Some b, Some st, Some l, Some a, Some c, Some u) \<Rightarrow>
               Some \<lparr>ih_ID = i, ih_ParentID = p, ih_Type = t, ih_Title = ti, ih_SectionHeading = sh, ih_SectionSlug = ss,
                 ih_BodyExcerpt = b, ih_Status = st, ih_Labels = l, ih_AuthorHandles = a, ih_CreatedAt = c, ih_UpdatedAt = u\<rparr>
           | _ \<Rightarrow> None)
      | _ \<Rightarrow> None)"

definition decodeFormatted :: "hit \<Rightarrow> formatted" where
  "decodeFormatted h =
     (case map_of (rev h) ''_formatted'' of
        None \<Rightarrow> \<lparr>fo_Title = [], fo_BodyExcerpt = [], fo_SectionHeading = []\<rparr>
      | Some raw \<Rightarrow>
          (case Option.bind (obj_members raw) (\<lambda>ms.
              case (str_field ''title'' ms, str_field ''body_excerpt'' ms, str_field ''section_heading'' ms) of
                (Some t, Some b, Some s) \<Rightarrow> Some \<lparr>fo_Title = t, fo_BodyExcerpt = b, fo_SectionHeading = s\<rparr>
              | _ \<Rightarrow> None) of
             None \<Rightarrow> \<lparr>fo_Title = [], fo_BodyExcerpt = [], fo_SectionHeading = []\<rparr>
           | Some f \<Rightarrow> f))"

fun firstNonEmpty :: "string list \<Rightarrow> string" where
  "firstNonEmpty [] = []"
| "firstNonEmpty (s # ss) = (if s \<noteq> [] then s else firstNonEmpty ss)"

text \<open>The matches of \<^verbatim>\<open><em>([^<]+)</em>\<close> from left to right.\<close>

definition em_match :: "string \<Rightarrow> (string \<times> string) option" where
  "em_match s =
     (if \<not> prefix ''<em>'' s then None
      else let r = drop 4 s; t = takeWhile (\<lambda>c. c \<noteq> CHR ''<'') r; r' = dropWhile (\<lambda>c. c \<noteq> CHR ''<'') r
           in if t = [] \<or> \<not> prefix ''</em>'' r' then None else Some (t, drop 5 r'))"

lemma em_match_length: "em_match s = Some (t, r) \<Longrightarrow> length r < length s"
proof -
  assume a: "em_match s = Some (t, r)"
  then have "s \<noteq> []" and r: "r = drop 5 (dropWhile (\<lambda>c. c \<noteq> CHR ''<'') (drop 4 s))"
    by (auto simp: em_match_def Let_def split: if_splits)
  moreover have "length r \<le> length s - 4"
    unfolding r using length_dropWhile_le [of "\<lambda>c. c \<noteq> CHR ''<''" "drop 4 s"] by simp
  ultimately show ?thesis by (cases s) auto
qed

function em_terms :: "string \<Rightarrow> string list" where
  "em_terms [] = []"
| "em_terms (c # s) = (case em_match (c # s) of Some (t, r) \<Rightarrow> t # em_terms r | None \<Rightarrow> em_terms s)"
  by pat_completeness auto
termination by (relation "measure length") (auto dest: em_match_length)

definition add_term :: "unicode \<Rightarrow> string \<Rightarrow> string list \<Rightarrow> string list" where
  "add_term U m terms =
     (let term = ToLower U (TrimSpace U m) in if term = [] \<or> term \<in> set terms then terms else terms @ [term])"

definition highlightsFromFormatted :: "unicode \<Rightarrow> hit \<Rightarrow> string \<Rightarrow> string \<Rightarrow> string \<Rightarrow> string \<times> string list" where
  "highlightsFromFormatted U h rawExcerpt rawTitle rawHeading =
     (let f = decodeFormatted h
      in (firstNonEmpty [fo_BodyExcerpt f, fo_Title f, fo_SectionHeading f, rawExcerpt, rawTitle, rawHeading],
          fold (\<lambda>src. fold (add_term U) (em_terms src)) [fo_BodyExcerpt f, fo_Title f, fo_SectionHeading f] []))"

definition unixToTime :: "int \<Rightarrow> time" where
  "unixToTime sec = (sec + 62135596800) * 1000000000"

text \<open>\<open>de\<close> is the error of the JSON decoder.\<close>

definition resultFromHit :: "unicode \<Rightarrow> goerr \<Rightarrow> hit \<Rightarrow> SearchResult result" where
  "resultFromHit U de h =
     (case DecodeInto h of
        None \<Rightarrow> Inl (Errorf [Lit ''decode hit: '', Wrap de])
      | Some raw \<Rightarrow>
          if ih_ID raw = [] then Inl (New ''decode hit: empty id'')
          else let doc = zero_document\<lparr>d_id := ih_ParentID raw, d_type := ih_Type raw, d_title := ih_Title raw,
                     d_status := ih_Status raw, d_labels := ih_Labels raw,
                     d_created := (if ih_CreatedAt raw > 0 then unixToTime (ih_CreatedAt raw) else 0),
                     d_updated := (if ih_UpdatedAt raw > 0 then unixToTime (ih_UpdatedAt raw) else 0),
                     d_authors := map (\<lambda>handle. zero_author\<lparr>a_handle := handle\<rparr>) (ih_AuthorHandles raw)\<rparr>
               in (case highlightsFromFormatted U h (ih_BodyExcerpt raw) (ih_Title raw) (ih_SectionHeading raw) of
                     (snippet, terms) \<Rightarrow>
                       Inr \<lparr>res_document = doc, res_score = 0, res_snippet = snippet, res_terms = terms,
                         res_heading = ih_SectionHeading raw, res_slug = ih_SectionSlug raw\<rparr>))"

section \<open>Query\<close>

record meili_request =
  rq_Query :: string
  rq_Offset :: int
  rq_Limit :: int
  rq_Filter :: string

record meili_response =
  rp_Hits :: "hit list"
  rp_Estimated :: int
  rp_Total :: int

definition meili_Query :: "unicode \<Rightarrow> (string \<Rightarrow> goerr) \<Rightarrow> goerr \<Rightarrow> (meili_request \<Rightarrow> meili_response result) \<Rightarrow> search_client" where
  "meili_Query U be de srch q =
     (case decodeCursor be (sq_cursor q) of
        Inl e \<Rightarrow> Inl (Errorf [Wrap (Sentinel ErrInvalidInput), Lit '': '', Wrap e])
      | Inr offset \<Rightarrow>
          let limit = meili_normalizeLimit (sq_limit q) in
          (case srch \<lparr>rq_Query = sq_q q, rq_Offset = offset, rq_Limit = limit, rq_Filter = buildFilter U (sq_type q)\<rparr> of
             Inl e \<Rightarrow> Inl (Errorf [Lit ''meilisearch search: '', Wrap e])
           | Inr resp \<Rightarrow>
               bindR (foldr (\<lambda>h rs. bindR (resultFromHit U de h) (\<lambda>r. bindR rs (\<lambda>rs. Inr (r # rs)))) (rp_Hits resp) (Inr [])) (\<lambda>hits.
                 let tot = (if rp_Total resp > 0 then rp_Total resp else rp_Estimated resp)
                 in Inr \<lparr>sp_hits = hits,
                      sp_next = (if int (length hits) = limit \<and> offset + limit < tot then encodeCursor (offset + limit) else []),
                      sp_total = tot\<rparr>)))"

section \<open>Paging\<close>

lemma offset_roundtrip:
  assumes "0 \<le> n" and "n \<le> int64_max"
  shows "decodeCursor be (encodeCursor n) = Inr n"
proof -
  have "Atoi (Itoa n) = Some n" using assms by (intro Atoi_Itoa) (simp_all add: int64_min_def)
  then show ?thesis
    using assms by (simp add: decodeCursor_def encodeCursor_def decode_encode encode_nonempty HasPrefix_def TrimPrefix_def)
qed

lemma off_not_json: "parse_json (''off:'' @ s) = None"
  by (simp add: parse_json_def parse_num_def num_int_def is_ws_def is_digit_char_def)

lemma offset_not_listable: "\<exists>fs. Decode X (encodeCursor n) = Inl (invalid fs)"
  using off_not_json [of "Itoa n"]
  by (auto simp: Decode_def encodeCursor_def decode_encode encode_nonempty probe_version_def)

lemma next_is_offset:
  assumes "meili_Query U be de srch q = Inr page" and "sp_next page \<noteq> []"
  shows "\<exists>n. sp_next page = encodeCursor n"
  using assms by (auto simp: meili_Query_def bindR_Inr Let_def split: sum.splits if_splits)

lemma parse_limit_error: "parse_limit q = Inl e \<Longrightarrow> error_is e ErrInvalidInput \<and> \<not> error_is e ErrNotFound"
  by (auto simp: parse_limit_def Let_def split: option.splits if_splits)

text \<open>C29: The second page of a search cannot be fetched. Whenever a search has a next page, the request
  that carries the returned cursor is answered with status 400, whatever the rest of it is: the search
  client writes offset cursors, while the handler first decodes the parameter as a cursor of the list
  endpoints, which an offset cursor never is.\<close>

theorem search_next_page_rejected:
  assumes "meili_Query U be de srch q = Inr page" and "sp_next page \<noteq> []"
    and "ValuesGet (r_Query r) ''cursor'' = sp_next page"
  shows "rs_status (search_Query U X reg cl r) = 400"
proof -
  obtain n where n: "sp_next page = encodeCursor n" using next_is_offset [OF assms(1,2)] by blast
  obtain fs where d: "Decode X (sp_next page) = Inl (invalid fs)" using offset_not_listable n by metis
  have "error_is (invalid_input (invalid fs)) ErrInvalidInput \<and> \<not> error_is (invalid_input (invalid fs)) ErrNotFound"
    using Decode_error [OF d, of ErrNotFound] by simp
  then obtain e where "parseListQuery X r = Inl e" "error_is e ErrInvalidInput" "\<not> error_is e ErrNotFound"
    using parse_limit_error d
    by (cases "parse_limit (r_Query r)") (auto simp: parseListQuery_def parse_cursor_def assms(3) Let_def)
  then show ?thesis by (simp add: search_Query_def reply_cases err_Write_def status_400 Let_def)
qed

definition one_of_three :: "meili_request \<Rightarrow> meili_response result" where
  "one_of_three req = Inr \<lparr>rp_Hits = [[(''id'', JStr ''RFC-0001''), (''parent_id'', JStr ''RFC-0001'')]], rp_Estimated = 3, rp_Total = 0\<rparr>"

definition first_search :: SearchQuery where
  "first_search = \<lparr>sq_q = ''x'', sq_type = [], sq_limit = 1, sq_cursor = []\<rparr>"

theorem search_next_page_rejected_witness:
  "rs_status (search_Query ascii_only no_texts (registry_of ascii_only default_types)
     (meili_Query ascii_only New (New []) one_of_three) (sample_request ''cursor=b2ZmOjE'')) = 400"
proof -
  obtain page where p: "meili_Query ascii_only New (New []) one_of_three first_search = Inr page"
    and n: "sp_next page = encodeCursor 1"
  proof -
    have "\<exists>r. resultFromHit ascii_only (New []) [(''id'', JStr ''RFC-0001''), (''parent_id'', JStr ''RFC-0001'')] = Inr r"
    proof -
      have "isl (resultFromHit ascii_only (New []) [(''id'', JStr ''RFC-0001''), (''parent_id'', JStr ''RFC-0001'')]) = False" by code_simp
      then show ?thesis by (metis isl_def sum.exhaust)
    qed
    then show ?thesis
      using that by (auto simp: meili_Query_def first_search_def one_of_three_def decodeCursor_def meili_normalizeLimit_def bindR_Inr)
  qed
  have "ValuesGet (r_Query (sample_request ''cursor=b2ZmOjE'')) ''cursor'' = encodeCursor 1" by code_simp
  moreover have "encodeCursor 1 \<noteq> []" by (simp add: encodeCursor_def encode_nonempty)
  ultimately show ?thesis by (intro search_next_page_rejected [OF p]) (simp_all add: n)
qed

section \<open>From the index to a result\<close>

lemma field_unique:
  "distinct (map fold_name (map fst m)) \<Longrightarrow> (name, v) \<in> set m \<Longrightarrow> dec old v = Some new \<Longrightarrow> field dec name old m = Some new"
proof (induction m)
  case (Cons kv m)
  obtain k w where kv: "kv = (k, w)" by (cases kv)
  show ?case
  proof (cases "(name, v) = kv")
    case True
    then have "list_all (\<lambda>(k, v). \<not> field_match name k) m"
      using Cons.prems(1) by (auto simp: kv list_all_iff field_match_def image_iff)
    then show ?thesis using True Cons.prems(3) field_no_match by (auto simp: kv)
  next
    case False
    then have "(name, v) \<in> set m" using Cons.prems(2) by simp
    then have "\<not> field_match name k" using Cons.prems(1) by (force simp: kv field_match_def image_iff)
    then show ?thesis using Cons \<open>(name, v) \<in> set m\<close> by (simp add: kv)
  qed
qed simp

lemma field_update_other: "\<not> field_match name k \<Longrightarrow> field dec name old (AList.update k v m) = field dec name old m"
  by (induction m arbitrary: old) (auto split: option.split)

lemma field_extensions:
  "(\<And>k. k \<in> fst ` set ext \<Longrightarrow> \<not> field_match name k) \<Longrightarrow>
   field dec name old (fold (\<lambda>(k, v). AList.update k v) ext m) = field dec name old m"
  by (induction ext arbitrary: m) (auto simp: field_update_other)

definition hit_names :: "string list" where
  "hit_names = [''id'', ''parent_id'', ''type'', ''title'', ''section_heading'', ''body_excerpt'', ''status'', ''labels'',
     ''author_handles'', ''visibility'', ''created_at'', ''updated_at'', ''section_slug'']"

lemma ext_no_match: "name \<in> set hit_names \<Longrightarrow> prefix ''ext_'' k \<Longrightarrow> \<not> field_match name k"
  by (auto simp: hit_names_def prefix_def field_match_def upper_char_def is_lower_char_def)

lemma hit_names_distinct: "distinct (map fold_name hit_names)"
  by code_simp

lemma strings_decode: "dec_strings old (JStrs ss) = Some ss"
proof -
  have "those (map (dec_string []) (map JStr ss)) = Some ss" by (induction ss) simp_all
  then show ?thesis by (simp add: JStrs_def)
qed

text \<open>The members of a record without its extensions.\<close>

definition base_members :: "indexDocument \<Rightarrow> hit" where
  "base_members d = [(''id'', JStr (ix_ID d)), (''parent_id'', JStr (ix_ParentID d)), (''type'', JStr (ix_Type d)), (''title'', JStr (ix_Title d)),
     (''section_heading'', JStr (ix_SectionHeading d)), (''body_excerpt'', JStr (ix_BodyExcerpt d)), (''status'', JStr (ix_Status d)),
     (''labels'', JStrs (ix_Labels d)), (''author_handles'', JStrs (ix_AuthorHandles d)), (''visibility'', JStr (ix_Visibility d)),
     (''created_at'', JNum (Itoa (ix_CreatedAt d))), (''updated_at'', JNum (Itoa (ix_UpdatedAt d)))]
    @ (if ix_SectionSlug d \<noteq> [] then [(''section_slug'', JStr (ix_SectionSlug d))] else [])"

lemma base_distinct: "distinct (map fold_name (map fst (base_members d)))"
proof (cases "ix_SectionSlug d = []")
  case True
  then have "map fst (base_members d) = butlast hit_names" by (simp add: base_members_def hit_names_def)
  then show ?thesis using hit_names_distinct by (simp add: map_butlast distinct_butlast)
next
  case False
  then have "map fst (base_members d) = hit_names" by (simp add: base_members_def hit_names_def)
  then show ?thesis using hit_names_distinct by simp
qed

definition plain_extensions :: "indexDocument \<Rightarrow> bool" where
  "plain_extensions d = (\<forall>k \<in> fst ` set (ix_Extensions d). prefix ''ext_'' k)"

lemma toMap_base: "toMap d = fold (\<lambda>(k, v). AList.update k v) (ix_Extensions d) (base_members d)"
  by (simp only: toMap_def base_members_def)

lemma toMap_field:
  assumes "plain_extensions d" and "name \<in> set hit_names"
  shows "field dec name old (toMap d) = field dec name old (base_members d)"
  unfolding toMap_base using assms ext_no_match by (intro field_extensions) (auto simp: plain_extensions_def)

lemma toMap_member:
  "plain_extensions d \<Longrightarrow> (name, v) \<in> set (base_members d) \<Longrightarrow> name \<in> set hit_names \<Longrightarrow> dec old v = Some new \<Longrightarrow>
   field dec name old (toMap d) = Some new"
  using field_unique [OF base_distinct] by (simp add: toMap_field)

lemma toMap_str: "plain_extensions d \<Longrightarrow> (name, JStr s) \<in> set (base_members d) \<Longrightarrow> name \<in> set hit_names \<Longrightarrow>
    str_field name (toMap d) = Some s"
  by (rule toMap_member, assumption+) simp

lemma toMap_strs: "plain_extensions d \<Longrightarrow> (name, JStrs ss) \<in> set (base_members d) \<Longrightarrow> name \<in> set hit_names \<Longrightarrow>
    field dec_strings name [] (toMap d) = Some ss"
  by (rule toMap_member, assumption+) (rule strings_decode)

lemma toMap_int: "plain_extensions d \<Longrightarrow> (name, JNum (Itoa n)) \<in> set (base_members d) \<Longrightarrow> name \<in> set hit_names \<Longrightarrow>
    int64_min \<le> n \<Longrightarrow> n \<le> int64_max \<Longrightarrow> int_field name (toMap d) = Some n"
  by (rule toMap_member, assumption+) (simp add: Atoi_Itoa)

lemma toMap_slug:
  assumes "plain_extensions d"
  shows "str_field ''section_slug'' (toMap d) = Some (ix_SectionSlug d)"
proof (cases "ix_SectionSlug d = []")
  case True
  have "list_all (\<lambda>k. \<not> field_match ''section_slug'' k) (butlast hit_names)" by code_simp
  moreover have "map fst (base_members d) = butlast hit_names" using True by (simp add: base_members_def hit_names_def)
  ultimately have "\<forall>k \<in> fst ` set (base_members d). \<not> field_match ''section_slug'' k"
    unfolding list_all_iff by (metis set_map)
  then have "list_all (\<lambda>(k, v). \<not> field_match ''section_slug'' k) (base_members d)" by (auto simp: list_all_iff)
  then show ?thesis using True assms by (simp add: toMap_field hit_names_def field_no_match)
next
  case False
  then show ?thesis using assms by (intro toMap_str) (simp_all add: base_members_def hit_names_def)
qed

lemma DecodeInto_toMap:
  assumes "plain_extensions d" and "int64_min \<le> ix_CreatedAt d" "ix_CreatedAt d \<le> int64_max"
    "int64_min \<le> ix_UpdatedAt d" "ix_UpdatedAt d \<le> int64_max"
  shows "DecodeInto (toMap d) = Some \<lparr>ih_ID = ix_ID d, ih_ParentID = ix_ParentID d, ih_Type = ix_Type d, ih_Title = ix_Title d,
    ih_SectionHeading = ix_SectionHeading d, ih_SectionSlug = ix_SectionSlug d, ih_BodyExcerpt = ix_BodyExcerpt d, ih_Status = ix_Status d,
    ih_Labels = ix_Labels d, ih_AuthorHandles = ix_AuthorHandles d, ih_CreatedAt = ix_CreatedAt d, ih_UpdatedAt = ix_UpdatedAt d\<rparr>"
proof -
  have strs: "str_field ''id'' (toMap d) = Some (ix_ID d)" "str_field ''parent_id'' (toMap d) = Some (ix_ParentID d)"
    "str_field ''type'' (toMap d) = Some (ix_Type d)" "str_field ''title'' (toMap d) = Some (ix_Title d)"
    "str_field ''section_heading'' (toMap d) = Some (ix_SectionHeading d)" "str_field ''body_excerpt'' (toMap d) = Some (ix_BodyExcerpt d)"
    "str_field ''status'' (toMap d) = Some (ix_Status d)"
    by (rule toMap_str [OF assms(1)]; simp add: base_members_def hit_names_def)+
  have lists: "field dec_strings ''labels'' [] (toMap d) = Some (ix_Labels d)"
    "field dec_strings ''author_handles'' [] (toMap d) = Some (ix_AuthorHandles d)"
    by (rule toMap_strs [OF assms(1)]; simp add: base_members_def hit_names_def)+
  have ints: "int_field ''created_at'' (toMap d) = Some (ix_CreatedAt d)" "int_field ''updated_at'' (toMap d) = Some (ix_UpdatedAt d)"
    by (rule toMap_int [OF assms(1)]; simp add: base_members_def hit_names_def assms(2-5))+
  show ?thesis unfolding DecodeInto_def strs lists ints toMap_slug [OF assms(1)] by simp
qed

lemma toMap_unformatted:
  assumes "plain_extensions d"
  shows "map_of (rev (toMap d)) ''_formatted'' = None"
proof -
  have "fst ` set (fold (\<lambda>(k, v). AList.update k v) ext m) \<subseteq> fst ` set m \<union> fst ` set ext" for ext and m :: hit
  proof (induction ext arbitrary: m)
    case (Cons kv ext)
    obtain k v where kv: "kv = (k, v)" by (cases kv)
    show ?case using Cons [of "AList.update k v m"] dom_update [of k v m] by (auto simp: kv)
  qed simp
  then have "fst ` set (toMap d) \<subseteq> fst ` set (base_members d) \<union> fst ` set (ix_Extensions d)"
    by (simp add: toMap_base)
  moreover have "''_formatted'' \<notin> fst ` set (base_members d)" by (auto simp: base_members_def)
  moreover have "''_formatted'' \<notin> fst ` set (ix_Extensions d)"
  proof
    assume "''_formatted'' \<in> fst ` set (ix_Extensions d)"
    then have "prefix ''ext_'' ''_formatted''" using assms unfolding plain_extensions_def by blast
    then show False by simp
  qed
  ultimately show ?thesis unfolding map_of_eq_None_iff set_rev by blast
qed

lemma records_plain: "r \<in> set (buildRecords U strip md doc dt) \<Longrightarrow> plain_extensions r"
  using flatten_keys by (fastforce simp: buildRecords_def plain_extensions_def)

lemma record_section:
  assumes "r \<in> set (buildRecords U strip md doc dt)"
  shows "\<exists>s \<in> set (splitSections U strip md (d_body doc)). ix_ID r = record_id doc s \<and> ix_SectionHeading r = se_Heading s
    \<and> ix_SectionSlug r = se_Slug s \<and> ix_BodyExcerpt r = se_Body s"
  using assms by (auto simp: buildRecords_def)

lemma unix_seconds: "0 < Unix t \<Longrightarrow> unixToTime (Unix t) = t div 1000000000 * 1000000000"
  by (simp add: Unix_def unixToTime_def)


definition dated_doc :: Document where
  "dated_doc = split_doc\<lparr>d_title := ''T'', d_created := 63000000000000000000, d_updated := 63000000000000000000\<rparr>"


end
