(* ===== verification/Parser.thy ===== *)
theory Parser
  imports Domain
begin

text \<open>
  The parsers: \<^verbatim>\<open>internal/parser\<close> (the registry by name), \<^verbatim>\<open>doczmarkdown\<close> (front matter, body and
  outgoing links of a docz-managed file) and \<^verbatim>\<open>testparser\<close>. The two third-party libraries are
  parameters: what the YAML decoder makes of a block, and the link nodes goldmark finds in a
  body. The three regular expressions are written out as scanners over bytes.
\<close>

section \<open>The registry\<close>

text \<open>\<^verbatim>\<open>domain.Parser\<close>: the raw bytes, the document type and the source to a document.\<close>

type_synonym parser = "string \<Rightarrow> DocumentType \<Rightarrow> Source \<Rightarrow> Document result"

text \<open>The map of the registry, as the list of its entries.\<close>

type_synonym ParserRegistry = "(string \<times> parser) list"

definition NewParserRegistry :: ParserRegistry where
  "NewParserRegistry = []"

definition Register :: "string \<Rightarrow> parser option \<Rightarrow> ParserRegistry \<Rightarrow> ParserRegistry result" where
  "Register name parser r =
     (if name = [] then Inl (New ''parser.Register: name is required'')
      else (case parser of
              None \<Rightarrow> Inl (New ''parser.Register: parser is nil'')
            | Some p \<Rightarrow>
                if map_of r name \<noteq> None
                then Inl (Errorf [Lit ''parser.Register: '', Quo name, Lit '' already registered''])
                else Inr ((name, p) # r)))"

definition ErrParserNotRegistered :: goerr where
  "ErrParserNotRegistered = Errorf [Wrap (Sentinel ErrInvalidInput), Lit '': parser not registered'']"

definition ParserGet :: "ParserRegistry \<Rightarrow> string \<Rightarrow> parser result" where
  "ParserGet r name =
     (case map_of r name of
        None \<Rightarrow> Inl (Errorf [Wrap ErrParserNotRegistered, Lit '': '', Quo name])
      | Some p \<Rightarrow> Inr p)"

definition Names :: "ParserRegistry \<Rightarrow> string list" where
  "Names r = sort (map fst r)"

section \<open>Regular expressions\<close>

definition is_word_char :: "char \<Rightarrow> bool" where
  "is_word_char c = (is_alpha_char c \<or> is_digit_char c \<or> c = CHR ''_'')"

text \<open>Letters, a hyphen, digits: the reference a string starts with, and the rest.\<close>

definition ref_prefix :: "string \<Rightarrow> (string \<times> string \<times> string) option" where
  "ref_prefix s =
     (let ls = takeWhile is_alpha_char s in
      case dropWhile is_alpha_char s of
        [] \<Rightarrow> None
      | c # r \<Rightarrow>
          let ds = takeWhile is_digit_char r in
          if ls = [] \<or> c \<noteq> CHR ''-'' \<or> ds = [] then None else Some (ls, ds, dropWhile is_digit_char r))"

text \<open>\<^verbatim>\<open>^([A-Za-z]+)-(\d+)$\<close>.\<close>

definition frontmatterIDPattern :: "string \<Rightarrow> (string \<times> string) option" where
  "frontmatterIDPattern s =
     (case ref_prefix s of Some (ls, ds, r) \<Rightarrow> if r = [] then Some (ls, ds) else None | None \<Rightarrow> None)"

definition word_ahead :: "string \<Rightarrow> bool" where
  "word_ahead s = (case s of [] \<Rightarrow> False | c # _ \<Rightarrow> is_word_char c)"

lemma ref_prefix_parts: "ref_prefix s = Some (ls, ds, r) \<Longrightarrow> s = ls @ CHR ''-'' # ds @ r \<and> ls \<noteq> []"
  by (auto simp: ref_prefix_def Let_def split: list.splits if_splits)
    (metis takeWhile_dropWhile_id)

lemma ref_prefix_length: "ref_prefix s = Some (ls, ds, r) \<Longrightarrow> length r < length s"
  by (auto dest!: ref_prefix_parts)

text \<open>
  \<^verbatim>\<open>\b([A-Za-z]+-\d+)\b\<close>, all matches from left to right: \<open>prev\<close> says whether the byte before is
  a word byte. The letters and the digits are maximal runs, so there is nothing to backtrack to.
\<close>

function bare_refs :: "bool \<Rightarrow> string \<Rightarrow> string list" where
  "bare_refs prev [] = []"
| "bare_refs prev (c # s) =
     (case (if prev then None else ref_prefix (c # s)) of
        Some (ls, ds, r) \<Rightarrow>
          if word_ahead r then bare_refs (is_word_char c) s
          else (ls @ CHR ''-'' # ds) # bare_refs True r
      | None \<Rightarrow> bare_refs (is_word_char c) s)"
  by pat_completeness auto
termination by (relation "measure (\<lambda>(p, s). length s)") (auto dest!: ref_prefix_length split: if_splits)

definition bareRefPattern_first :: "string \<Rightarrow> string option" where
  "bareRefPattern_first s = (case bare_refs False s of [] \<Rightarrow> None | m # _ \<Rightarrow> Some m)"

text \<open>\<^verbatim>\<open>\[([^\]]+)\]\(([A-Za-z]+-\d+)\)\<close> at a position, after the bracket.\<close>

definition inline_link :: "string \<Rightarrow> (string \<times> string \<times> string) option" where
  "inline_link s =
     (let txt = takeWhile (\<lambda>c. c \<noteq> CHR '']'') s in
      case dropWhile (\<lambda>c. c \<noteq> CHR '']'') s of
        c # d # r \<Rightarrow>
          if txt = [] \<or> d \<noteq> CHR ''('' then None
          else (case ref_prefix r of
                  Some (ls, ds, e # r') \<Rightarrow> if e = CHR '')'' then Some (txt, ls @ CHR ''-'' # ds, r') else None
                | _ \<Rightarrow> None)
      | _ \<Rightarrow> None)"

lemma inline_link_length: "inline_link s = Some (t, ref, r) \<Longrightarrow> length r < length s"
proof -
  assume a: "inline_link s = Some (t, ref, r)"
  then obtain c d q ls ds e where "dropWhile (\<lambda>c. c \<noteq> CHR '']'') s = c # d # q" "ref_prefix q = Some (ls, ds, e # r)"
    by (auto simp: inline_link_def Let_def split: list.splits if_splits option.splits)
  then show ?thesis
    using length_dropWhile_le [of "\<lambda>c. c \<noteq> CHR '']''" s] by (auto dest!: ref_prefix_length)
qed

function inline_links :: "string \<Rightarrow> (string \<times> string) list" where
  "inline_links [] = []"
| "inline_links (c # s) =
     (case (if c = CHR ''['' then inline_link s else None) of
        Some (t, ref, r) \<Rightarrow> (t, ref) # inline_links r
      | None \<Rightarrow> inline_links s)"
  by pat_completeness auto
termination by (relation "measure length") (auto dest!: inline_link_length split: if_splits)

section \<open>docz-markdown\<close>

record frontmatter =
  fm_ID :: string
  fm_Title :: string
  fm_Status :: string
  fm_Author :: string
  fm_Authors :: "Author list"
  fm_Created :: time
  fm_Updated :: time
  fm_Labels :: "string list"

text \<open>
  The libraries: the YAML block decoded into the struct and into a map (an error is its text),
  and the link nodes of a Markdown body in document order, each with its destination and the
  segments of its children (\<open>None\<close> for a child that is no text).
\<close>

record markup =
  y_frontmatter :: "string \<Rightarrow> string + frontmatter"
  y_map :: "string \<Rightarrow> string + (string \<times> json) list"
  md_links :: "string \<Rightarrow> (string \<times> string option list) list"

definition frontmatterKeys :: "string list" where
  "frontmatterKeys = [''id'', ''title'', ''status'', ''author'', ''authors'', ''created'', ''updated'', ''labels'']"

abbreviation bad_doc :: "frag list \<Rightarrow> goerr" where
  "bad_doc fs \<equiv> Errorf (Wrap (Sentinel ErrInvalidInput) # fs)"

definition frontmatterAndBody :: "markup \<Rightarrow> string \<Rightarrow> (frontmatter \<times> (string \<times> json) list \<times> string) result" where
  "frontmatterAndBody M raw =
     (let fence = ''---'' @ [CHR 0x0A] in
      if \<not> prefix fence raw then Inl (bad_doc [Lit '': frontmatter fence missing''])
      else (case Cut (drop (length fence) raw) (CHR 0x0A # fence) of
              None \<Rightarrow> Inl (bad_doc [Lit '': frontmatter fence unterminated''])
            | Some (yamlBlock, body) \<Rightarrow>
                (case y_frontmatter M yamlBlock of
                   Inl e \<Rightarrow> Inl (bad_doc [Lit '': '', Lit e])
                 | Inr fm \<Rightarrow>
                     (case y_map M yamlBlock of
                        Inl e \<Rightarrow> Inl (bad_doc [Lit '': '', Lit e])
                      | Inr all \<Rightarrow>
                          Inr (fm, filter (\<lambda>(k, v). k \<notin> set frontmatterKeys) all, body)))))"

definition parseAuthors :: "unicode \<Rightarrow> frontmatter \<Rightarrow> Author list" where
  "parseAuthors U fm =
     (if length (fm_Authors fm) > 0
      then map (\<lambda>a. \<lparr>a_name = a_name a, a_email = a_email a, a_handle = a_handle a\<rparr>) (fm_Authors fm)
      else if fm_Author fm = [] then []
      else map (\<lambda>n. zero_author\<lparr>a_name := n\<rparr>)
             (filter (\<lambda>n. n \<noteq> []) (map (TrimSpace U) (Split (fm_Author fm) CHR '',''))))"

definition urlIDFromFrontmatter :: "unicode \<Rightarrow> string \<Rightarrow> string \<Rightarrow> string result" where
  "urlIDFromFrontmatter U raw wantPrefix =
     (case frontmatterIDPattern raw of
        None \<Rightarrow> Inl (bad_doc [Lit '': id '', Quo raw, Lit '' is not PREFIX-NNNN''])
      | Some (gotPrefix, urlID) \<Rightarrow>
          if \<not> EqualFold U gotPrefix wantPrefix
          then Inl (bad_doc [Lit '': id prefix '', Quo gotPrefix, Lit '' != type prefix '', Quo wantPrefix])
          else Inr urlID)"

definition nodeText :: "string option list \<Rightarrow> string" where
  "nodeText cs = concat (map (\<lambda>c. case c of Some t \<Rightarrow> t | None \<Rightarrow> []) cs)"

text \<open>The state of \<^verbatim>\<open>extractLinks\<close>: the links so far and the targets seen.\<close>

type_synonym link_acc = "Link list \<times> string list"

definition addLink :: "unicode \<Rightarrow> string \<Rightarrow> string \<Rightarrow> link_acc \<Rightarrow> link_acc" where
  "addLink U target0 label acc =
     (case acc of (out, seen) \<Rightarrow>
        let target = ToUpper U target0 in
        if target \<in> set seen then (out, seen)
        else (case Parse U target of
                None \<Rightarrow> (out, target # seen)
              | Some (typeID, urlID) \<Rightarrow>
                  (out @ [\<lparr>l_direction = LinkOutgoing, l_target = target,
                     l_href = ''/api/v1/'' @ typeID @ ''/'' @ urlID, l_label = label\<rparr>], target # seen)))"

text \<open>The references of a body in the order they are added: link nodes, inline links, prose.\<close>

definition body_refs :: "markup \<Rightarrow> string \<Rightarrow> (string \<times> string) list" where
  "body_refs M body =
     List.map_filter (\<lambda>(dest, cs). map_option (\<lambda>ref. (ref, nodeText cs)) (bareRefPattern_first dest)) (md_links M body)
     @ map (\<lambda>(t, ref). (ref, t)) (inline_links body)
     @ map (\<lambda>ref. (ref, [])) (bare_refs False body)"

definition extractLinks :: "unicode \<Rightarrow> markup \<Rightarrow> string \<Rightarrow> Link list" where
  "extractLinks U M body = fst (fold (\<lambda>(ref, label). addLink U ref label) (body_refs M body) ([], []))"

definition stamp :: "time \<Rightarrow> time \<Rightarrow> time \<Rightarrow> time" where
  "stamp t commit fallback = (if t \<noteq> 0 then t else if commit \<noteq> 0 then commit else fallback)"

definition docz_Parse :: "unicode \<Rightarrow> markup \<Rightarrow> time \<Rightarrow> parser" where
  "docz_Parse U M now raw t src =
     bindR (frontmatterAndBody M raw) (\<lambda>(fm, ext, body).
       if fm_ID fm = [] then Inl (bad_doc [Lit '': missing frontmatter id''])
       else if fm_Title fm = [] then Inl (bad_doc [Lit '': missing frontmatter title''])
       else if fm_Status fm = [] then Inl (bad_doc [Lit '': missing frontmatter status''])
       else bindR (urlIDFromFrontmatter U (fm_ID fm) (dt_prefix t)) (\<lambda>urlID.
         if length (dt_lifecycle t) > 0 \<and> fm_Status fm \<notin> set (dt_lifecycle t)
         then Inl (bad_doc [Lit '': status '', Quo (fm_Status fm), Lit '' not in '', Lit (dt_id t), Lit '' lifecycle''])
         else
           let created = stamp (fm_Created fm) (so_commit_time src) now;
               updated = stamp (fm_Updated fm) (so_commit_time src) created
           in Inr \<lparr>d_id = Canonical U (dt_id t) urlID, d_type = dt_id t, d_title = fm_Title fm,
                d_status = fm_Status fm, d_authors = parseAuthors U fm, d_created = created, d_updated = updated,
                d_body = body, d_links = extractLinks U M body, d_labels = fm_Labels fm, d_discussion = None,
                d_extensions = ext, d_source = src\<rparr>))"

section \<open>test-parser\<close>

record rawDoc =
  rd_ID :: string
  rd_Title :: string
  rd_Status :: string
  rd_Authors :: "Author list"
  rd_Labels :: "string list"
  rd_Body :: string
  rd_Extensions :: "(string \<times> json) list"
  rd_Created :: time
  rd_Updated :: time

text \<open>\<open>y\<close> is the YAML decoder into the struct, an error being its text.\<close>

definition test_Parse :: "unicode \<Rightarrow> (string \<Rightarrow> string + rawDoc) \<Rightarrow> time \<Rightarrow> parser" where
  "test_Parse U y now raw t src =
     (case y raw of
        Inl e \<Rightarrow> Inl (bad_doc [Lit '': '', Lit e])
      | Inr d \<Rightarrow>
          if rd_ID d = [] then Inl (bad_doc [Lit '': missing id''])
          else if rd_Title d = [] then Inl (bad_doc [Lit '': missing title''])
          else if rd_Status d = [] then Inl (bad_doc [Lit '': missing status''])
          else (case frontmatterIDPattern (rd_ID d) of
                  None \<Rightarrow> Inl (bad_doc [Lit '': id '', Quo (rd_ID d), Lit '' is not PREFIX-NNNN''])
                | Some (pre, num) \<Rightarrow>
                    if \<not> EqualFold U pre (dt_prefix t)
                    then Inl (bad_doc [Lit '': id prefix '', Quo pre, Lit '' != type prefix '', Quo (dt_prefix t)])
                    else if length (dt_lifecycle t) > 0 \<and> rd_Status d \<notin> set (dt_lifecycle t)
                    then Inl (bad_doc [Lit '': status '', Quo (rd_Status d), Lit '' not in '', Lit (dt_id t), Lit '' lifecycle''])
                    else
                      let created = stamp (rd_Created d) (so_commit_time src) now;
                          updated = stamp (rd_Updated d) (so_commit_time src) created
                      in Inr \<lparr>d_id = Canonical U (dt_id t) num, d_type = dt_id t, d_title = rd_Title d,
                           d_status = rd_Status d, d_authors = rd_Authors d, d_created = created, d_updated = updated,
                           d_body = rd_Body d, d_links = [], d_labels = rd_Labels d, d_discussion = None,
                           d_extensions = rd_Extensions d, d_source = src\<rparr>))"

section \<open>Links\<close>

definition acc_ok :: "unicode \<Rightarrow> link_acc \<Rightarrow> bool" where
  "acc_ok U acc =
     (distinct (map l_target (fst acc))
      \<and> set (map l_target (fst acc)) = {t \<in> set (snd acc). Parse U t \<noteq> None}
      \<and> list_all (\<lambda>l. l_direction l = LinkOutgoing) (fst acc))"

lemma addLink_ok:
  assumes "acc_ok U acc"
  shows "acc_ok U (addLink U ref label acc)
    \<and> set (snd (addLink U ref label acc)) = insert (ToUpper U ref) (set (snd acc))"
proof -
  obtain out seen where acc: "acc = (out, seen)" by (cases acc)
  show ?thesis
  proof (cases "ToUpper U ref \<in> set seen")
    case True
    then show ?thesis using assms by (auto simp: addLink_def acc Let_def)
  next
    case False
    then have "ToUpper U ref \<notin> set (map l_target out)" using assms by (auto simp: acc_ok_def acc)
    moreover have "set (map l_target out) = {t \<in> set seen. Parse U t \<noteq> None}" "distinct (map l_target out)"
      "list_all (\<lambda>l. l_direction l = LinkOutgoing) out"
      using assms by (simp_all only: acc_ok_def acc fst_conv snd_conv)
    ultimately show ?thesis
      using False by (cases "Parse U (ToUpper U ref)") (simp_all add: addLink_def acc Let_def acc_ok_def split_beta, auto)
  qed
qed

lemma addLinks_ok:
  "acc_ok U acc \<Longrightarrow>
   acc_ok U (fold (\<lambda>(ref, label). addLink U ref label) refs acc)
   \<and> set (snd (fold (\<lambda>(ref, label). addLink U ref label) refs acc)) = ToUpper U ` fst ` set refs \<union> set (snd acc)"
proof (induction refs arbitrary: acc)
  case Nil
  then show ?case by simp
next
  case (Cons p refs)
  obtain ref label where p: "p = (ref, label)" by (cases p)
  show ?case using Cons.IH [of "addLink U ref label acc"] addLink_ok [OF Cons.prems, of ref label] by (auto simp: p)
qed

lemma extract_ok:
  "acc_ok U (fold (\<lambda>(ref, label). addLink U ref label) (body_refs M body) ([], []))"
  "set (snd (fold (\<lambda>(ref, label). addLink U ref label) (body_refs M body) ([], []))) = ToUpper U ` fst ` set (body_refs M body)"
  using addLinks_ok [of U "([], [])" "body_refs M body"] by (simp_all add: acc_ok_def)


section \<open>Documents\<close>

lemma frontmatterAndBody_error: "frontmatterAndBody M raw = Inl e \<Longrightarrow> error_is e ErrInvalidInput"
  by (auto simp: frontmatterAndBody_def Let_def split: if_splits option.splits sum.splits)

lemma ref_prefix_classes:
  "ref_prefix s = Some (ls, ds, r) \<Longrightarrow> list_all is_alpha_char ls \<and> list_all is_digit_char ds \<and> ds \<noteq> []"
  by (auto simp: ref_prefix_def Let_def list_all_iff split: list.splits if_splits dest: set_takeWhileD)

lemma urlID_digits:
  "urlIDFromFrontmatter U raw p = Inr n \<Longrightarrow> list_all is_digit_char n \<and> n \<noteq> []
    \<and> (\<exists>q. raw = q @ CHR ''-'' # n \<and> EqualFold U q p)"
  by (auto simp: urlIDFromFrontmatter_def frontmatterIDPattern_def split: option.splits if_splits
      dest: ref_prefix_classes ref_prefix_parts)

lemma urlID_error: "urlIDFromFrontmatter U raw p = Inl e \<Longrightarrow> error_is e ErrInvalidInput"
  by (auto simp: urlIDFromFrontmatter_def split: option.splits if_splits)

lemma stamp_nonzero: "fallback \<noteq> 0 \<Longrightarrow> stamp t c fallback \<noteq> 0"
  by (simp add: stamp_def)

text \<open>What a parsed document satisfies, whatever the file held.\<close>

definition parsed_ok :: "unicode \<Rightarrow> DocumentType \<Rightarrow> Source \<Rightarrow> Document \<Rightarrow> bool" where
  "parsed_ok U t src doc =
     ((\<exists>n. n \<noteq> [] \<and> list_all is_digit_char n \<and> d_id doc = Canonical U (dt_id t) n)
      \<and> d_type doc = dt_id t \<and> d_title doc \<noteq> [] \<and> d_status doc \<noteq> []
      \<and> (dt_lifecycle t = [] \<or> d_status doc \<in> set (dt_lifecycle t))
      \<and> d_source doc = src \<and> distinct (map l_target (d_links doc))
      \<and> d_discussion doc = None)"

lemma docz_cases:
  assumes "frontmatterAndBody M raw = Inr (fm, ext, body)"
  shows "docz_Parse U M now raw t src =
    (if fm_ID fm = [] then Inl (bad_doc [Lit '': missing frontmatter id''])
       else if fm_Title fm = [] then Inl (bad_doc [Lit '': missing frontmatter title''])
       else if fm_Status fm = [] then Inl (bad_doc [Lit '': missing frontmatter status''])
       else bindR (urlIDFromFrontmatter U (fm_ID fm) (dt_prefix t)) (\<lambda>urlID.
         if length (dt_lifecycle t) > 0 \<and> fm_Status fm \<notin> set (dt_lifecycle t)
         then Inl (bad_doc [Lit '': status '', Quo (fm_Status fm), Lit '' not in '', Lit (dt_id t), Lit '' lifecycle''])
         else Inr \<lparr>d_id = Canonical U (dt_id t) urlID, d_type = dt_id t, d_title = fm_Title fm,
                d_status = fm_Status fm, d_authors = parseAuthors U fm,
                d_created = stamp (fm_Created fm) (so_commit_time src) now,
                d_updated = stamp (fm_Updated fm) (so_commit_time src) (stamp (fm_Created fm) (so_commit_time src) now),
                d_body = body, d_links = extractLinks U M body, d_labels = fm_Labels fm, d_discussion = None,
                d_extensions = ext, d_source = src\<rparr>))"
  by (simp only: docz_Parse_def assms bindR_simps prod.case Let_def)

text \<open>Whatever a file holds, the docz parser either refuses it with an error that wraps
  \<open>ErrInvalidInput\<close>, or returns a document of the requested type: its id is the canonical id of that
  type with the digits of the front matter, its status is one of the type's lifecycle, title and status
  are not empty, link targets are distinct, and the source is the one given. When the commit time is
  known, the document does not depend on the clock, so parsing the file again gives the same document.\<close>

theorem docz_parse_sound:
  "case docz_Parse U M now raw t src of
     Inl e \<Rightarrow> error_is e ErrInvalidInput
   | Inr doc \<Rightarrow> parsed_ok U t src doc
       \<and> (so_commit_time src = 0 \<or> docz_Parse U M later raw t src = Inr doc)"
proof (cases "frontmatterAndBody M raw")
  case (Inl e)
  then show ?thesis using frontmatterAndBody_error by (auto simp: docz_Parse_def)
next
  case (Inr p)
  obtain fm ext body where p: "p = (fm, ext, body)" by (cases p)
  note c = docz_cases [OF Inr [unfolded p]]
  have d: "distinct (map l_target (extractLinks U M body))" using extract_ok by (simp add: extractLinks_def acc_ok_def)
  show ?thesis
  proof (cases "urlIDFromFrontmatter U (fm_ID fm) (dt_prefix t)")
    case e: (Inl e)
    then show ?thesis unfolding c using urlID_error [OF e] by simp
  next
    case n: (Inr n)
    then show ?thesis unfolding c using urlID_digits [OF n] d by (auto simp: parsed_ok_def stamp_def)
  qed
qed

end
