(* ===== verification/Enqueuer.thy ===== *)
theory Enqueuer
  imports Queue
begin

text \<open>
  The interface \<^verbatim>\<open>Enqueuer\<close> that the webhook, the scanner and the job handlers write jobs to, what
  it promises about the pending keys, and the job queue as its provider. A caller passes kind,
  dedup key, payload and start time (the zero time for now); the call returns the new state and
  an error, if any.
\<close>

type_synonym 'q enqueue_fn = "string \<Rightarrow> string \<Rightarrow> json \<Rightarrow> time \<Rightarrow> 'q \<Rightarrow> 'q \<times> goerr option"

text \<open>
  \<open>has q kind key\<close>: a job of that kind and key is in the queue. A reported success leaves the key
  in the queue; a call, failed or not, never removes a key and adds no key but its own.
\<close>

locale enqueuer =
  fixes enq :: "'q enqueue_fn" and has :: "'q \<Rightarrow> string \<Rightarrow> string \<Rightarrow> bool"
  assumes enq_has: "enq kind key body t q = (q', None) \<Longrightarrow> has q' kind key"
    and enq_keeps: "enq kind key body t q = (q', err) \<Longrightarrow> has q k d \<Longrightarrow> has q' k d"
    and enq_only: "enq kind key body t q = (q', err) \<Longrightarrow> has q' k d \<Longrightarrow> has q k d \<or> (k, d) = (kind, key)"
begin

text \<open>A loop that enqueues one job per item and carries on after an error.\<close>

definition enq_all :: "('a \<Rightarrow> (string \<times> string \<times> json \<times> time) option) \<Rightarrow> 'a list \<Rightarrow> 'q \<Rightarrow> 'q" where
  "enq_all f xs q = fold (\<lambda>x q. case f x of None \<Rightarrow> q | Some (kind, key, body, t) \<Rightarrow> fst (enq kind key body t q)) xs q"

lemma enq_all_Nil [simp]: "enq_all f [] q = q"
  by (simp add: enq_all_def)

lemma enq_all_Cons:
  "enq_all f (x # xs) q = enq_all f xs (case f x of None \<Rightarrow> q | Some (kind, key, body, t) \<Rightarrow> fst (enq kind key body t q))"
  by (simp add: enq_all_def)

lemma enq_all_keeps: "has q k d \<Longrightarrow> has (enq_all f xs q) k d"
proof (induction xs arbitrary: q)
  case Nil
  then show ?case by simp
next
  case (Cons x xs)
  have "has (fst (enq kind key body t q)) k d" for kind key body t
    using enq_keeps [of kind key body t q] Cons.prems by (cases "enq kind key body t q") auto
  then show ?case using Cons by (auto simp: enq_all_Cons split: option.split)
qed

lemma enq_all_only:
  "has (enq_all f xs q) k d \<Longrightarrow> has q k d \<or> (\<exists>x \<in> set xs. \<exists>body t. f x = Some (k, d, body, t))"
proof (induction xs arbitrary: q)
  case Nil
  then show ?case by simp
next
  case (Cons x xs)
  have "has (fst (enq kind key body t q)) k d \<Longrightarrow> has q k d \<or> (k, d) = (kind, key)" for kind key body t
    using enq_only [of kind key body t q] by (cases "enq kind key body t q") auto
  then show ?case using Cons by (fastforce simp: enq_all_Cons split: option.splits)
qed

text \<open>If every call of the loop succeeds, every item's key is pending at the end.\<close>

lemma enq_all_has:
  assumes "\<And>kind key body t q. kind \<noteq> [] \<Longrightarrow> key \<noteq> [] \<Longrightarrow> snd (enq kind key body t q) = None"
    and "x \<in> set xs" and "f x = Some (k, d, body, t)" and "k \<noteq> []" and "d \<noteq> []"
  shows "has (enq_all f xs q) k d"
  using assms(2)
proof (induction xs arbitrary: q)
  case Nil
  then show ?case by simp
next
  case (Cons y xs)
  show ?case
  proof (cases "y = x")
    case True
    have "has (fst (enq k d body t q)) k d"
      using assms(1) [OF assms(4,5), of body t q] enq_has [of k d body t q] by (cases "enq k d body t q") auto
    then show ?thesis using True assms(3) enq_all_keeps by (simp add: enq_all_Cons)
  next
    case False
    then show ?thesis using Cons by (simp add: enq_all_Cons)
  qed
qed

end

section \<open>The job queue as an enqueuer\<close>

text \<open>
  The calls of a process are numbered; the environment gives the fate of the round trip, the
  generated uuid and the two clocks of each call.
\<close>

record enq_env =
  ee_db :: "nat \<Rightarrow> exec"
  ee_uuid :: "nat \<Rightarrow> nat"
  ee_gnow :: "nat \<Rightarrow> time"
  ee_now :: "nat \<Rightarrow> time"

definition jobs_enq :: "enq_env \<Rightarrow> (jobs \<times> nat) enqueue_fn" where
  "jobs_enq E kind key body t q =
     (case q of (js, n) \<Rightarrow>
        case Enqueue (ee_db E n) (ee_uuid E n) (ee_gnow E n) (ee_now E n) kind key (Inr body) t js of
          (js', err) \<Rightarrow> ((js', Suc n), err))"

definition has_job :: "jobs \<times> nat \<Rightarrow> string \<Rightarrow> string \<Rightarrow> bool" where
  "has_job q kind key = list_ex (same_key kind key) (fst q)"

lemma list_ex_map_same: "(\<And>r. P (f r) = P r) \<Longrightarrow> list_ex P (map f rs) = list_ex P rs"
  by (induction rs) simp_all

lemma enqueue_stmt_has:
  "list_ex (same_key k d) (enqueue_stmt uuid now kind key body ra js) \<longleftrightarrow>
   list_ex (same_key k d) js \<or> (k = kind \<and> d = key)"
proof (cases "\<exists>r \<in> set js. same_key kind key r")
  case True
  then have "list_ex (same_key k d) (enqueue_stmt uuid now kind key body ra js) = list_ex (same_key k d) js"
    by (simp add: enqueue_stmt_def) (rule list_ex_map_same, simp add: same_key_def)
  moreover have "k = kind \<and> d = key \<Longrightarrow> list_ex (same_key k d) js" using True by (auto simp: list_ex_iff)
  ultimately show ?thesis by blast
next
  case False
  then show ?thesis by (auto simp: enqueue_stmt_def list_ex_iff same_key_def)
qed

lemma Enqueue_has:
  assumes "Enqueue db uuid gnow now kind key (Inr body) t js = (js', err)"
  shows "list_ex (same_key k d) js' \<longleftrightarrow>
    list_ex (same_key k d) js \<or> (k = kind \<and> d = key \<and> js' \<noteq> js \<and> list_ex (same_key kind key) js')"
    and "err = None \<Longrightarrow> list_ex (same_key kind key) js'"
proof -
  show "list_ex (same_key k d) js' \<longleftrightarrow>
    list_ex (same_key k d) js \<or> (k = kind \<and> d = key \<and> js' \<noteq> js \<and> list_ex (same_key kind key) js')"
    using assms by (cases db) (auto simp: Enqueue_def Let_def enqueue_stmt_has split: if_splits)
  show "err = None \<Longrightarrow> list_ex (same_key kind key) js'"
    using assms by (cases db) (auto simp: Enqueue_def Let_def enqueue_stmt_has split: if_splits)
qed

interpretation jq: enqueuer "jobs_enq E" has_job
proof
  fix kind key k d :: string and body t q q' err
  show "jobs_enq E kind key body t q = (q', None) \<Longrightarrow> has_job q' kind key"
    by (auto simp: jobs_enq_def has_job_def split: prod.splits dest: Enqueue_has(2))
  assume a: "jobs_enq E kind key body t q = (q', err)"
  obtain js n where q: "q = (js, n)" by (cases q)
  obtain js' where e: "Enqueue (ee_db E n) (ee_uuid E n) (ee_gnow E n) (ee_now E n) kind key (Inr body) t js = (js', err)"
    and q': "q' = (js', Suc n)"
    using a by (auto simp: jobs_enq_def q split: prod.splits)
  show "has_job q k d \<Longrightarrow> has_job q' k d" "has_job q' k d \<Longrightarrow> has_job q k d \<or> (k, d) = (kind, key)"
    using Enqueue_has(1) [OF e, of k d] by (auto simp: has_job_def q q')
qed

end
