(* ===== verification/Sha256.thy ===== *)
theory Sha256
  imports Prelude "HOL-Library.Word"
begin

text \<open>
  \<^verbatim>\<open>crypto/sha256\<close>, \<^verbatim>\<open>crypto/hmac\<close> and \<^verbatim>\<open>encoding/hex\<close>, as far as the webhook signature uses them:
  SHA-256 over 32-bit words (FIPS 180-4), HMAC with the 64-byte block of SHA-256 (RFC 2104), and
  the decoding of a hexadecimal string.
\<close>

unbundle bit_operations_syntax

section \<open>SHA-256\<close>

type_synonym w32 = "32 word"

definition rotr :: "nat \<Rightarrow> w32 \<Rightarrow> w32" where
  "rotr n x = drop_bit n x OR push_bit (32 - n) x"

definition sha_k :: "w32 list" where
  "sha_k = [
     0x428a2f98, 0x71374491, 0xb5c0fbcf, 0xe9b5dba5, 0x3956c25b, 0x59f111f1, 0x923f82a4, 0xab1c5ed5,
     0xd807aa98, 0x12835b01, 0x243185be, 0x550c7dc3, 0x72be5d74, 0x80deb1fe, 0x9bdc06a7, 0xc19bf174,
     0xe49b69c1, 0xefbe4786, 0x0fc19dc6, 0x240ca1cc, 0x2de92c6f, 0x4a7484aa, 0x5cb0a9dc, 0x76f988da,
     0x983e5152, 0xa831c66d, 0xb00327c8, 0xbf597fc7, 0xc6e00bf3, 0xd5a79147, 0x06ca6351, 0x14292967,
     0x27b70a85, 0x2e1b2138, 0x4d2c6dfc, 0x53380d13, 0x650a7354, 0x766a0abb, 0x81c2c92e, 0x92722c85,
     0xa2bfe8a1, 0xa81a664b, 0xc24b8b70, 0xc76c51a3, 0xd192e819, 0xd6990624, 0xf40e3585, 0x106aa070,
     0x19a4c116, 0x1e376c08, 0x2748774c, 0x34b0bcb5, 0x391c0cb3, 0x4ed8aa4a, 0x5b9cca4f, 0x682e6ff3,
     0x748f82ee, 0x78a5636f, 0x84c87814, 0x8cc70208, 0x90befffa, 0xa4506ceb, 0xbef9a3f7, 0xc67178f2]"

definition sha_init :: "w32 list" where
  "sha_init = [0x6a09e667, 0xbb67ae85, 0x3c6ef372, 0xa54ff53a, 0x510e527f, 0x9b05688c, 0x1f83d9ab, 0x5be0cd19]"

text \<open>The message schedule: \<open>w\<close> holds the words so far, newest first.\<close>

fun sha_schedule :: "nat \<Rightarrow> w32 list \<Rightarrow> w32 list" where
  "sha_schedule 0 w = w"
| "sha_schedule (Suc n) w =
     (let x15 = w ! 14; x2 = w ! 1;
          s0 = rotr 7 x15 XOR rotr 18 x15 XOR drop_bit 3 x15;
          s1 = rotr 17 x2 XOR rotr 19 x2 XOR drop_bit 10 x2
      in sha_schedule n ((w ! 15 + s0 + w ! 6 + s1) # w))"

fun sha_round :: "w32 list \<Rightarrow> w32 \<times> w32 \<Rightarrow> w32 list" where
  "sha_round [a, b, c, d, e, f, g, h] (k, w) =
     (let s1 = rotr 6 e XOR rotr 11 e XOR rotr 25 e;
          ch = (e AND f) XOR (NOT e AND g);
          t1 = h + s1 + ch + k + w;
          s0 = rotr 2 a XOR rotr 13 a XOR rotr 22 a;
          maj = (a AND b) XOR (a AND c) XOR (b AND c);
          t2 = s0 + maj
      in [t1 + t2, a, b, c, d + t1, e, f, g])"
| "sha_round v kw = v"

fun word_bytes :: "nat list \<Rightarrow> w32" where
  "word_bytes bs = word_of_nat (foldl (\<lambda>a b. a * 256 + b) 0 bs)"

fun words_of :: "nat \<Rightarrow> nat list \<Rightarrow> w32 list" where
  "words_of 0 bs = []"
| "words_of (Suc n) bs = word_bytes (take 4 bs) # words_of n (drop 4 bs)"

definition sha_block :: "w32 list \<Rightarrow> nat list \<Rightarrow> w32 list" where
  "sha_block hs block =
     (let ws = rev (sha_schedule 48 (rev (words_of 16 block)))
      in map (\<lambda>(x, y). x + y) (zip hs (foldl sha_round hs (zip sha_k ws))))"

definition be_bytes :: "nat \<Rightarrow> nat \<Rightarrow> nat list" where
  "be_bytes n v = map (\<lambda>i. v div 256 ^ i mod 256) (rev [0..<n])"

definition sha_pad :: "nat list \<Rightarrow> nat list" where
  "sha_pad m = m @ [128] @ replicate ((119 - length m mod 64) mod 64) 0 @ be_bytes 8 (length m * 8)"

fun sha_blocks :: "nat \<Rightarrow> w32 list \<Rightarrow> nat list \<Rightarrow> w32 list" where
  "sha_blocks 0 hs bs = hs"
| "sha_blocks (Suc n) hs bs = sha_blocks n (sha_block hs (take 64 bs)) (drop 64 bs)"

definition sha256 :: "nat list \<Rightarrow> nat list" where
  "sha256 m = (let p = sha_pad m in
     concat (map (\<lambda>w. be_bytes 4 (unat w)) (sha_blocks (length p div 64) sha_init p)))"

section \<open>HMAC\<close>

definition hmac_key :: "nat list \<Rightarrow> nat list" where
  "hmac_key k = (let k' = (if length k > 64 then sha256 k else k) in k' @ replicate (64 - length k') 0)"

definition xor_byte :: "nat \<Rightarrow> nat \<Rightarrow> nat" where
  "xor_byte c b = unat ((word_of_nat c :: 8 word) XOR word_of_nat b)"

definition hmac_sha256 :: "string \<Rightarrow> string \<Rightarrow> string" where
  "hmac_sha256 secret body =
     (let k = hmac_key (map of_char secret); m = map of_char body
      in map char_of (sha256 (map (xor_byte 92) k @ sha256 (map (xor_byte 54) k @ m))))"

section \<open>Hexadecimal\<close>

definition from_hex :: "char \<Rightarrow> nat option" where
  "from_hex c =
     (if is_digit_char c then Some (of_char c - 48)
      else if 97 \<le> (of_char c :: nat) \<and> of_char c \<le> (102::nat) then Some (of_char c - 87)
      else if 65 \<le> (of_char c :: nat) \<and> of_char c \<le> (70::nat) then Some (of_char c - 55)
      else None)"

text \<open>\<^verbatim>\<open>hex.DecodeString\<close>; \<open>None\<close> is an invalid byte or an odd length.\<close>

fun hex_decode :: "string \<Rightarrow> string option" where
  "hex_decode [] = Some []"
| "hex_decode [a] = None"
| "hex_decode (a # b # r) =
     (case (from_hex a, from_hex b) of
        (Some x, Some y) \<Rightarrow> map_option ((#) (char_of (x * 16 + y))) (hex_decode r)
      | _ \<Rightarrow> None)"

definition to_hex :: "nat \<Rightarrow> char" where
  "to_hex n = (if n < 10 then char_of (48 + n) else char_of (87 + n))"

definition hex_encode :: "string \<Rightarrow> string" where
  "hex_encode s = concat (map (\<lambda>c. [to_hex (of_char c div 16), to_hex (of_char c mod 16)]) s)"

lemma from_to_hex: "n < 16 \<Longrightarrow> from_hex (to_hex n) = Some n"
  by (auto simp: from_hex_def to_hex_def is_digit_char_def)

lemma hex_roundtrip: "hex_decode (hex_encode s) = Some s"
proof (induction s)
  case Nil
  then show ?case by (simp add: hex_encode_def)
next
  case (Cons c s)
  have "(of_char c :: nat) div 16 < 16" using of_char_less_256 [of c] by (simp add: less_mult_imp_div_less)
  then show ?case using Cons by (simp add: hex_encode_def from_to_hex)
qed

text \<open>The digest has 32 bytes.\<close>

lemma sha_round_length: "length v = 8 \<Longrightarrow> length (sha_round v kw) = 8"
  by (induction v kw rule: sha_round.induct) (simp_all add: Let_def)

lemma sha_rounds_length: "length v = 8 \<Longrightarrow> length (foldl sha_round v kws) = 8"
  by (induction kws arbitrary: v) (simp_all add: sha_round_length)

lemma sha_blocks_length: "length hs = 8 \<Longrightarrow> length (sha_blocks n hs bs) = 8"
  by (induction n hs bs rule: sha_blocks.induct) (simp_all add: sha_block_def Let_def sha_rounds_length)

lemma sha256_length: "length (sha256 m) = 32"
proof -
  have "length (sha_blocks n sha_init bs) = 8" for n bs by (rule sha_blocks_length) (simp add: sha_init_def)
  then show ?thesis by (simp add: sha256_def Let_def length_concat be_bytes_def comp_def sum_list_triv)
qed

lemma sha_pad_blocks: "64 dvd length (sha_pad m)"
proof -
  define k q where "k = length m mod 64" and "q = length m div 64"
  have m: "length m = 64 * q + k" "k < 64" by (simp_all add: k_def q_def)
  have l: "length (sha_pad m) = 64 * q + k + 9 + (119 - k) mod 64"
    using m by (simp add: sha_pad_def be_bytes_def)
  show ?thesis
  proof (cases "k \<le> 55")
    case True
    then have "(119 - k) mod 64 = 55 - k" by (simp add: mod_if)
    then have "length (sha_pad m) = 64 * (q + 1)" using l True by simp
    then show ?thesis by (metis dvd_triv_left)
  next
    case False
    then have "length (sha_pad m) = 64 * (q + 2)" using l m(2) by simp
    then show ?thesis by (metis dvd_triv_left)
  qed
qed

end
