(* ===== verification/Webhook.thy ===== *)
theory Webhook
  imports Http Enqueuer Sha256
begin

text \<open>
  The GitHub webhook: the signature check of \<^verbatim>\<open>middleware/githubhmac.go\<close> and the handler of
  \<^verbatim>\<open>handler/webhook.go\<close>, over any enqueuer. A payload with two members of the same name is
  decoded with each array from scratch; GitHub's payloads have none. Logging is left out, so a
  branch of the source that only logs leaves the queue as it is.
\<close>

section \<open>Requests with a body\<close>

text \<open>The bytes a body yields and the error it ends with, if any.\<close>

record wh_request =
  wh_req :: request
  wh_header :: "string \<Rightarrow> string"
  wh_body :: "string \<times> goerr option"

type_synonym 'q handler = "wh_request \<Rightarrow> 'q \<Rightarrow> response \<times> 'q"

text \<open>\<^verbatim>\<open>io.ReadAll\<close>, and of an \<^verbatim>\<open>io.LimitReader\<close>.\<close>

definition read_all :: "wh_request \<Rightarrow> string result" where
  "read_all r = (case wh_body r of (bs, None) \<Rightarrow> Inr bs | (bs, Some e) \<Rightarrow> Inl e)"

definition read_limit :: "nat \<Rightarrow> wh_request \<Rightarrow> string result" where
  "read_limit n r =
     (case wh_body r of (bs, err) \<Rightarrow>
        if n \<le> length bs then Inr (take n bs) else (case err of None \<Rightarrow> Inr bs | Some e \<Rightarrow> Inl e))"

section \<open>Signature\<close>

definition maxWebhookBody :: nat where "maxWebhookBody = 25 * 1024 * 1024"

definition signaturePrefix :: string where "signaturePrefix = ''sha256=''"

definition errUnauthenticatedHMAC :: goerr where
  "errUnauthenticatedHMAC = Errorf [Wrap (Sentinel ErrUnauthenticated), Lit '': webhook signature invalid'']"

definition VerifyGitHubHMAC :: "unicode \<Rightarrow> string \<Rightarrow> 'q handler \<Rightarrow> 'q handler" where
  "VerifyGitHubHMAC U secret nxt r q =
     (if secret = [] then (err_Write U (wh_req r) errUnauthenticatedHMAC, q)
      else let sig = wh_header r ''X-Hub-Signature-256'' in
        if \<not> HasPrefix sig signaturePrefix then (err_Write U (wh_req r) errUnauthenticatedHMAC, q)
        else (case hex_decode (drop (length signaturePrefix) sig) of
          None \<Rightarrow> (err_Write U (wh_req r) errUnauthenticatedHMAC, q)
        | Some expected \<Rightarrow>
            (case read_limit (maxWebhookBody + 1) r of
               Inl e \<Rightarrow> (err_Write U (wh_req r)
                 (Errorf [Wrap (Sentinel ErrInvalidInput), Lit '': read body: '', Wrap e]), q)
             | Inr body \<Rightarrow>
                 if length body > maxWebhookBody then
                   (err_Write U (wh_req r) (Errorf [Wrap (Sentinel ErrInvalidInput), Lit '': body exceeds '',
                      Dec (int maxWebhookBody), Lit '' bytes'']), q)
                 else if hmac_sha256 secret body \<noteq> expected then
                   (err_Write U (wh_req r) errUnauthenticatedHMAC, q)
                 else nxt (r\<lparr>wh_body := (body, None)\<rparr>) q)))"

section \<open>Payloads\<close>

record pushRepository =
  re_FullName :: string
  re_DefaultBranch :: string

record pushCommit =
  co_ID :: string
  co_Added :: "string list"
  co_Modified :: "string list"
  co_Removed :: "string list"

record pushPayload =
  pp_Ref :: string
  pp_Repository :: pushRepository
  pp_Commits :: "pushCommit list"
  pp_HeadCommit :: "pushCommit option"

record prInfo =
  pr_Number :: int

record prPayload =
  pq_Repository :: pushRepository
  pq_PullRequest :: prInfo

definition zero_repository :: pushRepository where
  "zero_repository = \<lparr>re_FullName = [], re_DefaultBranch = []\<rparr>"

definition zero_commit :: pushCommit where
  "zero_commit = \<lparr>co_ID = [], co_Added = [], co_Modified = [], co_Removed = []\<rparr>"

definition dec_repository :: "pushRepository \<Rightarrow> json \<Rightarrow> pushRepository option" where
  "dec_repository old j =
     Option.bind (obj_members j) (\<lambda>ms.
       case (field dec_string ''full_name'' (re_FullName old) ms, field dec_string ''default_branch'' (re_DefaultBranch old) ms) of
         (Some f, Some b) \<Rightarrow> Some \<lparr>re_FullName = f, re_DefaultBranch = b\<rparr> | _ \<Rightarrow> None)"

definition dec_commit :: "pushCommit \<Rightarrow> json \<Rightarrow> pushCommit option" where
  "dec_commit old j =
     Option.bind (obj_members j) (\<lambda>ms.
       case (field dec_string ''id'' (co_ID old) ms, field dec_strings ''added'' (co_Added old) ms,
             field dec_strings ''modified'' (co_Modified old) ms, field dec_strings ''removed'' (co_Removed old) ms) of
         (Some i, Some a, Some m, Some r) \<Rightarrow> Some \<lparr>co_ID = i, co_Added = a, co_Modified = m, co_Removed = r\<rparr>
       | _ \<Rightarrow> None)"

text \<open>A pointer to a commit: \<^verbatim>\<open>null\<close> clears it.\<close>

definition dec_commit_ptr :: "pushCommit option \<Rightarrow> json \<Rightarrow> pushCommit option option" where
  "dec_commit_ptr old j =
     (case j of JNull \<Rightarrow> Some None
      | _ \<Rightarrow> map_option Some (dec_commit (case old of Some c \<Rightarrow> c | None \<Rightarrow> zero_commit) j))"

definition unmarshal_push :: "string \<Rightarrow> pushPayload option" where
  "unmarshal_push body =
     Option.bind (parse_json body) (\<lambda>j. Option.bind (obj_members j) (\<lambda>ms.
       case (str_field ''ref'' ms, field dec_repository ''repository'' zero_repository ms,
             field (dec_list (dec_commit zero_commit)) ''commits'' [] ms, field dec_commit_ptr ''head_commit'' None ms) of
         (Some r, Some p, Some c, Some h) \<Rightarrow>
           Some \<lparr>pp_Ref = r, pp_Repository = p, pp_Commits = c, pp_HeadCommit = h\<rparr>
       | _ \<Rightarrow> None))"

definition dec_pr :: "prInfo \<Rightarrow> json \<Rightarrow> prInfo option" where
  "dec_pr old j = Option.bind (obj_members j) (\<lambda>ms. map_option (\<lambda>n. \<lparr>pr_Number = n\<rparr>) (field dec_int ''number'' (pr_Number old) ms))"

definition unmarshal_pr :: "string \<Rightarrow> prPayload option" where
  "unmarshal_pr body =
     Option.bind (parse_json body) (\<lambda>j. Option.bind (obj_members j) (\<lambda>ms.
       case (field dec_repository ''repository'' zero_repository ms, field dec_pr ''pull_request'' \<lparr>pr_Number = 0\<rparr> ms) of
         (Some r, Some p) \<Rightarrow> Some \<lparr>pq_Repository = r, pq_PullRequest = p\<rparr>
       | _ \<Rightarrow> None))"

section \<open>Paths and sources\<close>

text \<open>A Go map as the list of its entries; the latest assignment is last.\<close>

definition map_put :: "'k \<Rightarrow> 'v \<Rightarrow> ('k \<times> 'v) list \<Rightarrow> ('k \<times> 'v) list" where
  "map_put k v m = filter (\<lambda>p. fst p \<noteq> k) m @ [(k, v)]"

definition map_del :: "'k \<Rightarrow> ('k \<times> 'v) list \<Rightarrow> ('k \<times> 'v) list" where
  "map_del k m = filter (\<lambda>p. fst p \<noteq> k) m"

definition touch_commit :: "string \<Rightarrow> pushCommit \<Rightarrow> (string \<times> string) list \<Rightarrow> (string \<times> string) list" where
  "touch_commit headSHA c out =
     fold map_del (co_Removed c)
       (fold (\<lambda>p. map_put p headSHA) (co_Modified c)
         (fold (\<lambda>p. map_put p headSHA) (co_Added c) out))"

definition headSHA :: "pushPayload \<Rightarrow> string" where
  "headSHA p = (case pp_HeadCommit p of None \<Rightarrow> [] | Some c \<Rightarrow> co_ID c)"

definition collectTouchedPaths :: "pushPayload \<Rightarrow> (string \<times> string) list" where
  "collectTouchedPaths p = fold (touch_commit (headSHA p)) (pp_Commits p) []"

fun matchSource :: "unicode \<Rightarrow> SourceRepo list \<Rightarrow> string \<Rightarrow> string \<Rightarrow> SourceRepo option" where
  "matchSource U [] fullName path = None"
| "matchSource U (src # srcs) fullName path =
     (if sr_repo src \<noteq> fullName then matchSource U srcs fullName path
      else if \<not> HasPrefix path (sr_path src) then matchSource U srcs fullName path
      else if \<not> HasSuffix (ToLower U path) ''.md'' then matchSource U srcs fullName path
      else Some src)"

definition repoInSources :: "SourceRepo list \<Rightarrow> string \<Rightarrow> bool" where
  "repoInSources sources repo = list_ex (\<lambda>s. sr_repo s = repo) sources"

definition branchFromRef :: "string \<Rightarrow> string \<Rightarrow> string" where
  "branchFromRef ref fallback =
     (if HasPrefix ref ''refs/heads/'' then TrimPrefix ref ''refs/heads/''
      else if fallback \<noteq> [] then fallback else ''main'')"

section \<open>Handler\<close>

text \<open>The configured sources and whether a queue is wired.\<close>

record Webhook =
  wb_sources :: "SourceRepo list"
  wb_queue :: bool

text \<open>The job of one touched path; \<^verbatim>\<open>json.Marshal\<close> writes the keys of a map in order.\<close>

definition push_job :: "unicode \<Rightarrow> Webhook \<Rightarrow> pushPayload \<Rightarrow> string \<times> string \<Rightarrow> (string \<times> string \<times> json \<times> time) option" where
  "push_job U h p touched =
     (case touched of (path, sha) \<Rightarrow>
        map_option (\<lambda>src. (''ingest'', ''content:'' @ sha,
            JObj [(''branch'', JStr (branchFromRef (pp_Ref p) (sr_branch src))), (''content_sha'', JStr sha),
                  (''parser'', JStr (sr_parser src)), (''path'', JStr path), (''repo'', JStr (sr_repo src)),
                  (''type_id'', JStr (sr_type_id src))], 0))
          (matchSource U (wb_sources h) (re_FullName (pp_Repository p)) path))"

text \<open>\<open>ord\<close> is the order in which the map of touched paths is ranged over.\<close>

definition handlePush :: "unicode \<Rightarrow> 'q enqueue_fn \<Rightarrow> ((string \<times> string) list \<Rightarrow> (string \<times> string) list) \<Rightarrow> Webhook
    \<Rightarrow> wh_request \<Rightarrow> 'q \<Rightarrow> 'q" where
  "handlePush U enq ord h r q =
     (case read_all r of Inl e \<Rightarrow> q
      | Inr body \<Rightarrow>
          (case unmarshal_push body of None \<Rightarrow> q
           | Some p \<Rightarrow>
               if \<not> wb_queue h \<or> length (wb_sources h) = 0 then q
               else fold (\<lambda>touched q. case push_job U h p touched of None \<Rightarrow> q
                      | Some (kind, key, payload, t) \<Rightarrow> fst (enq kind key payload t q))
                    (ord (collectTouchedPaths p)) q))"

definition handlePullRequest :: "'q enqueue_fn \<Rightarrow> Webhook \<Rightarrow> wh_request \<Rightarrow> 'q \<Rightarrow> 'q" where
  "handlePullRequest enq h r q =
     (case read_all r of Inl e \<Rightarrow> q
      | Inr body \<Rightarrow>
          (case unmarshal_pr body of None \<Rightarrow> q
           | Some p \<Rightarrow>
               let repo = re_FullName (pq_Repository p); n = pr_Number (pq_PullRequest p) in
               if \<not> wb_queue h \<or> repo = [] \<or> n = 0 then q
               else if \<not> repoInSources (wb_sources h) repo then q
               else fst (enq ''discussion_fetch'' (''discussion-pr:'' @ repo @ '':'' @ Itoa n)
                      (JObj [(''pr_number'', JNum (Itoa n)), (''repo'', JStr repo)]) 0 q)))"

definition GitHub :: "unicode \<Rightarrow> 'q enqueue_fn \<Rightarrow> ((string \<times> string) list \<Rightarrow> (string \<times> string) list) \<Rightarrow> Webhook
    \<Rightarrow> 'q handler" where
  "GitHub U enq ord h r q =
     (let event = wh_header r ''X-GitHub-Event'';
          q' = (if event = ''push'' then handlePush U enq ord h r q
                else if event \<in> set [''pull_request'', ''pull_request_review'', ''pull_request_review_comment'']
                then handlePullRequest enq h r q
                else q)
      in (\<lparr>rs_status = 202, rs_headers = [], rs_body = BText []\<rparr>, q'))"

section \<open>Signature check\<close>

text \<open>A delivery signed with the secret: the header is the scheme and the hexadecimal HMAC of the
  body.\<close>

definition signed :: "string \<Rightarrow> wh_request \<Rightarrow> bool" where
  "signed secret r =
     (secret \<noteq> [] \<and> snd (wh_body r) = None \<and> length (fst (wh_body r)) \<le> maxWebhookBody
      \<and> HasPrefix (wh_header r ''X-Hub-Signature-256'') signaturePrefix
      \<and> hex_decode (drop (length signaturePrefix) (wh_header r ''X-Hub-Signature-256'')) =
          Some (hmac_sha256 secret (fst (wh_body r))))"

definition client_error :: "response \<Rightarrow> bool" where
  "client_error resp = (400 \<le> rs_status resp \<and> rs_status resp < 500)"

lemma hmac_statuses [simp]:
  "client_error (err_Write U r errUnauthenticatedHMAC)"
  "client_error (err_Write U r (Errorf [Wrap (Sentinel ErrInvalidInput), Lit a, Dec n, Lit b]))"
  "client_error (err_Write U r (Errorf [Wrap (Sentinel ErrInvalidInput), Lit a, Wrap e]))"
  by (simp_all add: client_error_def err_Write_def classify_def errUnauthenticatedHMAC_def Let_def)

lemma read_limit_fits:
  "length (fst (wh_body r)) \<le> n \<Longrightarrow> snd (wh_body r) = None \<Longrightarrow> read_limit (Suc n) r = Inr (fst (wh_body r))"
  by (cases "wh_body r") (simp add: read_limit_def)

lemma read_limit_Inr:
  "read_limit (Suc n) r = Inr body \<Longrightarrow> length body \<le> n \<Longrightarrow> wh_body r = (body, None)"
  by (cases "wh_body r") (auto simp: read_limit_def split: if_splits option.splits)

lemma update_same_body: "wh_body r = (body, None) \<Longrightarrow> r\<lparr>wh_body := (body, None)\<rparr> = r"
  by (cases r) simp

lemma unsigned_rejected:
  assumes "\<not> signed secret r"
  shows "\<exists>resp. VerifyGitHubHMAC U secret nxt r q = (resp, q) \<and> client_error resp"
proof (cases "read_limit (Suc maxWebhookBody) r")
  case (Inl e)
  then show ?thesis by (simp add: VerifyGitHubHMAC_def Let_def split: option.split)
next
  case (Inr body)
  then show ?thesis
    using assms read_limit_Inr [OF Inr] by (auto simp: VerifyGitHubHMAC_def signed_def Let_def split: option.split)
qed

text \<open>The webhook handler runs on exactly the authentic deliveries: when the request carries the
  HMAC-SHA256 of its body under the configured, non-empty secret (and the body is within 25 MiB), the
  next handler runs on the unchanged request; otherwise a client error is answered and the queue is not
  touched.\<close>

theorem signature_gate:
  "if signed secret r then VerifyGitHubHMAC U secret nxt r q = nxt r q
   else \<exists>resp. VerifyGitHubHMAC U secret nxt r q = (resp, q) \<and> client_error resp"
proof (cases "signed secret r")
  case True
  then have "read_limit (Suc maxWebhookBody) r = Inr (fst (wh_body r))" and "wh_body r = (fst (wh_body r), None)"
    by (auto simp: signed_def prod_eq_iff intro: read_limit_fits)
  then show ?thesis using True update_same_body [of r] by (simp add: VerifyGitHubHMAC_def signed_def Let_def)
next
  case False
  then show ?thesis using unsigned_rejected [OF False] by simp
qed

text \<open>What GitHub sends is signed.\<close>

lemma delivery_signed:
  "secret \<noteq> [] \<Longrightarrow> length body \<le> maxWebhookBody \<Longrightarrow> wh_body r = (body, None) \<Longrightarrow>
   wh_header r ''X-Hub-Signature-256'' = signaturePrefix @ hex_encode (hmac_sha256 secret body) \<Longrightarrow> signed secret r"
  by (simp add: signed_def HasPrefix_def hex_roundtrip)

section \<open>Push events\<close>

abbreviation all_sha :: "string \<Rightarrow> (string \<times> string) list \<Rightarrow> bool" where
  "all_sha sha out \<equiv> snd ` set out \<subseteq> {sha}"

lemma touch_put: "all_sha sha out \<Longrightarrow> all_sha sha (fold (\<lambda>p. map_put p sha) ps out)"
proof (induction ps arbitrary: out)
  case (Cons a ps)
  have "all_sha sha (map_put a sha out)" using Cons.prems by (auto simp: map_put_def)
  then show ?case using Cons.IH by simp
qed simp

lemma touch_del: "all_sha sha out \<Longrightarrow> all_sha sha (fold map_del ps out)"
proof (induction ps arbitrary: out)
  case (Cons a ps)
  have "all_sha sha (map_del a out)" using Cons.prems by (auto simp: map_del_def)
  then show ?case using Cons.IH by simp
qed simp

lemma touch_all: "all_sha sha out \<Longrightarrow> all_sha sha (fold (touch_commit sha) cs out)"
proof (induction cs arbitrary: out)
  case Nil
  then show ?case by simp
next
  case (Cons c cs)
  have "all_sha sha (touch_commit sha c out)"
    unfolding touch_commit_def by (intro touch_del touch_put Cons.prems)
  then show ?case using Cons.IH by simp
qed

lemma touched_sha: "(path, sha) \<in> set (collectTouchedPaths p) \<Longrightarrow> sha = headSHA p"
  using touch_all [of "[]" "headSHA p" "pp_Commits p"] by (fastforce simp: collectTouchedPaths_def)

text \<open>The paths of a push that belong to a source.\<close>

definition matched_paths :: "unicode \<Rightarrow> Webhook \<Rightarrow> pushPayload \<Rightarrow> string list" where
  "matched_paths U h p =
     filter (\<lambda>path. matchSource U (wb_sources h) (re_FullName (pp_Repository p)) path \<noteq> None)
       (map fst (collectTouchedPaths p))"

lemma push_job_key: "t \<in> set (collectTouchedPaths p) \<Longrightarrow> push_job U h p t = Some (kind, key, body, ra) \<Longrightarrow>
    kind = ''ingest'' \<and> key = ''content:'' @ headSHA p \<and> fst t \<in> set (matched_paths U h p)"
  by (cases t) (force simp: push_job_def matched_paths_def dest: touched_sha)

lemma push_job_some: "path \<in> set (matched_paths U h p) \<Longrightarrow>
    \<exists>t \<in> set (collectTouchedPaths p). \<exists>body. push_job U h p t = Some (''ingest'', ''content:'' @ headSHA p, body, 0)"
  by (force simp: push_job_def matched_paths_def dest: touched_sha)

lemma acked_enq:
  "(\<And>n. ee_db E n = Acked) \<Longrightarrow> kind \<noteq> [] \<Longrightarrow> key \<noteq> [] \<Longrightarrow> snd (jobs_enq E kind key body t q) = None"
  by (cases q) (simp add: jobs_enq_def Enqueue_def Let_def)

text \<open>A push event leaves at most one ingest job, whatever number of documents it touched: all its
  paths share the dedup key made of the head commit. When the database answers, the ingest keys of the
  queue after a signed push are those before it and, if some touched path belongs to a source, the one
  key of the head commit; the other keys are as before, and the answer is 202.\<close>

theorem push_one_key:
  assumes "wh_header r ''X-GitHub-Event'' = ''push''" and "wh_body r = (body, None)"
    and "unmarshal_push body = Some p" and "wb_queue h" and "wb_sources h \<noteq> []"
    and "\<And>n. ee_db E n = Acked" and "set (ord (collectTouchedPaths p)) = set (collectTouchedPaths p)"
  shows "rs_status (fst (GitHub U (jobs_enq E) ord h r q)) = 202
    \<and> has_job (snd (GitHub U (jobs_enq E) ord h r q)) kind key =
       (has_job q kind key
        \<or> (kind = ''ingest'' \<and> key = ''content:'' @ headSHA p \<and> matched_paths U h p \<noteq> []))"
proof -
  have g: "snd (GitHub U (jobs_enq E) ord h r q) = jq.enq_all E (push_job U h p) (ord (collectTouchedPaths p)) q"
    using assms(1-5) by (simp add: GitHub_def Let_def handlePush_def read_all_def jq.enq_all_def)
  have "has_job (jq.enq_all E (push_job U h p) (ord (collectTouchedPaths p)) q) kind key =
       (has_job q kind key
        \<or> (kind = ''ingest'' \<and> key = ''content:'' @ headSHA p \<and> matched_paths U h p \<noteq> []))" (is "?l = ?r")
  proof
    assume ?l
    then consider "has_job q kind key" | t b ra where "t \<in> set (collectTouchedPaths p)" "push_job U h p t = Some (kind, key, b, ra)"
      using jq.enq_all_only assms(7) by blast
    then show ?r
    proof cases
      case 2
      then show ?thesis using push_job_key [OF 2] by auto
    qed simp
  next
    assume ?r
    then show ?l
    proof
      assume "has_job q kind key"
      then show ?thesis by (rule jq.enq_all_keeps)
    next
      assume a: "kind = ''ingest'' \<and> key = ''content:'' @ headSHA p \<and> matched_paths U h p \<noteq> []"
      then obtain path where "path \<in> set (matched_paths U h p)" by (metis list.set_intros(1) neq_Nil_conv)
      then obtain t b where t: "t \<in> set (ord (collectTouchedPaths p))"
        "push_job U h p t = Some (''ingest'', ''content:'' @ headSHA p, b, 0)"
        using push_job_some assms(7) by metis
      show ?thesis
        using a jq.enq_all_has [where E = E and f = "push_job U h p" and q = q, OF acked_enq [OF assms(6)] t] by simp
    qed
  qed
  then show ?thesis by (simp add: g) (simp add: GitHub_def Let_def)
qed

definition sample_push :: string where
  "sample_push = ''{\"ref\":\"refs/heads/main\",\"repository\":{\"full_name\":\"o/r\"},\"commits\":[{\"added\":[\"d/1.md\",\"d/2.md\"]}],\"head_commit\":{\"id\":\"abc\"}}''"

definition sample_source :: SourceRepo where
  "sample_source = \<lparr>sr_type_id = ''rfc'', sr_repo = ''o/r'', sr_path = ''d/'', sr_parser = ''docz-markdown'', sr_branch = ''main''\<rparr>"

definition push_request :: wh_request where
  "push_request = \<lparr>wh_req = sample_request [],
     wh_header = (\<lambda>k. if k = ''X-GitHub-Event'' then ''push'' else []), wh_body = (sample_push, None)\<rparr>"

definition sample_payload :: pushPayload where
  "sample_payload = \<lparr>pp_Ref = ''refs/heads/main'', pp_Repository = \<lparr>re_FullName = ''o/r'', re_DefaultBranch = []\<rparr>,
     pp_Commits = [zero_commit\<lparr>co_Added := [''d/1.md'', ''d/2.md'']\<rparr>], pp_HeadCommit = Some (zero_commit\<lparr>co_ID := ''abc''\<rparr>)\<rparr>"

definition all_acked :: enq_env where
  "all_acked = \<lparr>ee_db = (\<lambda>_. Acked), ee_uuid = (\<lambda>n. n), ee_gnow = (\<lambda>_. 1000), ee_now = (\<lambda>_. 1000)\<rparr>"

lemma unmarshal_sample: "unmarshal_push sample_push = Some sample_payload"
  by code_simp

theorem push_one_key_witness:
  "matched_paths ascii_only \<lparr>wb_sources = [sample_source], wb_queue = True\<rparr> sample_payload = [''d/1.md'', ''d/2.md'']
   \<and> has_job (snd (GitHub ascii_only (jobs_enq all_acked) (\<lambda>m. m) \<lparr>wb_sources = [sample_source], wb_queue = True\<rparr>
        push_request ([], 0))) ''ingest'' ''content:abc''
   \<and> \<not> has_job (snd (GitHub ascii_only (jobs_enq all_acked) (\<lambda>m. m) \<lparr>wb_sources = [sample_source], wb_queue = True\<rparr>
        push_request ([], 0))) ''ingest'' ''content:def''"
proof -
  let ?h = "\<lparr>wb_sources = [sample_source], wb_queue = True\<rparr>"
  have m: "matched_paths ascii_only ?h sample_payload = [''d/1.md'', ''d/2.md'']" by code_simp
  have h: "headSHA sample_payload = ''abc''" by code_simp
  have ev: "wh_header push_request ''X-GitHub-Event'' = ''push''" and b: "wh_body push_request = (sample_push, None)"
    by (simp_all add: push_request_def)
  have k: "has_job (snd (GitHub ascii_only (jobs_enq all_acked) (\<lambda>m. m) ?h push_request ([], 0))) kind key =
      (kind = ''ingest'' \<and> key = ''content:abc'')" for kind key
    using push_one_key [OF ev b unmarshal_sample, of ?h all_acked "\<lambda>m. m" ascii_only "([], 0)" kind key]
    by (simp add: all_acked_def has_job_def m h)
  show ?thesis using m k by simp
qed

end
