(* ===== verification/Postgres.thy ===== *)
theory Postgres
  imports Service Queue
begin

text \<open>
  The Postgres document store, \<^verbatim>\<open>internal/store/postgres/docs.go\<close>, over the tables of
  \<^verbatim>\<open>db/migrations/0001_init.up.sql\<close>. A table is the list of its rows; a statement is the
  operation it performs, with the constraints of the schema (primary keys, foreign keys, the
  check on link directions) deciding whether it is refused. The twenty-four list queries are
  values of a small query language that is evaluated with positional arguments, so that the
  choice of query and arguments in \<open>buildListQuery\<close> is part of the model.

  What the database and the driver decide is in the environment: which statement fails with
  which error, the fate of a commit, the clocks, and the collation of text.
\<close>

section \<open>Tables\<close>

record DocRow =
  dr_id :: string
  dr_type :: string
  dr_title :: string
  dr_status :: "string option"
  dr_body :: "string option"
  dr_created :: time
  dr_updated :: time
  dr_labels :: "string list"
  dr_extensions :: "(string \<times> json) list"
  dr_repo :: "string option"
  dr_path :: "string option"
  dr_commit :: "string option"

record AuthorRow =
  ar_doc :: string
  ar_seq :: int
  ar_name :: string
  ar_email :: "string option"
  ar_handle :: "string option"

record LinkRow =
  lr_source :: string
  lr_target :: string
  lr_direction :: string
  lr_label :: "string option"

record DiscRow =
  di_doc :: string
  di_url :: "string option"
  di_count :: int
  di_activity :: "time option"
  di_synced :: "time option"

record PartRow =
  pr_doc :: string
  pr_seq :: int
  pr_handle :: string
  pr_name :: "string option"
  pr_email :: "string option"

record DB =
  t_documents :: "DocRow list"
  t_authors :: "AuthorRow list"
  t_links :: "LinkRow list"
  t_discussions :: "DiscRow list"
  t_participants :: "PartRow list"

record PgEnv =
  pg_fail :: "string \<Rightarrow> goerr option"
  pg_commit :: exec
  pg_gonow :: time
  pg_now :: time
  pg_collate :: id_lt

section \<open>Query helpers\<close>

definition upstream :: "string \<Rightarrow> goerr \<Rightarrow> goerr" where
  "upstream what err = Errorf [Lit what, Lit '': '', Wrap (Sentinel ErrUpstream), Lit '': '', Wrap err]"

text \<open>A call that fails when the environment says so.\<close>

definition pg_try :: "PgEnv \<Rightarrow> string \<Rightarrow> 'a \<Rightarrow> 'a result" where
  "pg_try env what v = (case pg_fail env what of None \<Rightarrow> Inr v | Some e \<Rightarrow> Inl (upstream what e))"

text \<open>Issuing a query, scanning its rows one by one, and the error of the iteration.\<close>

definition pg_rows :: "PgEnv \<Rightarrow> string \<Rightarrow> string \<Rightarrow> string \<Rightarrow> 'a list \<Rightarrow> 'a list result" where
  "pg_rows env query scan iter rows =
     bindR (pg_try env query ()) (\<lambda>_.
     bindR (if rows = [] then Inr () else pg_try env scan ()) (\<lambda>_.
     pg_try env iter rows))"

definition str_of :: "string option \<Rightarrow> string" where
  "str_of s = (case s of None \<Rightarrow> [] | Some x \<Rightarrow> x)"

definition scanDocument :: "DocRow \<Rightarrow> Document" where
  "scanDocument r = zero_document\<lparr>d_id := dr_id r, d_type := dr_type r, d_title := dr_title r,
     d_status := str_of (dr_status r), d_body := str_of (dr_body r), d_created := dr_created r,
     d_updated := dr_updated r, d_labels := dr_labels r, d_extensions := dr_extensions r,
     d_source := zero_source\<lparr>so_repo := str_of (dr_repo r), so_path := str_of (dr_path r),
       so_commit := str_of (dr_commit r)\<rparr>\<rparr>"

definition pg_docs :: "DB \<Rightarrow> Document list" where
  "pg_docs db = map scanDocument (t_documents db)"

section \<open>Reads of one document\<close>

definition getDocument :: "PgEnv \<Rightarrow> DB \<Rightarrow> DocumentID \<Rightarrow> Document result" where
  "getDocument env db i =
     (case find (\<lambda>r. dr_id r = i) (t_documents db) of
        None \<Rightarrow> bindR (pg_try env ''scan document'' ()) (\<lambda>_. Inl (not_found i))
      | Some r \<Rightarrow> pg_try env ''scan document'' (scanDocument r))"

definition scan_author :: "AuthorRow \<Rightarrow> Author" where
  "scan_author r = \<lparr>a_name = ar_name r, a_email = str_of (ar_email r), a_handle = str_of (ar_handle r)\<rparr>"

definition pg_Authors :: "PgEnv \<Rightarrow> DB \<Rightarrow> DocumentID \<Rightarrow> Author list result" where
  "pg_Authors env db i =
     pg_rows env ''query authors'' ''scan author row'' ''iterate author rows''
       (map scan_author (sort_slice (\<lambda>a b. ar_seq a < ar_seq b) (filter (\<lambda>r. ar_doc r = i) (t_authors db))))"

definition discussionOrNil :: "PgEnv \<Rightarrow> DB \<Rightarrow> DocumentID \<Rightarrow> Discussion option result" where
  "discussionOrNil env db i =
     pg_try env ''scan discussion''
       (map_option (\<lambda>r. \<lparr>ds_url = str_of (di_url r), ds_comment_count = di_count r, ds_participants = [],
            ds_last_activity = (case di_activity r of None \<Rightarrow> 0 | Some t \<Rightarrow> t)\<rparr>)
          (find (\<lambda>r. di_doc r = i) (t_discussions db)))"

definition pg_Get :: "PgEnv \<Rightarrow> DB \<Rightarrow> DocumentID \<Rightarrow> Document result" where
  "pg_Get env db i =
     bindR (getDocument env db i) (\<lambda>doc.
     bindR (pg_Authors env db i) (\<lambda>authors.
     bindR (discussionOrNil env db i) (\<lambda>disc.
     Inr (doc\<lparr>d_authors := authors, d_discussion := disc\<rparr>))))"

definition ensureExists :: "PgEnv \<Rightarrow> DB \<Rightarrow> DocumentID \<Rightarrow> unit result" where
  "ensureExists env db i =
     bindR (pg_try env ''check document existence'' (\<exists>r \<in> set (t_documents db). dr_id r = i))
       (\<lambda>found. if \<not> found then Inl (not_found i) else Inr ())"

definition link_lt :: "id_lt \<Rightarrow> string \<times> string \<times> 'a \<Rightarrow> string \<times> string \<times> 'a \<Rightarrow> bool" where
  "link_lt coll a b =
     (case a of (ta, da, _) \<Rightarrow> case b of (tb, d, _) \<Rightarrow> coll da d \<or> da = d \<and> coll ta tb)"

definition pg_Links :: "PgEnv \<Rightarrow> DB \<Rightarrow> DocumentID \<Rightarrow> Link list result" where
  "pg_Links env db i =
     bindR (ensureExists env db i) (\<lambda>_.
     pg_rows env ''query links'' ''scan link row'' ''iterate link rows''
       (map (\<lambda>(target, direction, label). \<lparr>l_direction = direction, l_target = target, l_href = [],
              l_label = str_of label\<rparr>)
         (sort_slice (link_lt (pg_collate env))
           (map (\<lambda>r. (lr_target r, lr_direction r, lr_label r)) (filter (\<lambda>r. lr_source r = i) (t_links db))
            @ map (\<lambda>r. (lr_source r, ''incoming'', lr_label r))
                (filter (\<lambda>r. lr_target r = i \<and> lr_direction r = ''outgoing'') (t_links db))))))"

definition discussionParticipants :: "PgEnv \<Rightarrow> DB \<Rightarrow> DocumentID \<Rightarrow> Author list result" where
  "discussionParticipants env db i =
     pg_rows env ''query participants'' ''scan participant row'' ''iterate participant rows''
       (map (\<lambda>r. \<lparr>a_name = str_of (pr_name r), a_email = str_of (pr_email r), a_handle = pr_handle r\<rparr>)
         (sort_slice (\<lambda>a b. pr_seq a < pr_seq b) (filter (\<lambda>r. pr_doc r = i) (t_participants db))))"

definition pg_Discussion :: "PgEnv \<Rightarrow> DB \<Rightarrow> DocumentID \<Rightarrow> Discussion result" where
  "pg_Discussion env db i =
     bindR (ensureExists env db i) (\<lambda>_.
     bindR (discussionOrNil env db i) (\<lambda>disc.
       case disc of
         None \<Rightarrow> Inr zero_discussion
       | Some d \<Rightarrow> bindR (discussionParticipants env db i) (\<lambda>ps. Inr (d\<lparr>ds_participants := ps\<rparr>))))"

definition pg_Revisions :: "PgEnv \<Rightarrow> DB \<Rightarrow> DocumentID \<Rightarrow> Revision list result" where
  "pg_Revisions env db i = bindR (ensureExists env db i) (\<lambda>_. Inr [])"

section \<open>Counts and id lists\<close>

definition pg_CountAll :: "PgEnv \<Rightarrow> DB \<Rightarrow> int result" where
  "pg_CountAll env db = pg_try env ''count all documents'' (int (length (t_documents db)))"

definition countDocuments :: "PgEnv \<Rightarrow> DB \<Rightarrow> string list \<Rightarrow> int result" where
  "countDocuments env db typeIDs =
     pg_try env ''count documents''
       (if length typeIDs = 0 then int (length (t_documents db))
        else int (length (filter (\<lambda>r. dr_type r \<in> set typeIDs) (t_documents db))))"

text \<open>The map of a query with \<^verbatim>\<open>GROUP BY type\<close>: one entry per type that occurs.\<close>

definition CountByType :: "PgEnv \<Rightarrow> DB \<Rightarrow> (string \<times> int) list result" where
  "CountByType env db =
     pg_rows env ''query count by type'' ''scan count row'' ''iterate count rows''
       (map (\<lambda>t. (t, int (length (filter (\<lambda>r. dr_type r = t) (t_documents db)))))
          (remdups (map dr_type (t_documents db))))"

definition all_ids_lt :: "id_lt \<Rightarrow> DocRow \<Rightarrow> DocRow \<Rightarrow> bool" where
  "all_ids_lt coll a b = (dr_created a < dr_created b \<or> dr_created a = dr_created b \<and> coll (dr_id a) (dr_id b))"

definition AllIDs :: "PgEnv \<Rightarrow> DB \<Rightarrow> DocumentID list result" where
  "AllIDs env db =
     pg_rows env ''query all ids'' ''scan id row'' ''iterate id rows''
       (map dr_id (sort_slice (all_ids_lt (pg_collate env)) (t_documents db)))"

section \<open>The list queries\<close>

text \<open>
  The fragment of SQL the queries are written in: comparisons of a column with a positional
  argument, the type filter \<^verbatim>\<open>type = ANY($n)\<close>, conjunction and disjunction, an \<^verbatim>\<open>ORDER BY\<close> list
  of columns with their directions, and the position of the \<^verbatim>\<open>LIMIT\<close>.
\<close>

datatype sqlcol = CreatedAt | UpdatedAt | IdCol
datatype sqlarg = ATypes "string list" | ATime time | AText string | AInt int
datatype sqlpred = WTrue | WTypeAny nat | WLess sqlcol nat | WGreater sqlcol nat | WEq sqlcol nat
  | WAnd sqlpred sqlpred | WOr sqlpred sqlpred
datatype dir = ASC | DESC

record ListSQL =
  q_where :: sqlpred
  q_order :: "(sqlcol \<times> dir) list"
  q_limit :: nat

fun arg :: "sqlarg list \<Rightarrow> nat \<Rightarrow> sqlarg option" where
  "arg args n = (if 1 \<le> n \<and> n \<le> length args then Some (args ! (n - 1)) else None)"

text \<open>Comparing a column of a row with an argument; a time argument is cut to microseconds.\<close>

fun col_lt :: "id_lt \<Rightarrow> sqlcol \<Rightarrow> Document \<Rightarrow> sqlarg option \<Rightarrow> bool" where
  "col_lt coll CreatedAt d (Some (ATime t)) = (d_created d < pg_time t)"
| "col_lt coll UpdatedAt d (Some (ATime t)) = (d_updated d < pg_time t)"
| "col_lt coll IdCol d (Some (AText i)) = coll (d_id d) i"
| "col_lt coll _ d _ = False"

fun col_gt :: "id_lt \<Rightarrow> sqlcol \<Rightarrow> Document \<Rightarrow> sqlarg option \<Rightarrow> bool" where
  "col_gt coll CreatedAt d (Some (ATime t)) = (pg_time t < d_created d)"
| "col_gt coll UpdatedAt d (Some (ATime t)) = (pg_time t < d_updated d)"
| "col_gt coll IdCol d (Some (AText i)) = coll i (d_id d)"
| "col_gt coll _ d _ = False"

fun col_eq :: "sqlcol \<Rightarrow> Document \<Rightarrow> sqlarg option \<Rightarrow> bool" where
  "col_eq CreatedAt d (Some (ATime t)) = (d_created d = pg_time t)"
| "col_eq UpdatedAt d (Some (ATime t)) = (d_updated d = pg_time t)"
| "col_eq IdCol d (Some (AText i)) = (d_id d = i)"
| "col_eq _ d _ = False"

fun sql_where :: "id_lt \<Rightarrow> sqlarg list \<Rightarrow> sqlpred \<Rightarrow> Document \<Rightarrow> bool" where
  "sql_where coll args WTrue d = True"
| "sql_where coll args (WTypeAny n) d =
     (case arg args n of Some (ATypes tys) \<Rightarrow> d_type d \<in> set tys | _ \<Rightarrow> False)"
| "sql_where coll args (WLess c n) d = col_lt coll c d (arg args n)"
| "sql_where coll args (WGreater c n) d = col_gt coll c d (arg args n)"
| "sql_where coll args (WEq c n) d = col_eq c d (arg args n)"
| "sql_where coll args (WAnd p q) d = (sql_where coll args p d \<and> sql_where coll args q d)"
| "sql_where coll args (WOr p q) d = (sql_where coll args p d \<or> sql_where coll args q d)"

fun row_lt :: "id_lt \<Rightarrow> sqlcol \<Rightarrow> Document \<Rightarrow> Document \<Rightarrow> bool" where
  "row_lt coll CreatedAt a b = (d_created a < d_created b)"
| "row_lt coll UpdatedAt a b = (d_updated a < d_updated b)"
| "row_lt coll IdCol a b = coll (d_id a) (d_id b)"

fun sql_order :: "id_lt \<Rightarrow> (sqlcol \<times> dir) list \<Rightarrow> Document \<Rightarrow> Document \<Rightarrow> bool" where
  "sql_order coll [] a b = False"
| "sql_order coll ((c, ASC) # os) a b =
     (row_lt coll c a b \<or> \<not> row_lt coll c b a \<and> sql_order coll os a b)"
| "sql_order coll ((c, DESC) # os) a b =
     (row_lt coll c b a \<or> \<not> row_lt coll c a b \<and> sql_order coll os a b)"

definition run_list_sql :: "id_lt \<Rightarrow> ListSQL \<Rightarrow> sqlarg list \<Rightarrow> Document list \<Rightarrow> Document list" where
  "run_list_sql coll q args docs =
     (let rows = sort_slice (sql_order coll (q_order q)) (filter (sql_where coll args (q_where q)) docs)
      in case arg args (q_limit q) of Some (AInt n) \<Rightarrow> take (nat n) rows | _ \<Rightarrow> rows)"

text \<open>The constants, in the order of the source.\<close>

abbreviation by_created_desc where "by_created_desc \<equiv> [(CreatedAt, DESC), (IdCol, ASC)]"
abbreviation by_created_asc where "by_created_asc \<equiv> [(CreatedAt, ASC), (IdCol, ASC)]"
abbreviation by_updated_desc where "by_updated_desc \<equiv> [(UpdatedAt, DESC), (IdCol, ASC)]"
abbreviation by_updated_asc where "by_updated_asc \<equiv> [(UpdatedAt, ASC), (IdCol, ASC)]"

definition qListCreatedDescNoFilterNoCursor :: ListSQL where
  "qListCreatedDescNoFilterNoCursor = \<lparr>q_where = WTrue, q_order = by_created_desc, q_limit = 1\<rparr>"
definition qListCreatedDescNoFilterCursor :: ListSQL where
  "qListCreatedDescNoFilterCursor = \<lparr>q_where = WOr (WLess CreatedAt 1) (WAnd (WEq CreatedAt 1) (WGreater IdCol 2)),
     q_order = by_created_desc, q_limit = 3\<rparr>"
definition qListCreatedDescFilterNoCursor :: ListSQL where
  "qListCreatedDescFilterNoCursor = \<lparr>q_where = WTypeAny 1, q_order = by_created_desc, q_limit = 2\<rparr>"
definition qListCreatedDescFilterCursor :: ListSQL where
  "qListCreatedDescFilterCursor = \<lparr>q_where = WAnd (WTypeAny 1)
       (WOr (WLess CreatedAt 2) (WAnd (WEq CreatedAt 2) (WGreater IdCol 3))),
     q_order = by_created_desc, q_limit = 4\<rparr>"

definition qListCreatedAscNoFilterNoCursor :: ListSQL where
  "qListCreatedAscNoFilterNoCursor = \<lparr>q_where = WTrue, q_order = by_created_asc, q_limit = 1\<rparr>"
definition qListCreatedAscNoFilterCursor :: ListSQL where
  "qListCreatedAscNoFilterCursor = \<lparr>q_where = WOr (WGreater CreatedAt 1) (WAnd (WEq CreatedAt 1) (WGreater IdCol 2)),
     q_order = by_created_asc, q_limit = 3\<rparr>"
definition qListCreatedAscFilterNoCursor :: ListSQL where
  "qListCreatedAscFilterNoCursor = \<lparr>q_where = WTypeAny 1, q_order = by_created_asc, q_limit = 2\<rparr>"
definition qListCreatedAscFilterCursor :: ListSQL where
  "qListCreatedAscFilterCursor = \<lparr>q_where = WAnd (WTypeAny 1)
       (WOr (WGreater CreatedAt 2) (WAnd (WEq CreatedAt 2) (WGreater IdCol 3))),
     q_order = by_created_asc, q_limit = 4\<rparr>"

definition qListUpdatedDescNoFilterNoCursor :: ListSQL where
  "qListUpdatedDescNoFilterNoCursor = \<lparr>q_where = WTrue, q_order = by_updated_desc, q_limit = 1\<rparr>"
definition qListUpdatedDescNoFilterCursor :: ListSQL where
  "qListUpdatedDescNoFilterCursor = \<lparr>q_where = WOr (WLess UpdatedAt 1) (WAnd (WEq UpdatedAt 1) (WGreater IdCol 2)),
     q_order = by_updated_desc, q_limit = 3\<rparr>"
definition qListUpdatedDescFilterNoCursor :: ListSQL where
  "qListUpdatedDescFilterNoCursor = \<lparr>q_where = WTypeAny 1, q_order = by_updated_desc, q_limit = 2\<rparr>"
definition qListUpdatedDescFilterCursor :: ListSQL where
  "qListUpdatedDescFilterCursor = \<lparr>q_where = WAnd (WTypeAny 1)
       (WOr (WLess UpdatedAt 2) (WAnd (WEq UpdatedAt 2) (WGreater IdCol 3))),
     q_order = by_updated_desc, q_limit = 4\<rparr>"

definition qListUpdatedAscNoFilterNoCursor :: ListSQL where
  "qListUpdatedAscNoFilterNoCursor = \<lparr>q_where = WTrue, q_order = by_updated_asc, q_limit = 1\<rparr>"
definition qListUpdatedAscNoFilterCursor :: ListSQL where
  "qListUpdatedAscNoFilterCursor = \<lparr>q_where = WOr (WGreater UpdatedAt 1) (WAnd (WEq UpdatedAt 1) (WGreater IdCol 2)),
     q_order = by_updated_asc, q_limit = 3\<rparr>"
definition qListUpdatedAscFilterNoCursor :: ListSQL where
  "qListUpdatedAscFilterNoCursor = \<lparr>q_where = WTypeAny 1, q_order = by_updated_asc, q_limit = 2\<rparr>"
definition qListUpdatedAscFilterCursor :: ListSQL where
  "qListUpdatedAscFilterCursor = \<lparr>q_where = WAnd (WTypeAny 1)
       (WOr (WGreater UpdatedAt 2) (WAnd (WEq UpdatedAt 2) (WGreater IdCol 3))),
     q_order = by_updated_asc, q_limit = 4\<rparr>"

definition qListIDDescNoFilterNoCursor :: ListSQL where
  "qListIDDescNoFilterNoCursor = \<lparr>q_where = WTrue, q_order = [(IdCol, DESC)], q_limit = 1\<rparr>"
definition qListIDDescNoFilterCursor :: ListSQL where
  "qListIDDescNoFilterCursor = \<lparr>q_where = WLess IdCol 1, q_order = [(IdCol, DESC)], q_limit = 2\<rparr>"
definition qListIDDescFilterNoCursor :: ListSQL where
  "qListIDDescFilterNoCursor = \<lparr>q_where = WTypeAny 1, q_order = [(IdCol, DESC)], q_limit = 2\<rparr>"
definition qListIDDescFilterCursor :: ListSQL where
  "qListIDDescFilterCursor = \<lparr>q_where = WAnd (WTypeAny 1) (WLess IdCol 2), q_order = [(IdCol, DESC)], q_limit = 3\<rparr>"

definition qListIDAscNoFilterNoCursor :: ListSQL where
  "qListIDAscNoFilterNoCursor = \<lparr>q_where = WTrue, q_order = [(IdCol, ASC)], q_limit = 1\<rparr>"
definition qListIDAscNoFilterCursor :: ListSQL where
  "qListIDAscNoFilterCursor = \<lparr>q_where = WGreater IdCol 1, q_order = [(IdCol, ASC)], q_limit = 2\<rparr>"
definition qListIDAscFilterNoCursor :: ListSQL where
  "qListIDAscFilterNoCursor = \<lparr>q_where = WTypeAny 1, q_order = [(IdCol, ASC)], q_limit = 2\<rparr>"
definition qListIDAscFilterCursor :: ListSQL where
  "qListIDAscFilterCursor = \<lparr>q_where = WAnd (WTypeAny 1) (WGreater IdCol 2), q_order = [(IdCol, ASC)], q_limit = 3\<rparr>"

text \<open>
  The argument lists and the choice of the query. The source passes the two flags along with
  the configuration they were computed from; here they are the filter and the cursor themselves.
\<close>

definition timeSortArgs :: "ListConfig \<Rightarrow> int \<Rightarrow> sqlarg list" where
  "timeSortArgs cfg limit =
     (case (lc_types cfg, lc_cursor cfg) of
        ([], None) \<Rightarrow> [AInt limit]
      | ([], Some c) \<Rightarrow> [ATime (cur_value c), AText (cur_id c), AInt limit]
      | (tys, None) \<Rightarrow> [ATypes tys, AInt limit]
      | (tys, Some c) \<Rightarrow> [ATypes tys, ATime (cur_value c), AText (cur_id c), AInt limit])"

definition idSortArgs :: "ListConfig \<Rightarrow> int \<Rightarrow> sqlarg list" where
  "idSortArgs cfg limit =
     (case (lc_types cfg, lc_cursor cfg) of
        ([], None) \<Rightarrow> [AInt limit]
      | ([], Some c) \<Rightarrow> [AText (cur_id c), AInt limit]
      | (tys, None) \<Rightarrow> [ATypes tys, AInt limit]
      | (tys, Some c) \<Rightarrow> [ATypes tys, AText (cur_id c), AInt limit])"

definition queryCreatedDesc :: "ListConfig \<Rightarrow> int \<Rightarrow> ListSQL \<times> sqlarg list" where
  "queryCreatedDesc cfg limit =
     (case (lc_types cfg, lc_cursor cfg) of
        ([], None) \<Rightarrow> (qListCreatedDescNoFilterNoCursor, timeSortArgs cfg limit)
      | ([], Some c) \<Rightarrow> (qListCreatedDescNoFilterCursor, timeSortArgs cfg limit)
      | (tys, None) \<Rightarrow> (qListCreatedDescFilterNoCursor, timeSortArgs cfg limit)
      | (tys, Some c) \<Rightarrow> (qListCreatedDescFilterCursor, timeSortArgs cfg limit))"

definition queryCreatedAsc :: "ListConfig \<Rightarrow> int \<Rightarrow> ListSQL \<times> sqlarg list" where
  "queryCreatedAsc cfg limit =
     (case (lc_types cfg, lc_cursor cfg) of
        ([], None) \<Rightarrow> (qListCreatedAscNoFilterNoCursor, timeSortArgs cfg limit)
      | ([], Some c) \<Rightarrow> (qListCreatedAscNoFilterCursor, timeSortArgs cfg limit)
      | (tys, None) \<Rightarrow> (qListCreatedAscFilterNoCursor, timeSortArgs cfg limit)
      | (tys, Some c) \<Rightarrow> (qListCreatedAscFilterCursor, timeSortArgs cfg limit))"

definition queryUpdatedDesc :: "ListConfig \<Rightarrow> int \<Rightarrow> ListSQL \<times> sqlarg list" where
  "queryUpdatedDesc cfg limit =
     (case (lc_types cfg, lc_cursor cfg) of
        ([], None) \<Rightarrow> (qListUpdatedDescNoFilterNoCursor, timeSortArgs cfg limit)
      | ([], Some c) \<Rightarrow> (qListUpdatedDescNoFilterCursor, timeSortArgs cfg limit)
      | (tys, None) \<Rightarrow> (qListUpdatedDescFilterNoCursor, timeSortArgs cfg limit)
      | (tys, Some c) \<Rightarrow> (qListUpdatedDescFilterCursor, timeSortArgs cfg limit))"

definition queryUpdatedAsc :: "ListConfig \<Rightarrow> int \<Rightarrow> ListSQL \<times> sqlarg list" where
  "queryUpdatedAsc cfg limit =
     (case (lc_types cfg, lc_cursor cfg) of
        ([], None) \<Rightarrow> (qListUpdatedAscNoFilterNoCursor, timeSortArgs cfg limit)
      | ([], Some c) \<Rightarrow> (qListUpdatedAscNoFilterCursor, timeSortArgs cfg limit)
      | (tys, None) \<Rightarrow> (qListUpdatedAscFilterNoCursor, timeSortArgs cfg limit)
      | (tys, Some c) \<Rightarrow> (qListUpdatedAscFilterCursor, timeSortArgs cfg limit))"

definition queryIDDesc :: "ListConfig \<Rightarrow> int \<Rightarrow> ListSQL \<times> sqlarg list" where
  "queryIDDesc cfg limit =
     (case (lc_types cfg, lc_cursor cfg) of
        ([], None) \<Rightarrow> (qListIDDescNoFilterNoCursor, idSortArgs cfg limit)
      | ([], Some c) \<Rightarrow> (qListIDDescNoFilterCursor, idSortArgs cfg limit)
      | (tys, None) \<Rightarrow> (qListIDDescFilterNoCursor, idSortArgs cfg limit)
      | (tys, Some c) \<Rightarrow> (qListIDDescFilterCursor, idSortArgs cfg limit))"

definition queryIDAsc :: "ListConfig \<Rightarrow> int \<Rightarrow> ListSQL \<times> sqlarg list" where
  "queryIDAsc cfg limit =
     (case (lc_types cfg, lc_cursor cfg) of
        ([], None) \<Rightarrow> (qListIDAscNoFilterNoCursor, idSortArgs cfg limit)
      | ([], Some c) \<Rightarrow> (qListIDAscNoFilterCursor, idSortArgs cfg limit)
      | (tys, None) \<Rightarrow> (qListIDAscFilterNoCursor, idSortArgs cfg limit)
      | (tys, Some c) \<Rightarrow> (qListIDAscFilterCursor, idSortArgs cfg limit))"

fun buildListQuery :: "Sort \<Rightarrow> ListConfig \<Rightarrow> int \<Rightarrow> ListSQL \<times> sqlarg list" where
  "buildListQuery SortCreatedDesc cfg limit = queryCreatedDesc cfg limit"
| "buildListQuery SortCreatedAsc cfg limit = queryCreatedAsc cfg limit"
| "buildListQuery SortUpdatedDesc cfg limit = queryUpdatedDesc cfg limit"
| "buildListQuery SortUpdatedAsc cfg limit = queryUpdatedAsc cfg limit"
| "buildListQuery SortIDDesc cfg limit = queryIDDesc cfg limit"
| "buildListQuery SortIDAsc cfg limit = queryIDAsc cfg limit"
| "buildListQuery (SortRaw _) cfg limit = (qListCreatedDescNoFilterNoCursor, [AInt limit])"

definition listDocuments :: "PgEnv \<Rightarrow> DB \<Rightarrow> ListConfig \<Rightarrow> Document list result" where
  "listDocuments env db cfg =
     (let limit = lc_limit cfg + 1 in
      case buildListQuery (lc_sort cfg) cfg limit of
        (query, args) \<Rightarrow>
          pg_rows env ''query documents'' ''scan document row'' ''iterate document rows''
            (run_list_sql (pg_collate env) query args (pg_docs db)))"

definition pg_List :: "PgEnv \<Rightarrow> DB \<Rightarrow> ListOption list \<Rightarrow> Page result" where
  "pg_List env db opts =
     (let cfg = Apply opts in
      if lc_limit cfg \<le> 0
      then Inl (Errorf [Wrap (Sentinel ErrInvalidInput), Lit '': limit must be positive''])
      else
        bindR (countDocuments env db (lc_types cfg)) (\<lambda>total.
        bindR (listDocuments env db cfg) (\<lambda>items.
          let limit = nat (lc_limit cfg) in
          if length items > limit
          then Inr \<lparr>pg_items = take limit items,
                 pg_next = Some (nextCursor (lc_sort cfg) (items ! (limit - 1))), pg_total = total\<rparr>
          else Inr \<lparr>pg_items = items, pg_next = None, pg_total = total\<rparr>)))"

section \<open>Writes\<close>

definition nonZeroTime :: "PgEnv \<Rightarrow> time \<Rightarrow> time" where
  "nonZeroTime env t = (if t = 0 then pg_gonow env else t)"

definition nullIfEmpty :: "string \<Rightarrow> string option" where
  "nullIfEmpty s = (if s = [] then None else Some s)"

definition nullIfZero :: "time \<Rightarrow> time option" where
  "nullIfZero t = (if t = 0 then None else Some t)"

text \<open>The row \<open>upsertDocument\<close> inserts.\<close>

definition doc_row :: "PgEnv \<Rightarrow> Document \<Rightarrow> DocRow" where
  "doc_row env doc = \<lparr>dr_id = d_id doc, dr_type = d_type doc, dr_title = d_title doc,
     dr_status = Some (d_status doc), dr_body = Some (d_body doc),
     dr_created = pg_time (nonZeroTime env (d_created doc)),
     dr_updated = pg_time (nonZeroTime env (d_updated doc)),
     dr_labels = d_labels doc, dr_extensions = d_extensions doc,
     dr_repo = Some (so_repo (d_source doc)), dr_path = Some (so_path (d_source doc)),
     dr_commit = Some (so_commit (d_source doc))\<rparr>"

text \<open>\<^verbatim>\<open>INSERT ... ON CONFLICT (id) DO UPDATE\<close>: every column but \<^verbatim>\<open>created_at\<close> is replaced.\<close>

definition upsertDocument :: "PgEnv \<Rightarrow> Document \<Rightarrow> DB \<Rightarrow> DB result" where
  "upsertDocument env doc db =
     pg_try env ''upsert documents''
       (let new = doc_row env doc in
        if \<exists>r \<in> set (t_documents db). dr_id r = d_id doc
        then db\<lparr>t_documents := map (\<lambda>r. if dr_id r = d_id doc then new\<lparr>dr_created := dr_created r\<rparr> else r)
                  (t_documents db)\<rparr>
        else db\<lparr>t_documents := t_documents db @ [new]\<rparr>)"

definition constraint_error :: goerr where
  "constraint_error = New ''ERROR: constraint violation''"

definition insert_author :: "AuthorRow \<Rightarrow> DB \<Rightarrow> DB option" where
  "insert_author a db =
     (if (ar_doc a, ar_seq a) \<in> set (map (\<lambda>r. (ar_doc r, ar_seq r)) (t_authors db))
         \<or> \<not> (\<exists>r \<in> set (t_documents db). dr_id r = ar_doc a)
      then None else Some (db\<lparr>t_authors := t_authors db @ [a]\<rparr>))"

text \<open>An insert: refused by the driver, refused by a constraint, or done.\<close>

definition pg_insert :: "PgEnv \<Rightarrow> string \<Rightarrow> DB option \<Rightarrow> DB result" where
  "pg_insert env what r =
     bindR (pg_try env what ()) (\<lambda>_.
       case r of None \<Rightarrow> Inl (upstream what constraint_error) | Some db \<Rightarrow> Inr db)"

fun insert_authors :: "PgEnv \<Rightarrow> DocumentID \<Rightarrow> nat \<Rightarrow> Author list \<Rightarrow> DB \<Rightarrow> DB result" where
  "insert_authors env i n [] db = Inr db"
| "insert_authors env i n (a # as) db =
     bindR (pg_insert env (''insert author['' @ Itoa (int n) @ '']'')
       (insert_author \<lparr>ar_doc = i, ar_seq = int n, ar_name = a_name a, ar_email = Some (a_email a),
          ar_handle = Some (a_handle a)\<rparr> db))
       (insert_authors env i (Suc n) as)"

definition replaceAuthors :: "PgEnv \<Rightarrow> Document \<Rightarrow> DB \<Rightarrow> DB result" where
  "replaceAuthors env doc db =
     bindR (pg_try env ''clear authors'' (db\<lparr>t_authors := filter (\<lambda>r. ar_doc r \<noteq> d_id doc) (t_authors db)\<rparr>))
       (insert_authors env (d_id doc) 0 (d_authors doc))"

definition insert_link :: "LinkRow \<Rightarrow> DB \<Rightarrow> DB option" where
  "insert_link l db =
     (if (lr_source l, lr_target l, lr_direction l)
           \<in> set (map (\<lambda>r. (lr_source r, lr_target r, lr_direction r)) (t_links db))
         \<or> lr_direction l \<notin> {''incoming'', ''outgoing''}
         \<or> \<not> (\<exists>r \<in> set (t_documents db). dr_id r = lr_source l)
      then None else Some (db\<lparr>t_links := t_links db @ [l]\<rparr>))"

fun insert_links :: "PgEnv \<Rightarrow> DocumentID \<Rightarrow> nat \<Rightarrow> Link list \<Rightarrow> DB \<Rightarrow> DB result" where
  "insert_links env i n [] db = Inr db"
| "insert_links env i n (l # ls) db =
     bindR (pg_insert env (''insert link['' @ Itoa (int n) @ '']'')
       (insert_link \<lparr>lr_source = i, lr_target = l_target l,
          lr_direction = (if l_direction l = [] then LinkOutgoing else l_direction l),
          lr_label = Some (l_label l)\<rparr> db))
       (insert_links env i (Suc n) ls)"

definition replaceLinks :: "PgEnv \<Rightarrow> Document \<Rightarrow> DB \<Rightarrow> DB result" where
  "replaceLinks env doc db =
     bindR (pg_try env ''clear links'' (db\<lparr>t_links := filter (\<lambda>r. lr_source r \<noteq> d_id doc) (t_links db)\<rparr>))
       (insert_links env (d_id doc) 0 (d_links doc))"

text \<open>
  A transaction: an error of a statement rolls everything back; the fate of the commit decides
  between the new tables and the old ones, and whether the caller hears of it.
\<close>

definition commit_tx :: "PgEnv \<Rightarrow> string \<Rightarrow> DB \<Rightarrow> DB result \<Rightarrow> DB \<times> goerr option" where
  "commit_tx env what db r =
     (case r of
        Inl e \<Rightarrow> (db, Some e)
      | Inr db' \<Rightarrow> run_stmt (pg_commit env) (upstream what) (\<lambda>_. db') db)"

definition pg_Upsert :: "PgEnv \<Rightarrow> Document option \<Rightarrow> DB \<Rightarrow> DB \<times> goerr option" where
  "pg_Upsert env odoc db =
     (case odoc of
        None \<Rightarrow> (db, Some (New ''upsert: nil document''))
      | Some doc \<Rightarrow>
          if d_id doc = []
          then (db, Some (Errorf [Wrap (Sentinel ErrInvalidInput), Lit '': document id is required'']))
          else if d_type doc = []
          then (db, Some (Errorf [Wrap (Sentinel ErrInvalidInput), Lit '': document type is required'']))
          else commit_tx env ''commit upsert'' db
            (bindR (pg_try env ''begin upsert'' db) (\<lambda>db0.
             bindR (upsertDocument env doc db0) (\<lambda>db1.
             bindR (replaceAuthors env doc db1) (\<lambda>db2.
             replaceLinks env doc db2)))))"

definition disc_row :: "PgEnv \<Rightarrow> DocumentID \<Rightarrow> Discussion \<Rightarrow> DiscRow" where
  "disc_row env i disc = \<lparr>di_doc = i, di_url = nullIfEmpty (ds_url disc), di_count = ds_comment_count disc,
     di_activity = map_option pg_time (nullIfZero (ds_last_activity disc)), di_synced = Some (pg_now env)\<rparr>"

definition upsert_discussion_row :: "PgEnv \<Rightarrow> DocumentID \<Rightarrow> Discussion \<Rightarrow> DB \<Rightarrow> DB option" where
  "upsert_discussion_row env i disc db =
     (if \<not> (\<exists>r \<in> set (t_documents db). dr_id r = i) then None
      else if i \<in> set (map di_doc (t_discussions db))
      then Some (db\<lparr>t_discussions :=
             map (\<lambda>r. if di_doc r = i then disc_row env i disc else r) (t_discussions db)\<rparr>)
      else Some (db\<lparr>t_discussions := t_discussions db @ [disc_row env i disc]\<rparr>))"

definition insert_participant :: "PartRow \<Rightarrow> DB \<Rightarrow> DB option" where
  "insert_participant p db =
     (if (pr_doc p, pr_seq p) \<in> set (map (\<lambda>r. (pr_doc r, pr_seq r)) (t_participants db))
         \<or> \<not> (\<exists>r \<in> set (t_documents db). dr_id r = pr_doc p)
      then None else Some (db\<lparr>t_participants := t_participants db @ [p]\<rparr>))"

fun insert_participants :: "PgEnv \<Rightarrow> DocumentID \<Rightarrow> nat \<Rightarrow> Author list \<Rightarrow> DB \<Rightarrow> DB result" where
  "insert_participants env i n [] db = Inr db"
| "insert_participants env i n (p # ps) db =
     bindR (pg_insert env (''insert participant['' @ Itoa (int n) @ '']'')
       (insert_participant \<lparr>pr_doc = i, pr_seq = int n, pr_handle = a_handle p,
          pr_name = nullIfEmpty (a_name p), pr_email = nullIfEmpty (a_email p)\<rparr> db))
       (insert_participants env i (Suc n) ps)"

definition UpsertDiscussion :: "PgEnv \<Rightarrow> DocumentID \<Rightarrow> Discussion \<Rightarrow> DB \<Rightarrow> DB \<times> goerr option" where
  "UpsertDiscussion env i disc db =
     (if i = [] then (db, Some (Errorf [Wrap (Sentinel ErrInvalidInput), Lit '': document id is required'']))
      else commit_tx env ''commit upsert discussion'' db
        (bindR (pg_try env ''begin upsert discussion'' db) (\<lambda>db0.
         bindR (pg_insert env ''upsert discussion'' (upsert_discussion_row env i disc db0)) (\<lambda>db1.
         bindR (pg_try env ''clear participants''
            (db1\<lparr>t_participants := filter (\<lambda>r. pr_doc r \<noteq> i) (t_participants db1)\<rparr>)) (\<lambda>db2.
         insert_participants env i 0 (ds_participants disc) db2)))))"

text \<open>\<^verbatim>\<open>DELETE FROM documents\<close> with its cascade to the four tables that reference it.\<close>

definition delete_stmt :: "DocumentID \<Rightarrow> DB \<Rightarrow> DB" where
  "delete_stmt i db = \<lparr>t_documents = filter (\<lambda>r. dr_id r \<noteq> i) (t_documents db),
     t_authors = filter (\<lambda>r. ar_doc r \<noteq> i) (t_authors db),
     t_links = filter (\<lambda>r. lr_source r \<noteq> i) (t_links db),
     t_discussions = filter (\<lambda>r. di_doc r \<noteq> i) (t_discussions db),
     t_participants = filter (\<lambda>r. pr_doc r \<noteq> i) (t_participants db)\<rparr>"

definition pg_Delete :: "PgEnv \<Rightarrow> DocumentID \<Rightarrow> DB \<Rightarrow> DB \<times> goerr option" where
  "pg_Delete env i db =
     (case run_stmt (pg_commit env) (upstream ''delete document'') (delete_stmt i) db of
        (db', Some e) \<Rightarrow> (db', Some e)
      | (db', None) \<Rightarrow>
          if \<not> (\<exists>r \<in> set (t_documents db). dr_id r = i) then (db', Some (not_found i)) else (db', None))"

text \<open>\<^verbatim>\<open>text LIKE pattern\<close>, on single-byte characters: \<^verbatim>\<open>%\<close> any string, \<^verbatim>\<open>_\<close> any character,
  backslash the next character literally.\<close>

fun like :: "string \<Rightarrow> string \<Rightarrow> bool" where
  "like s [] = (s = [])"
| "like s (p # ps) =
     (if p = CHR ''%'' then like s ps \<or> (case s of [] \<Rightarrow> False | _ # s' \<Rightarrow> like s' (p # ps))
      else if p = CHR 0x5C then
        (case ps of [] \<Rightarrow> False
         | q # qs \<Rightarrow> (case s of [] \<Rightarrow> False | c # s' \<Rightarrow> c = q \<and> like s' qs))
      else (case s of [] \<Rightarrow> False | c # s' \<Rightarrow> (p = CHR ''_'' \<or> c = p) \<and> like s' ps))"

text \<open>The Go map of the result, filled row by row; the last row of a path wins.\<close>

definition ExistingSources :: "PgEnv \<Rightarrow> DB \<Rightarrow> string \<Rightarrow> string \<Rightarrow> (string \<rightharpoonup> string) result" where
  "ExistingSources env db repo basePath =
     (let hits = filter (\<lambda>r. dr_repo r = Some repo
             \<and> (case dr_path r of None \<Rightarrow> False | Some p \<Rightarrow> like p (basePath @ ''%''))) (t_documents db)
      in bindR (pg_try env ''list sources'' ()) (\<lambda>_.
         if \<exists>r \<in> set hits. dr_commit r = None then Inl (upstream ''scan source'' (New ''cannot scan NULL''))
         else bindR (if hits = [] then Inr () else pg_try env ''scan source'' ()) (\<lambda>_.
           pg_try env ''rows sources''
             (map_of (rev (map (\<lambda>r. (str_of (dr_path r), str_of (dr_commit r))) hits))))))"

end
