(* ===== verification/PostgresList.thy ===== *)
theory PostgresList
  imports Postgres
begin

text \<open>
  \<^verbatim>\<open>List\<close> of the Postgres store refines the specification of the persistence seam: each of the
  twenty-four queries, with the arguments built for it, selects the rows of the wanted types
  after the cursor in the order of the sort key. The store is an instance of \<open>docs_store\<close>, so
  the pagination results hold for it, and it agrees page by page with the in-memory store.
\<close>

section \<open>What a query selects\<close>

definition us_time :: "time \<Rightarrow> bool" where
  "us_time t = (pg_time t = t)"

definition us_cursor :: "Cursor option \<Rightarrow> bool" where
  "us_cursor c = (case c of None \<Rightarrow> True | Some k \<Rightarrow> us_time (cur_value k))"

lemma pg_time_idem [simp]: "pg_time (pg_time t) = pg_time t"
  by (simp add: pg_time_def)

lemma us_pg_time [simp]: "us_time (pg_time t)"
  by (simp add: us_time_def)

lemma us_time_zero [simp]: "us_time 0"
  by (simp add: us_time_def pg_time_def)

lemmas query_defs = queryCreatedDesc_def queryCreatedAsc_def queryUpdatedDesc_def queryUpdatedAsc_def
  queryIDDesc_def queryIDAsc_def timeSortArgs_def idSortArgs_def
  qListCreatedDescNoFilterNoCursor_def qListCreatedDescNoFilterCursor_def
  qListCreatedDescFilterNoCursor_def qListCreatedDescFilterCursor_def
  qListCreatedAscNoFilterNoCursor_def qListCreatedAscNoFilterCursor_def
  qListCreatedAscFilterNoCursor_def qListCreatedAscFilterCursor_def
  qListUpdatedDescNoFilterNoCursor_def qListUpdatedDescNoFilterCursor_def
  qListUpdatedDescFilterNoCursor_def qListUpdatedDescFilterCursor_def
  qListUpdatedAscNoFilterNoCursor_def qListUpdatedAscNoFilterCursor_def
  qListUpdatedAscFilterNoCursor_def qListUpdatedAscFilterCursor_def
  qListIDDescNoFilterNoCursor_def qListIDDescNoFilterCursor_def
  qListIDDescFilterNoCursor_def qListIDDescFilterCursor_def
  qListIDAscNoFilterNoCursor_def qListIDAscNoFilterCursor_def
  qListIDAscFilterNoCursor_def qListIDAscFilterCursor_def

definition selects :: "id_lt \<Rightarrow> ListConfig \<Rightarrow> Document \<Rightarrow> bool" where
  "selects coll cfg d = (type_match (lc_types cfg) d
     \<and> (case lc_cursor cfg of None \<Rightarrow> True | Some c \<Rightarrow> doc_after coll (lc_sort cfg) d c))"

lemma query_order:
  assumes "SortValid (lc_sort cfg)"
  shows "sql_order coll (q_order (fst (buildListQuery (lc_sort cfg) cfg n))) = doc_less coll (lc_sort cfg)"
  using assms
  by (cases "lc_sort cfg"; cases "lc_types cfg"; cases "lc_cursor cfg") (auto simp: query_defs fun_eq_iff)

lemma query_limit:
  assumes "SortValid (lc_sort cfg)"
  shows "arg (snd (buildListQuery (lc_sort cfg) cfg n)) (q_limit (fst (buildListQuery (lc_sort cfg) cfg n)))
    = Some (AInt n)"
  using assms
  by (cases "lc_sort cfg"; cases "lc_types cfg"; cases "lc_cursor cfg") (auto simp: query_defs)

lemma query_where:
  assumes "SortValid (lc_sort cfg)" and "us_cursor (lc_cursor cfg)"
  shows "sql_where coll (snd (buildListQuery (lc_sort cfg) cfg n))
      (q_where (fst (buildListQuery (lc_sort cfg) cfg n))) d = selects coll cfg d"
  using assms
  by (cases "lc_sort cfg"; cases "lc_types cfg"; cases "lc_cursor cfg")
    (auto simp: query_defs selects_def type_match_def us_cursor_def us_time_def)

lemma run_query:
  assumes "SortValid (lc_sort cfg)" and "us_cursor (lc_cursor cfg)"
    and "buildListQuery (lc_sort cfg) cfg n = (q, args)"
  shows "run_list_sql coll q args docs =
    take (nat n) (sort_slice (doc_less coll (lc_sort cfg)) (filter (selects coll cfg) docs))"
proof -
  have "sql_where coll args (q_where q) = selects coll cfg"
    using query_where [OF assms(1,2), of coll n] assms(3) by (simp add: fun_eq_iff)
  moreover have "sql_order coll (q_order q) = doc_less coll (lc_sort cfg)"
    using query_order [OF assms(1), of coll n] assms(3) by simp
  moreover have "arg args (q_limit q) = Some (AInt n)"
    using query_limit [OF assms(1), of n] assms(3) by simp
  ultimately show ?thesis by (simp only: run_list_sql_def Let_def option.simps sqlarg.simps)
qed

text \<open>Selecting and then sorting is sorting and then seeking past the cursor.\<close>

lemma select_sort_seek:
  assumes "id_order coll" and "SortValid (lc_sort cfg)" and "distinct (map d_id docs)"
  shows "sort_slice (doc_less coll (lc_sort cfg)) (filter (selects coll cfg) docs) =
    after_cursor coll (lc_sort cfg) (lc_cursor cfg) (listing coll docs (lc_types cfg) (lc_sort cfg))"
proof -
  let ?s = "lc_sort cfg"
  note ks = id_order.keyset_doc [OF assms(1,2)]
  have ids: "distinct (map d_id (filter (selects coll cfg) docs))"
    by (rule id_order.distinct_filter_ids [OF assms(1,3)])
  have "sorted_wrt (doc_less coll ?s) (sort_slice (doc_less coll ?s) (filter (selects coll cfg) docs))"
    using keyset.sort_slice_sorted [OF ks] id_order.ids_total [OF assms(1) ids] ids by (metis distinct_map)
  moreover have "sorted_wrt (doc_less coll ?s)
      (after_cursor coll ?s (lc_cursor cfg) (listing coll docs (lc_types cfg) ?s))"
    using id_order.listing_sorted [OF assms] by (auto simp: after_cursor_def sorted_wrt_filter split: option.split)
  moreover have "set (sort_slice (doc_less coll ?s) (filter (selects coll cfg) docs)) =
      set (after_cursor coll ?s (lc_cursor cfg) (listing coll docs (lc_types cfg) ?s))"
    by (auto simp: after_cursor_def selects_def id_order.listing_set [OF assms(1)] split: option.splits)
  ultimately show ?thesis by (rule keyset.sorted_unique [OF ks])
qed

section \<open>The refinement\<close>

definition docs_wf :: "DB \<Rightarrow> bool" where
  "docs_wf db = (distinct (map dr_id (t_documents db))
     \<and> list_all (\<lambda>r. us_time (dr_created r) \<and> us_time (dr_updated r)) (t_documents db))"

lemma pg_docs_ids: "map d_id (pg_docs db) = map dr_id (t_documents db)"
  by (simp add: pg_docs_def scanDocument_def)

lemma countDocuments_quiet:
  "pg_try env ''count documents'' v = Inr n \<Longrightarrow> n = v"
  by (auto simp: pg_try_def split: option.splits)

lemma pg_rows_Inr: "pg_rows env a b c rows = Inr xs \<Longrightarrow> xs = rows"
  by (auto simp: pg_rows_def bindR_Inr pg_try_def split: option.splits if_splits)

lemma pg_count_types:
  "(if length tys = 0 then int (length (t_documents db))
    else int (length (filter (\<lambda>r. dr_type r \<in> set tys) (t_documents db)))) =
   int (length (filter (type_match tys) (pg_docs db)))"
proof -
  have "filter (type_match tys) (pg_docs db) =
      map scanDocument (filter (\<lambda>r. tys = [] \<or> dr_type r \<in> set tys) (t_documents db))"
    by (simp add: pg_docs_def filter_map type_match_def scanDocument_def o_def)
  then show ?thesis by simp
qed

lemma over_read:
  "0 < n \<Longrightarrow> (length (take (nat (n + 1)) rows) > nat n) = (length rows > nat n)
    \<and> take (nat n) (take (nat (n + 1)) rows) = take (nat n) rows
    \<and> (length rows > nat n \<longrightarrow> take (nat (n + 1)) rows ! (nat n - 1) = rows ! (nat n - 1))
    \<and> (\<not> length rows > nat n \<longrightarrow> take (nat (n + 1)) rows = rows)" for n :: int
  by (auto simp: nat_add_distrib)

lemma pg_List_page:
  assumes "id_order (pg_collate env)" and "docs_wf db" and "SortValid (lc_sort (Apply opts))"
    and "us_cursor (lc_cursor (Apply opts))" and "pg_List env db opts = Inr p"
  shows "p = spec_page (pg_collate env) (pg_docs db) (Apply opts)"
proof -
  define cfg where "cfg = Apply opts"
  define coll where "coll = pg_collate env"
  define rows where "rows = after_cursor coll (lc_sort cfg) (lc_cursor cfg)
      (listing coll (pg_docs db) (lc_types cfg) (lc_sort cfg))"
  note as = assms [folded cfg_def coll_def]
  have lim: "0 < lc_limit cfg" using as(5) by (auto simp: pg_List_def cfg_def [symmetric] Let_def split: if_splits)
  obtain q args where q: "buildListQuery (lc_sort cfg) cfg (lc_limit cfg + 1) = (q, args)" by fastforce
  have items: "run_list_sql coll q args (pg_docs db) = take (nat (lc_limit cfg + 1)) rows"
    unfolding run_query [OF as(3,4) q] rows_def
    using select_sort_seek [OF as(1,3)] as(2) by (simp add: docs_wf_def pg_docs_ids)
  obtain total where total: "countDocuments env db (lc_types cfg) = Inr total"
    and page: "bindR (listDocuments env db cfg) (\<lambda>items.
          let limit = nat (lc_limit cfg) in
          if length items > limit
          then Inr \<lparr>pg_items = take limit items,
                 pg_next = Some (nextCursor (lc_sort cfg) (items ! (limit - 1))), pg_total = total\<rparr>
          else Inr \<lparr>pg_items = items, pg_next = None, pg_total = total\<rparr>) = Inr p"
    using as(5) lim unfolding pg_List_def cfg_def [symmetric] Let_def by (auto simp: bindR_Inr)
  have "total = int (length (filter (type_match (lc_types cfg)) (pg_docs db)))"
    using countDocuments_quiet [OF total [unfolded countDocuments_def]] pg_count_types by simp
  moreover have "listDocuments env db cfg = Inr xs \<Longrightarrow> xs = take (nat (lc_limit cfg + 1)) rows" for xs
    unfolding listDocuments_def Let_def q prod.case items [folded coll_def] coll_def [symmetric]
    using pg_rows_Inr items by fastforce
  moreover obtain xs where xs: "listDocuments env db cfg = Inr xs" using page by (auto simp: bindR_Inr)
  ultimately have total': "total = int (length (filter (type_match (lc_types cfg)) (pg_docs db)))"
    and xs': "xs = take (nat (lc_limit cfg + 1)) rows" by blast+
  have "p = (if length rows > nat (lc_limit cfg)
      then \<lparr>pg_items = take (nat (lc_limit cfg)) rows,
             pg_next = Some (nextCursor (lc_sort cfg) (rows ! (nat (lc_limit cfg) - 1))), pg_total = total\<rparr>
      else \<lparr>pg_items = rows, pg_next = None, pg_total = total\<rparr>)"
    using page over_read [OF lim, of rows] unfolding xs bindR_simps Let_def xs'
    by (cases "length rows > nat (lc_limit cfg)") simp_all
  then show ?thesis
    unfolding spec_page_def page_of_def cfg_def [symmetric] coll_def [symmetric] rows_def [symmetric]
    by (simp add: total')
qed

lemma pg_List_bad_limit:
  "lc_limit (Apply opts) \<le> 0 \<Longrightarrow> \<exists>e. pg_List env db opts = Inl e \<and> error_is e ErrInvalidInput"
  by (simp add: pg_List_def)

lemma pg_next_us: "docs_wf db \<Longrightarrow> d \<in> set (pg_docs db) \<Longrightarrow> us_cursor (Some (nextCursor s d))"
  by (cases s) (auto simp: us_cursor_def docs_wf_def list_all_iff pg_docs_def scanDocument_def)

text \<open>With a collation that orders the ids totally, the Postgres store keeps the contract.\<close>

lemma pg_docs_store:
  "id_order (pg_collate env) \<Longrightarrow> docs_store (pg_collate env) pg_docs (pg_List env) docs_wf us_cursor"
  by (intro docs_store.intro docs_store_axioms.intro)
    (auto simp: pg_docs_ids docs_wf_def [of db for db] us_cursor_def [of None]
      intro: pg_List_bad_limit pg_List_page pg_next_us)

text \<open>A database that answers, with byte order as the collation (\<^verbatim>\<open>C\<close>).\<close>

definition quiet_env :: "id_lt \<Rightarrow> time \<Rightarrow> PgEnv" where
  "quiet_env coll now = \<lparr>pg_fail = (\<lambda>_. None), pg_commit = Acked, pg_gonow = now, pg_now = now,
     pg_collate = coll\<rparr>"

lemma quiet_simps [simp]:
  "pg_fail (quiet_env coll now) w = None" "pg_collate (quiet_env coll now) = coll"
  "pg_commit (quiet_env coll now) = Acked" "pg_gonow (quiet_env coll now) = now"
  "pg_try (quiet_env coll now) w v = Inr v"
  by (simp_all add: quiet_env_def pg_try_def)

lemma quiet_rows [simp]: "pg_rows (quiet_env coll now) a b c rows = Inr rows"
  by (simp add: pg_rows_def)

lemma quiet_answers: "0 < lc_limit (Apply opts) \<Longrightarrow> \<exists>p. pg_List (quiet_env coll now) db opts = Inr p"
  by (simp add: pg_List_def Let_def countDocuments_def listDocuments_def split: prod.split)

lemma pg_docs_service:
  assumes "id_order coll"
  shows "docs_service coll pg_docs (pg_List (quiet_env coll now)) docs_wf us_cursor"
  using pg_docs_store [of "quiet_env coll now"] assms
  by (auto intro!: docs_service.intro docs_service_axioms.intro quiet_answers)

interpretation pgc: docs_service "(<)" pg_docs "pg_List (quiet_env (<) now)" docs_wf us_cursor for now
  by (rule pg_docs_service) (rule bytewise.id_order_axioms)

section \<open>Properties\<close>

text \<open>C5: Whichever of the twenty-four queries is chosen, a page of the Postgres store is the page
  of the specification: for every valid sort, type filter, cursor and limit, when the database
  answers, the items are the documents of the wanted types after the cursor in the order of the
  sort key, cut to the limit, the next cursor names the last of them exactly when more rows
  remain, and the total is the filtered count. A limit that is not positive is refused as
  invalid input before any query is sent.\<close>

theorem pg_List_refines:
  assumes "id_order (pg_collate env)" and "docs_wf db" and "SortValid (lc_sort (Apply opts))"
    and "us_cursor (lc_cursor (Apply opts))"
  shows "if lc_limit (Apply opts) \<le> 0
    then \<exists>e. pg_List env db opts = Inl e \<and> error_is e ErrInvalidInput
    else (\<forall>p. pg_List env db opts = Inr p \<longrightarrow> p = spec_page (pg_collate env) (pg_docs db) (Apply opts))
      \<and> ((\<forall>w. pg_fail env w = None) \<longrightarrow> (\<exists>p. pg_List env db opts = Inr p))"
proof (cases "lc_limit (Apply opts) \<le> 0")
  case True
  then show ?thesis using pg_List_bad_limit by simp
next
  case False
  have "\<exists>p. pg_List env db opts = Inr p" if "\<forall>w. pg_fail env w = None"
    using False that
    by (simp add: pg_List_def Let_def countDocuments_def listDocuments_def pg_rows_def pg_try_def
        split: prod.split)
  then show ?thesis using False pg_List_page [OF assms] by simp
qed

text \<open>Two documents in a database, in the shape \<open>Upsert\<close> writes them.\<close>

definition demo_db :: DB where
  "demo_db = \<lparr>t_documents = [doc_row (quiet_env (<) 0) (sample_doc ''RFC-0001'' ''rfc'' 10000),
      doc_row (quiet_env (<) 0) (sample_doc ''RFC-0002'' ''rfc'' 20000)],
     t_authors = [], t_links = [], t_discussions = [], t_participants = []\<rparr>"

lemma demo_db_wf: "docs_wf demo_db"
  by (simp add: docs_wf_def demo_db_def doc_row_def sample_doc_def)

theorem pg_List_refines_witness:
  "\<exists>p. pg_List (quiet_env (<) 0) demo_db [WithLimit 1, WithSort SortIDAsc] = Inr p
    \<and> p = spec_page (<) (pg_docs demo_db) (Apply [WithLimit 1, WithSort SortIDAsc])"
proof -
  have cfg: "Apply [WithLimit 1, WithSort SortIDAsc] =
      \<lparr>lc_sort = SortIDAsc, lc_types = [], lc_limit = 1, lc_cursor = None\<rparr>"
    by (simp add: option_defs)
  have "id_order (pg_collate (quiet_env (<) 0))" using bytewise.id_order_axioms by simp
  from pg_List_refines [OF this demo_db_wf, of "[WithLimit 1, WithSort SortIDAsc]"] show ?thesis
    by (auto simp: cfg us_cursor_def)
qed

text \<open>What \<^verbatim>\<open>List\<close> returns of a document: the columns of the documents table.\<close>

definition list_view :: "Document \<Rightarrow> Document" where
  "list_view d = d\<lparr>d_authors := [], d_links := [], d_discussion := None,
     d_source := (d_source d)\<lparr>so_commit_time := 0\<rparr>\<rparr>"

lemma list_view_less [simp]: "doc_less ilt s (list_view a) (list_view b) = doc_less ilt s a b"
  by (cases s) (simp_all add: list_view_def)

lemma list_view_after [simp]: "doc_after ilt s (list_view a) c = doc_after ilt s a c"
  by (cases s) (simp_all add: list_view_def)

lemma list_view_cursor [simp]: "nextCursor s (list_view a) = nextCursor s a"
  by (cases s) (simp_all add: list_view_def)

lemma list_view_type [simp]: "type_match tys (list_view d) = type_match tys d"
  by (simp add: list_view_def type_match_def)

lemma list_view_id [simp]: "d_id (list_view d) = d_id d"
  by (simp add: list_view_def)

lemma spec_page_view:
  assumes "SortValid (lc_sort cfg)" and "distinct (map d_id docs)" and "0 < lc_limit cfg"
    and "set docs' = list_view ` set docs" and "distinct (map d_id docs')"
  shows "spec_page (<) docs' cfg = (let p = spec_page (<) docs cfg in p\<lparr>pg_items := map list_view (pg_items p)\<rparr>)"
proof -
  let ?s = "lc_sort cfg"
  let ?rows = "listing (<) docs (lc_types cfg) ?s"
  have rows: "listing (<) docs' (lc_types cfg) ?s = map list_view ?rows"
  proof (rule bytewise.listing_unique [OF assms(1,5), symmetric])
    show "sorted_wrt (doc_less (<) ?s) (map list_view ?rows)"
      using bytewise.listing_sorted [OF assms(1,2)] by (simp add: sorted_wrt_map)
    show "set (map list_view ?rows) = {d \<in> set docs'. type_match (lc_types cfg) d}"
      using assms(4) by auto
  qed
  have seek: "after_cursor (<) ?s c (map list_view xs) = map list_view (after_cursor (<) ?s c xs)" for c xs
    by (auto simp: after_cursor_def filter_map o_def split: option.splits)
  have "card (set (filter (type_match (lc_types cfg)) docs')) = card (set (filter (type_match (lc_types cfg)) docs))"
  proof -
    have "set (filter (type_match (lc_types cfg)) docs') = list_view ` set (filter (type_match (lc_types cfg)) docs)"
      using assms(4) by auto
    moreover have "inj_on list_view (set docs)"
      using assms(2) by (metis distinct_map inj_onI inj_onD list_view_id)
    then have "inj_on list_view (set (filter (type_match (lc_types cfg)) docs))"
      by (rule inj_on_subset) auto
    ultimately show ?thesis by (simp only: card_image)
  qed
  then have total: "length (filter (type_match (lc_types cfg)) docs') = length (filter (type_match (lc_types cfg)) docs)"
    using assms(2,5) by (metis distinct_card distinct_filter distinct_map)
  have page: "page_of (nextCursor ?s) n (map list_view xs) =
      (let (items, nx) = page_of (nextCursor ?s) n xs in (map list_view items, nx))" if "0 < n" for n xs
    using that by (simp add: page_of_def take_map)
  show ?thesis
    unfolding spec_page_def rows seek using page [of "nat (lc_limit cfg)"] assms(3) total
    by (simp add: Let_def split: prod.splits)
qed

text \<open>C6: The two stores are interchangeable for listing. When a memory store and a database hold
  the same documents (as far as the documents table holds them), the database orders text
  bytewise and the cursor has microsecond precision, both answer every list request with the
  same page: the same documents in the same order, the same next cursor and the same total.\<close>

theorem pg_mem_parity:
  assumes "mem_built st" and "docs_wf db" and "set (pg_docs db) = list_view ` set (mem_contents st)"
    and "SortValid (lc_sort (Apply opts))" and "us_cursor (lc_cursor (Apply opts))"
    and "mem_List st opts = Inr p"
  shows "pg_List (quiet_env (<) now) db opts = Inr (p\<lparr>pg_items := map list_view (pg_items p)\<rparr>)"
proof -
  have wf: "mem_wf st" using assms(1) by (rule mem_built_wf)
  have lim: "0 < lc_limit (Apply opts)" using mem_List_bad_limit [of opts st] assms(6) by fastforce
  obtain p' where p': "pg_List (quiet_env (<) now) db opts = Inr p'" using quiet_answers [OF lim] by blast
  have "p' = spec_page (<) (pg_docs db) (Apply opts)"
    using pgc.page [OF assms(2,4,5) p'] .
  also have "\<dots> = (let p = spec_page (<) (mem_contents st) (Apply opts) in p\<lparr>pg_items := map list_view (pg_items p)\<rparr>)"
    by (rule spec_page_view [OF assms(4) mem_ids [OF wf] lim assms(3)])
      (use assms(2) in \<open>simp add: docs_wf_def pg_docs_ids\<close>)
  also have "spec_page (<) (mem_contents st) (Apply opts) = p"
    using mem.page [OF wf assms(4) TrueI assms(6)] by simp
  finally show ?thesis using p' by (simp add: Let_def)
qed

definition parity_store :: MemStore where
  "parity_store = sortIndex \<lparr>m_byID = map (\<lambda>d. (d_id d, d))
       [sample_doc ''RFC-0001'' ''rfc'' 10000, sample_doc ''RFC-0002'' ''rfc'' 20000],
     m_ordered = [], m_links = [(''RFC-0001'', []), (''RFC-0002'', [])]\<rparr>"

theorem pg_mem_parity_witness:
  "\<exists>p. mem_List parity_store [WithLimit 1] = Inr p
    \<and> pg_List (quiet_env (<) 0) demo_db [WithLimit 1] = Inr (p\<lparr>pg_items := map list_view (pg_items p)\<rparr>)"
proof -
  obtain s1 where "mem_Add mem_New (sample_doc ''RFC-0001'' ''rfc'' 10000) = Inr s1"
    and "mem_Add s1 (sample_doc ''RFC-0002'' ''rfc'' 20000) = Inr parity_store"
    by (simp add: mem_Add_def mem_add_def mem_New_def sample_doc_def zero_document_def
        parity_store_def sortIndex_def)
  then have built: "mem_built parity_store" by (meson mem_built.intros)
  have same: "set (pg_docs demo_db) = list_view ` set (mem_contents parity_store)"
    by (simp add: pg_docs_def demo_db_def parity_store_def mem_contents_def sortIndex_def list_view_def
        scanDocument_def doc_row_def sample_doc_def zero_document_def zero_source_def str_of_def
        nonZeroTime_def pg_time_def)
  have cfg: "Apply [WithLimit 1] = \<lparr>lc_sort = SortCreatedDesc, lc_types = [], lc_limit = 1, lc_cursor = None\<rparr>"
    by (simp add: option_defs)
  obtain p where p: "mem_List parity_store [WithLimit 1] = Inr p"
    using msvc.answers [OF mem_built_wf [OF built], of "[WithLimit 1]"] by (auto simp: cfg)
  from pg_mem_parity [OF built demo_db_wf same _ _ p] show ?thesis
    using p by (simp add: cfg us_cursor_def)
qed

end
