(* ===== verification/PostgresWrites.thy ===== *)
theory PostgresWrites
  imports PostgresList Steps
begin

text \<open>
  The write side of the Postgres store: the constraints of the schema as an invariant that
  every write keeps under every failure, what a successful \<open>Upsert\<close> leaves to be read back,
  atomicity, and the cascade of \<open>Delete\<close>.
\<close>

section \<open>The schema invariant\<close>

definition doc_ids :: "DB \<Rightarrow> string set" where
  "doc_ids db = dr_id ` set (t_documents db)"

definition db_wf :: "DB \<Rightarrow> bool" where
  "db_wf db = (docs_wf db
     \<and> distinct (map (\<lambda>r. (ar_doc r, ar_seq r)) (t_authors db)) \<and> (\<forall>r \<in> set (t_authors db). ar_doc r \<in> doc_ids db)
     \<and> distinct (map (\<lambda>r. (lr_source r, lr_target r, lr_direction r)) (t_links db))
     \<and> (\<forall>r \<in> set (t_links db). lr_source r \<in> doc_ids db)
     \<and> (\<forall>r \<in> set (t_links db). lr_direction r \<in> {''incoming'', ''outgoing''})
     \<and> distinct (map di_doc (t_discussions db)) \<and> (\<forall>r \<in> set (t_discussions db). di_doc r \<in> doc_ids db)
     \<and> distinct (map (\<lambda>r. (pr_doc r, pr_seq r)) (t_participants db))
     \<and> (\<forall>r \<in> set (t_participants db). pr_doc r \<in> doc_ids db))"

definition empty_db :: DB where
  "empty_db = \<lparr>t_documents = [], t_authors = [], t_links = [], t_discussions = [], t_participants = []\<rparr>"

lemma db_wf_empty: "db_wf empty_db"
  by (simp add: db_wf_def docs_wf_def empty_db_def)

lemma table_updates [simp]:
  "doc_ids (db\<lparr>t_authors := xs\<rparr>) = doc_ids db" "docs_wf (db\<lparr>t_authors := xs\<rparr>) = docs_wf db"
  "doc_ids (db\<lparr>t_links := ls\<rparr>) = doc_ids db" "docs_wf (db\<lparr>t_links := ls\<rparr>) = docs_wf db"
  "doc_ids (db\<lparr>t_discussions := ds\<rparr>) = doc_ids db" "docs_wf (db\<lparr>t_discussions := ds\<rparr>) = docs_wf db"
  "doc_ids (db\<lparr>t_participants := ps\<rparr>) = doc_ids db" "docs_wf (db\<lparr>t_participants := ps\<rparr>) = docs_wf db"
  by (simp_all add: doc_ids_def docs_wf_def)

lemma ids_iff: "(\<exists>r \<in> set (t_documents db). dr_id r = i) \<longleftrightarrow> i \<in> doc_ids db"
  by (auto simp: doc_ids_def)

lemma pg_try_Inr: "pg_try env w v = Inr x \<longleftrightarrow> x = v \<and> pg_fail env w = None"
  by (auto simp: pg_try_def split: option.splits)

lemma pg_insert_Inr: "pg_insert env w r = Inr db \<longleftrightarrow> r = Some db \<and> pg_fail env w = None"
  by (auto simp: pg_insert_def bindR_Inr pg_try_Inr split: option.splits)

text \<open>The documents after an upsert: the row of the id replaced, or one more row.\<close>

definition upserted :: "PgEnv \<Rightarrow> Document \<Rightarrow> DB \<Rightarrow> DB" where
  "upserted env doc db =
     (if d_id doc \<in> doc_ids db
      then db\<lparr>t_documents := map (\<lambda>r. if dr_id r = d_id doc
                then (doc_row env doc)\<lparr>dr_created := dr_created r\<rparr> else r) (t_documents db)\<rparr>
      else db\<lparr>t_documents := t_documents db @ [doc_row env doc]\<rparr>)"

lemma upsertDocument_Inr:
  "upsertDocument env doc db = Inr db' \<longleftrightarrow> db' = upserted env doc db \<and> pg_fail env ''upsert documents'' = None"
  by (auto simp: upsertDocument_def pg_try_Inr upserted_def ids_iff Let_def)

lemma doc_row_id [simp]: "dr_id (doc_row env doc) = d_id doc"
  by (simp add: doc_row_def)

lemma upserted_ids [simp]: "doc_ids (upserted env doc db) = insert (d_id doc) (doc_ids db)"
proof (cases "d_id doc \<in> doc_ids db")
  case True
  let ?f = "\<lambda>r. if dr_id r = d_id doc then (doc_row env doc)\<lparr>dr_created := dr_created r\<rparr> else r"
  have "map dr_id (map ?f (t_documents db)) = map dr_id (t_documents db)" by simp
  then have "dr_id ` set (map ?f (t_documents db)) = doc_ids db"
    unfolding doc_ids_def by (metis set_map)
  then show ?thesis
    using True unfolding upserted_def by (simp add: doc_ids_def insert_absorb del: set_map)
next
  case False
  then show ?thesis by (auto simp: upserted_def doc_ids_def)
qed

lemma upserted_docs_wf:
  assumes "docs_wf db"
  shows "docs_wf (upserted env doc db)"
proof (cases "d_id doc \<in> doc_ids db")
  case True
  have "map dr_id (map (\<lambda>r. if dr_id r = d_id doc then (doc_row env doc)\<lparr>dr_created := dr_created r\<rparr> else r)
      (t_documents db)) = map dr_id (t_documents db)"
    by (auto simp: doc_row_def)
  moreover have "us_time (dr_updated (doc_row env doc))" by (simp add: doc_row_def)
  ultimately show ?thesis
    using assms True by (auto simp: docs_wf_def upserted_def list_all_iff simp del: map_map)
next
  case False
  then show ?thesis
    using assms by (auto simp: docs_wf_def upserted_def doc_ids_def list_all_iff doc_row_def)
qed

lemma upserted_tables [simp]:
  "t_authors (upserted env doc db) = t_authors db" "t_links (upserted env doc db) = t_links db"
  "t_discussions (upserted env doc db) = t_discussions db"
  "t_participants (upserted env doc db) = t_participants db"
  by (simp_all add: upserted_def)

lemma upserted_wf: "db_wf db \<Longrightarrow> db_wf (upserted env doc db)"
  using upserted_docs_wf [of db env doc] unfolding db_wf_def by auto

lemma insert_author_wf: "db_wf db \<Longrightarrow> insert_author a db = Some db' \<Longrightarrow> db_wf db'"
  by (auto simp: insert_author_def ids_iff db_wf_def simp del: set_map split: if_splits)

lemma insert_link_wf: "db_wf db \<Longrightarrow> insert_link a db = Some db' \<Longrightarrow> db_wf db'"
  by (auto simp: insert_link_def ids_iff db_wf_def simp del: set_map split: if_splits)

lemma insert_participant_wf: "db_wf db \<Longrightarrow> insert_participant a db = Some db' \<Longrightarrow> db_wf db'"
  by (auto simp: insert_participant_def ids_iff db_wf_def simp del: set_map split: if_splits)

lemma insert_authors_wf: "db_wf db \<Longrightarrow> insert_authors env i n as db = Inr db' \<Longrightarrow> db_wf db'"
  by (induction as arbitrary: n db) (auto simp: bindR_Inr pg_insert_Inr dest: insert_author_wf)

lemma insert_links_wf: "db_wf db \<Longrightarrow> insert_links env i n ls db = Inr db' \<Longrightarrow> db_wf db'"
  by (induction ls arbitrary: n db) (auto simp: bindR_Inr pg_insert_Inr dest: insert_link_wf)

lemma insert_participants_wf: "db_wf db \<Longrightarrow> insert_participants env i n ps db = Inr db' \<Longrightarrow> db_wf db'"
  by (induction ps arbitrary: n db) (auto simp: bindR_Inr pg_insert_Inr dest: insert_participant_wf)

text \<open>Clearing the rows of one document from a child table.\<close>

lemma clear_authors_wf: "db_wf db \<Longrightarrow> db_wf (db\<lparr>t_authors := filter P (t_authors db)\<rparr>)"
  by (auto simp: db_wf_def intro: distinct_map_filter)

lemma clear_links_wf: "db_wf db \<Longrightarrow> db_wf (db\<lparr>t_links := filter P (t_links db)\<rparr>)"
  by (auto simp: db_wf_def intro: distinct_map_filter)

lemma clear_participants_wf: "db_wf db \<Longrightarrow> db_wf (db\<lparr>t_participants := filter P (t_participants db)\<rparr>)"
  by (auto simp: db_wf_def intro: distinct_map_filter)

lemma replaceAuthors_wf: "db_wf db \<Longrightarrow> replaceAuthors env doc db = Inr db' \<Longrightarrow> db_wf db'"
  by (auto simp: replaceAuthors_def bindR_Inr pg_try_Inr intro: insert_authors_wf clear_authors_wf)

lemma replaceLinks_wf: "db_wf db \<Longrightarrow> replaceLinks env doc db = Inr db' \<Longrightarrow> db_wf db'"
  by (auto simp: replaceLinks_def bindR_Inr pg_try_Inr intro: insert_links_wf clear_links_wf)

lemma commit_tx_cases:
  assumes "commit_tx env what db r = (db', err)"
  obtains "db' = db" "err \<noteq> None" | db1 where "r = Inr db1" "db' = db1" "err = None \<or> (\<exists>e. pg_commit env = Lost e)"
  using assms by (cases r; cases "pg_commit env") (auto simp: commit_tx_def)

lemma Upsert_wf:
  assumes "db_wf db" and "pg_Upsert env odoc db = (db', err)"
  shows "db_wf db'"
proof (cases odoc)
  case None
  then show ?thesis using assms by (simp add: pg_Upsert_def)
next
  case (Some doc)
  let ?tx = "bindR (pg_try env ''begin upsert'' db) (\<lambda>db0. bindR (upsertDocument env doc db0) (\<lambda>db1.
      bindR (replaceAuthors env doc db1) (replaceLinks env doc)))"
  have "db_wf db1" if "?tx = Inr db1" for db1
    using that assms(1)
    by (simp add: bindR_Inr pg_try_Inr upsertDocument_Inr)
      (metis upserted_wf replaceAuthors_wf replaceLinks_wf)
  then show ?thesis
    using assms Some by (auto simp: pg_Upsert_def split: if_splits elim!: commit_tx_cases)
qed

lemma disc_row_doc [simp]: "di_doc (disc_row env i disc) = i"
  by (simp add: disc_row_def)

lemma upsert_discussion_row_wf:
  assumes "db_wf db" and "upsert_discussion_row env i disc db = Some db'"
  shows "db_wf db'"
proof -
  let ?f = "\<lambda>r. if di_doc r = i then disc_row env i disc else r"
  have eq: "map di_doc (map ?f rs) = map di_doc rs" for rs by auto
  have "i \<in> doc_ids db" using assms(2) by (auto simp: upsert_discussion_row_def ids_iff split: if_splits)
  moreover have "\<forall>r \<in> set rs. di_doc r \<in> doc_ids db \<Longrightarrow> \<forall>r \<in> set (map ?f rs). di_doc r \<in> doc_ids db" for rs
    by auto
  ultimately show ?thesis
    using assms
    by (auto simp: upsert_discussion_row_def db_wf_def ids_iff eq simp del: map_map set_map split: if_splits)
qed

lemma UpsertDiscussion_wf:
  assumes "db_wf db" and "UpsertDiscussion env i disc db = (db', err)"
  shows "db_wf db'"
proof -
  let ?tx = "bindR (pg_try env ''begin upsert discussion'' db) (\<lambda>db0.
      bindR (pg_insert env ''upsert discussion'' (upsert_discussion_row env i disc db0)) (\<lambda>db1.
      bindR (pg_try env ''clear participants''
            (db1\<lparr>t_participants := filter (\<lambda>r. pr_doc r \<noteq> i) (t_participants db1)\<rparr>))
       (insert_participants env i 0 (ds_participants disc))))"
  have "db_wf db1" if "?tx = Inr db1" for db1
    using that assms(1)
    by (simp add: bindR_Inr pg_try_Inr pg_insert_Inr)
      (metis upsert_discussion_row_wf clear_participants_wf insert_participants_wf)
  then show ?thesis
    using assms by (auto simp: UpsertDiscussion_def split: if_splits elim!: commit_tx_cases)
qed

lemma delete_stmt_wf: "db_wf db \<Longrightarrow> db_wf (delete_stmt i db)"
  by (auto simp: db_wf_def docs_wf_def doc_ids_def delete_stmt_def list_all_iff intro: distinct_map_filter)

lemma Delete_wf: "db_wf db \<Longrightarrow> pg_Delete env i db = (db', err) \<Longrightarrow> db_wf db'"
  by (cases "pg_commit env") (auto simp: pg_Delete_def intro: delete_stmt_wf split: if_splits)

text \<open>The writes of the program, under every environment.\<close>

datatype pglabel = PUpsert "Document option" | PDiscussion DocumentID Discussion | PDelete DocumentID

inductive pg_step :: "DB \<Rightarrow> pglabel \<Rightarrow> DB \<Rightarrow> bool" where
  step_upsert: "pg_Upsert env odoc db = (db', err) \<Longrightarrow> pg_step db (PUpsert odoc) db'"
| step_discussion: "UpsertDiscussion env i disc db = (db', err) \<Longrightarrow> pg_step db (PDiscussion i disc) db'"
| step_delete: "pg_Delete env i db = (db', err) \<Longrightarrow> pg_step db (PDelete i) db'"

interpretation pginv: stable_under pg_step db_wf "\<lambda>_. True"
proof
  fix s l t
  assume "pg_step s l t" and "db_wf s"
  then show "db_wf t"
    by (cases rule: pg_step.cases) (auto intro: Upsert_wf UpsertDiscussion_wf Delete_wf)
qed

lemma run_db_wf: "run pg_step empty_db ls db \<Longrightarrow> db_wf db"
  using pginv.run_stable [of empty_db ls db] db_wf_empty by (simp add: list_all_iff)

section \<open>Reading back an upsert\<close>

definition author_rows :: "DocumentID \<Rightarrow> nat \<Rightarrow> Author list \<Rightarrow> AuthorRow list" where
  "author_rows i n as = map (\<lambda>(k, a). \<lparr>ar_doc = i, ar_seq = int k, ar_name = a_name a,
     ar_email = Some (a_email a), ar_handle = Some (a_handle a)\<rparr>) (enumerate n as)"

lemma insert_authors_Inr:
  "insert_authors env i n as db = Inr db' \<Longrightarrow> db' = db\<lparr>t_authors := t_authors db @ author_rows i n as\<rparr>"
proof (induction as arbitrary: n db)
  case Nil
  then show ?case by (simp add: author_rows_def)
next
  case (Cons a as)
  let ?r = "\<lparr>ar_doc = i, ar_seq = int n, ar_name = a_name a, ar_email = Some (a_email a), ar_handle = Some (a_handle a)\<rparr>"
  have "insert_authors env i (Suc n) as (db\<lparr>t_authors := t_authors db @ [?r]\<rparr>) = Inr db'"
    using Cons.prems by (auto simp: bindR_Inr pg_insert_Inr insert_author_def split: if_splits)
  from Cons.IH [OF this] show ?case by (simp add: author_rows_def)
qed

lemma insert_links_tables:
  "insert_links env i n ls db = Inr db' \<Longrightarrow> t_documents db' = t_documents db \<and> t_authors db' = t_authors db
    \<and> t_discussions db' = t_discussions db \<and> t_participants db' = t_participants db
    \<and> filter (\<lambda>r. lr_source r \<noteq> i) (t_links db') = filter (\<lambda>r. lr_source r \<noteq> i) (t_links db)"
proof (induction ls arbitrary: n db)
  case Nil
  then show ?case by simp
next
  case (Cons l ls)
  then show ?case
    by (auto simp: bindR_Inr pg_insert_Inr insert_link_def split: if_splits dest!: Cons.IH)
qed

lemma scan_author_rows: "map scan_author (author_rows i n as) = as"
  by (induction as arbitrary: n) (simp_all add: author_rows_def scan_author_def str_of_def)

lemma author_rows_sorted: "sort_slice (\<lambda>a b. ar_seq a < ar_seq b) (author_rows i n as) = author_rows i n as"
proof (rule sort_slice_id)
  have "sorted_wrt (<) (map fst (enumerate n as))" by simp
  then show "sorted_wrt (\<lambda>a b. \<not> ar_seq b < ar_seq a) (author_rows i n as)"
    unfolding author_rows_def sorted_wrt_map by (rule sorted_wrt_mono_rel [rotated]) auto
qed

lemma author_rows_doc: "filter (\<lambda>r. ar_doc r = j) (author_rows i n as) = (if i = j then author_rows i n as else [])"
  by (auto simp: author_rows_def filter_empty_conv filter_id_conv)

lemma Upsert_success:
  assumes "pg_Upsert env (Some doc) db = (db', None)"
  obtains ls where "db' = (upserted env doc db)\<lparr>t_authors :=
      filter (\<lambda>r. ar_doc r \<noteq> d_id doc) (t_authors db) @ author_rows (d_id doc) 0 (d_authors doc), t_links := ls\<rparr>"
proof -
  obtain db1 db2 where "replaceAuthors env doc (upserted env doc db) = Inr db1"
    and db2: "replaceLinks env doc db1 = Inr db2" and "db' = db2"
    using assms by (auto simp: pg_Upsert_def bindR_Inr pg_try_Inr upsertDocument_Inr split: if_splits
        elim!: commit_tx_cases)
  then have db1: "db1 = (upserted env doc db)\<lparr>t_authors :=
      filter (\<lambda>r. ar_doc r \<noteq> d_id doc) (t_authors db) @ author_rows (d_id doc) 0 (d_authors doc)\<rparr>"
    by (auto simp: replaceAuthors_def bindR_Inr pg_try_Inr dest!: insert_authors_Inr)
  have "t_documents db2 = t_documents db1 \<and> t_authors db2 = t_authors db1
    \<and> t_discussions db2 = t_discussions db1 \<and> t_participants db2 = t_participants db1"
    using db2 by (auto simp: replaceLinks_def bindR_Inr pg_try_Inr dest!: insert_links_tables)
  then have "db2 = db1\<lparr>t_links := t_links db2\<rparr>" by simp
  then show ?thesis using that \<open>db' = db2\<close> db1 by simp
qed

lemma find_map_id:
  assumes "\<And>r. dr_id (f r) = dr_id r"
  shows "find (\<lambda>r. dr_id r = i) (map f rs) = map_option f (find (\<lambda>r. dr_id r = i) rs)"
  by (induction rs) (simp_all add: assms)

lemma find_append: "find P (xs @ ys) = (case find P xs of None \<Rightarrow> find P ys | Some x \<Rightarrow> Some x)"
  by (induction xs) simp_all

lemma find_holds: "find P xs = Some x \<Longrightarrow> P x \<and> x \<in> set xs"
  by (auto simp: find_Some_iff)

lemma find_upserted:
  "find (\<lambda>r. dr_id r = j) (t_documents (upserted env doc db)) =
     (if j = d_id doc
      then Some (case find (\<lambda>r. dr_id r = j) (t_documents db) of
             None \<Rightarrow> doc_row env doc | Some r \<Rightarrow> (doc_row env doc)\<lparr>dr_created := dr_created r\<rparr>)
      else find (\<lambda>r. dr_id r = j) (t_documents db))"
proof (cases "d_id doc \<in> doc_ids db")
  case True
  let ?f = "\<lambda>r. if dr_id r = d_id doc then (doc_row env doc)\<lparr>dr_created := dr_created r\<rparr> else r"
  have eq: "find (\<lambda>r. dr_id r = j) (t_documents (upserted env doc db)) =
      map_option ?f (find (\<lambda>r. dr_id r = j) (t_documents db))"
    using True by (simp add: upserted_def find_map_id)
  show ?thesis
  proof (cases "find (\<lambda>r. dr_id r = j) (t_documents db)")
    case None
    then have "j \<notin> doc_ids db" unfolding find_None_iff using ids_iff by metis
    then show ?thesis using True eq None by auto
  next
    case (Some r)
    then show ?thesis using eq find_holds [OF Some] by auto
  qed
next
  case False
  then have "find (\<lambda>r. dr_id r = d_id doc) (t_documents db) = None"
    unfolding find_None_iff using ids_iff by metis
  then show ?thesis using False by (auto simp: upserted_def find_append split: option.split)
qed

text \<open>The document \<^verbatim>\<open>Get\<close> returns from a database that answers.\<close>

lemma quiet_Get:
  "pg_Get (quiet_env coll now) db i =
     (case find (\<lambda>r. dr_id r = i) (t_documents db) of
        None \<Rightarrow> Inl (not_found i)
      | Some r \<Rightarrow> Inr ((scanDocument r)\<lparr>
          d_authors := map scan_author (sort_slice (\<lambda>a b. ar_seq a < ar_seq b)
            (filter (\<lambda>r. ar_doc r = i) (t_authors db))),
          d_discussion := map_option (\<lambda>r. \<lparr>ds_url = str_of (di_url r), ds_comment_count = di_count r,
              ds_participants = [], ds_last_activity = (case di_activity r of None \<Rightarrow> 0 | Some t \<Rightarrow> t)\<rparr>)
            (find (\<lambda>r. di_doc r = i) (t_discussions db))\<rparr>))"
  by (simp add: pg_Get_def getDocument_def pg_Authors_def discussionOrNil_def split: option.splits)

lemma upsert_then_get_doc:
  assumes "pg_Upsert env (Some doc) db = (db', None)"
  shows "\<exists>d. pg_Get (quiet_env coll now) db' (d_id doc) = Inr d"
proof -
  obtain ls' where "db' = (upserted env doc db)\<lparr>t_authors :=
      filter (\<lambda>r. ar_doc r \<noteq> d_id doc) (t_authors db) @ author_rows (d_id doc) 0 (d_authors doc), t_links := ls'\<rparr>"
    using assms by (rule Upsert_success)
  then show ?thesis by (simp add: quiet_Get find_upserted)
qed

section \<open>Properties\<close>


lemma Upsert_read_all:
  assumes "pg_Upsert env (Some doc) db = (db', None)"
  shows "(\<exists>d. pg_Get (quiet_env coll now) db' (d_id doc) = Inr d
      \<and> d_id d = d_id doc \<and> d_type d = d_type doc \<and> d_title d = d_title doc \<and> d_status d = d_status doc
      \<and> d_body d = d_body doc \<and> d_labels d = d_labels doc \<and> d_extensions d = d_extensions doc
      \<and> d_authors d = d_authors doc \<and> d_updated d = pg_time (nonZeroTime env (d_updated doc))
      \<and> so_repo (d_source d) = so_repo (d_source doc) \<and> so_path (d_source d) = so_path (d_source doc)
      \<and> so_commit (d_source d) = so_commit (d_source doc)
      \<and> (case pg_Get (quiet_env coll now) db (d_id doc) of
           Inr old \<Rightarrow> d_created d = d_created old \<and> d_discussion d = d_discussion old
         | Inl _ \<Rightarrow> d_created d = pg_time (nonZeroTime env (d_created doc))))
    \<and> (\<forall>j. j \<noteq> d_id doc \<longrightarrow> pg_Get (quiet_env coll now) db' j = pg_Get (quiet_env coll now) db j)"
proof -
  obtain ls' where db': "db' = (upserted env doc db)\<lparr>t_authors :=
      filter (\<lambda>r. ar_doc r \<noteq> d_id doc) (t_authors db) @ author_rows (d_id doc) 0 (d_authors doc), t_links := ls'\<rparr>"
    using assms by (rule Upsert_success)
  have authors: "filter (\<lambda>r. ar_doc r = j) (t_authors db') =
      (if j = d_id doc then author_rows (d_id doc) 0 (d_authors doc) else filter (\<lambda>r. ar_doc r = j) (t_authors db))" for j
    by (auto simp: db' author_rows_doc intro: filter_cong)
  have docs: "t_documents db' = t_documents (upserted env doc db)" and disc: "t_discussions db' = t_discussions db"
    by (simp_all add: db')
  have other: "pg_Get (quiet_env coll now) db' j = pg_Get (quiet_env coll now) db j" if "j \<noteq> d_id doc" for j
    using that by (simp add: quiet_Get docs find_upserted authors disc split: option.split)
  show ?thesis
    using other
    by (auto simp: quiet_Get docs find_upserted authors disc author_rows_sorted scan_author_rows
        scanDocument_def doc_row_def str_of_def zero_source_def split: option.splits)
qed

lemma Upsert_read:
  assumes "pg_Upsert env (Some doc) db = (db', None)"
  shows "\<exists>d. pg_Get (quiet_env coll now) db' (d_id doc) = Inr d
    \<and> d_id d = d_id doc \<and> d_type d = d_type doc \<and> d_title d = d_title doc \<and> d_status d = d_status doc \<and> d_body d = d_body doc
    \<and> d_labels d = d_labels doc \<and> d_authors d = d_authors doc \<and> so_commit (d_source d) = so_commit (d_source doc)"
  using conjunct1 [OF Upsert_read_all [OF assms, of coll now]] by blast

text \<open>C7: What is upserted is what is read. After a successful \<open>Upsert\<close>, \<open>Get\<close> of the document's id
  returns its type, title, status, body, labels, extensions, source and authors (in order), its
  update time to the microsecond, and the creation time of the first insert: an existing
  \<^verbatim>\<open>created_at\<close> is preserved. The discussion is not touched, and \<open>Get\<close> of every other id answers
  as before.\<close>

theorem upsert_then_get:
  assumes "pg_Upsert env (Some doc) db = (db', None)"
  shows "(\<exists>d. pg_Get (quiet_env coll now) db' (d_id doc) = Inr d
      \<and> d_id d = d_id doc \<and> d_type d = d_type doc \<and> d_title d = d_title doc \<and> d_status d = d_status doc
      \<and> d_body d = d_body doc \<and> d_labels d = d_labels doc \<and> d_extensions d = d_extensions doc
      \<and> d_authors d = d_authors doc \<and> d_updated d = pg_time (nonZeroTime env (d_updated doc))
      \<and> so_repo (d_source d) = so_repo (d_source doc) \<and> so_path (d_source d) = so_path (d_source doc)
      \<and> so_commit (d_source d) = so_commit (d_source doc)
      \<and> (case pg_Get (quiet_env coll now) db (d_id doc) of
           Inr old \<Rightarrow> d_created d = d_created old \<and> d_discussion d = d_discussion old
         | Inl _ \<Rightarrow> d_created d = pg_time (nonZeroTime env (d_created doc))))
    \<and> (\<forall>j. j \<noteq> d_id doc \<longrightarrow> pg_Get (quiet_env coll now) db' j = pg_Get (quiet_env coll now) db j)"
  by (rule Upsert_read_all [OF assms])

definition linked_doc :: Document where
  "linked_doc = (sample_doc ''RFC-0001'' ''rfc'' 10000)\<lparr>d_authors := [\<lparr>a_name = ''Ann'', a_email = [], a_handle = ''ann''\<rparr>],
     d_links := [\<lparr>l_direction = LinkOutgoing, l_target = ''ADR-0002'', l_href = [], l_label = ''x''\<rparr>]\<rparr>"

definition linked_db :: DB where
  "linked_db = fst (pg_Upsert (quiet_env (<) 0) (Some linked_doc) empty_db)"

lemma upsert_linked: "pg_Upsert (quiet_env (<) 0) (Some linked_doc) empty_db = (linked_db, None)"
proof -
  have "snd (pg_Upsert (quiet_env (<) 0) (Some linked_doc) empty_db) = None"
    by (simp add: pg_Upsert_def linked_doc_def sample_doc_def upsertDocument_def replaceAuthors_def
        replaceLinks_def pg_insert_def insert_author_def insert_link_def empty_db_def doc_row_def
        LinkOutgoing_def commit_tx_def Let_def)
  then show ?thesis by (simp add: linked_db_def prod_eq_iff)
qed

lemma run_linked: "run pg_step empty_db [PUpsert (Some linked_doc)] linked_db"
  by (rule run_cons, rule step_upsert, rule upsert_linked, rule run_nil)


theorem upsert_then_get_witness:
  "\<exists>d. pg_Get (quiet_env (<) 0) linked_db (d_id linked_doc) = Inr d \<and> d_authors d = d_authors linked_doc"
  using upsert_then_get [OF upsert_linked, of "(<)" 0] by blast

text \<open>C8: Writes are transactions. When \<open>Upsert\<close> or \<open>UpsertDiscussion\<close> reports an error, the database
  is exactly as before, unless the error is that of a commit whose acknowledgement was lost. An
  upsert of a document without id or type is refused as invalid input, and every error that comes
  from the database is an upstream error.\<close>

theorem pg_writes_atomic:
  assumes "\<forall>e. pg_commit env \<noteq> Lost e"
  shows "(pg_Upsert env (Some doc) db = (db', Some err) \<longrightarrow> db' = db
      \<and> (if d_id doc = [] \<or> d_type doc = [] then error_is err ErrInvalidInput else error_is err ErrUpstream))
    \<and> (UpsertDiscussion env i disc db = (db'', Some err') \<longrightarrow> db'' = db
      \<and> (if i = [] then error_is err' ErrInvalidInput else error_is err' ErrUpstream))"
proof -
  have tryD: "pg_try env w v = Inl e \<Longrightarrow> error_is e ErrUpstream" for w e and v :: DB
    by (auto simp: pg_try_def upstream_def split: option.splits)
  have ins: "pg_insert env w r = Inl e \<Longrightarrow> error_is e ErrUpstream" for w r e
    by (auto simp: pg_insert_def bindR_Inl pg_try_def upstream_def split: option.splits)
  have as: "insert_authors env j n xs d = Inl e \<Longrightarrow> error_is e ErrUpstream" for j n xs d e
    by (induction xs arbitrary: n d) (auto simp: bindR_Inl dest: ins)
  have ls: "insert_links env j n xs d = Inl e \<Longrightarrow> error_is e ErrUpstream" for j n xs d e
    by (induction xs arbitrary: n d) (auto simp: bindR_Inl dest: ins)
  have ps: "insert_participants env j n xs d = Inl e \<Longrightarrow> error_is e ErrUpstream" for j n xs d e
    by (induction xs arbitrary: n d) (auto simp: bindR_Inl dest: ins)
  have commit: "commit_tx env w d r = (d', Some e) \<Longrightarrow> (\<And>x. r = Inl x \<Longrightarrow> error_is x ErrUpstream) \<Longrightarrow>
      d' = d \<and> error_is e ErrUpstream" for w d r d' e
    using assms by (cases r; cases "pg_commit env") (auto simp: commit_tx_def upstream_def)
  have tx1: "bindR (pg_try env ''begin upsert'' db) (\<lambda>db0. bindR (upsertDocument env doc db0) (\<lambda>db1.
      bindR (replaceAuthors env doc db1) (replaceLinks env doc))) = Inl e \<Longrightarrow> error_is e ErrUpstream" for e
    by (auto simp: bindR_Inl upsertDocument_def replaceAuthors_def replaceLinks_def dest: tryD as ls)
  have tx2: "bindR (pg_try env ''begin upsert discussion'' db) (\<lambda>db0.
      bindR (pg_insert env ''upsert discussion'' (upsert_discussion_row env i disc db0)) (\<lambda>db1.
      bindR (pg_try env ''clear participants''
            (db1\<lparr>t_participants := filter (\<lambda>r. pr_doc r \<noteq> i) (t_participants db1)\<rparr>))
       (insert_participants env i 0 (ds_participants disc)))) = Inl e \<Longrightarrow> error_is e ErrUpstream" for e
    by (auto simp: bindR_Inl dest: tryD ins ps)
  show ?thesis
    using commit [OF _ tx1] commit [OF _ tx2]
    by (auto simp: pg_Upsert_def UpsertDiscussion_def split: if_splits)
qed

theorem pg_writes_atomic_witness:
  "\<exists>err. UpsertDiscussion (quiet_env (<) 0) ''RFC-0001'' zero_discussion empty_db = (empty_db, Some err)
    \<and> error_is err ErrUpstream \<and> \<not> error_is err ErrNotFound"
proof -
  let ?e = "upstream ''upsert discussion'' constraint_error"
  have u: "UpsertDiscussion (quiet_env (<) 0) ''RFC-0001'' zero_discussion empty_db = (empty_db, Some ?e)"
    by (simp add: UpsertDiscussion_def pg_insert_def upsert_discussion_row_def empty_db_def commit_tx_def)
  moreover have "error_is ?e ErrUpstream"
    using pg_writes_atomic [of "quiet_env (<) 0" zero_document empty_db empty_db ?e "''RFC-0001''"
        zero_discussion empty_db ?e] u by simp
  moreover have "\<not> error_is ?e ErrNotFound" by (simp add: upstream_def constraint_error_def)
  ultimately show ?thesis by blast
qed

text \<open>Deleting a document removes every trace of it and nothing else: after an acknowledged
  \<open>Delete\<close> of an existing id, \<open>Get\<close> and the sub-resources answer not found, no author, outgoing
  link, discussion or participant row of it remains, and \<open>Get\<close> of every other id is unchanged; a
  missing id is reported as not found and changes nothing.\<close>

theorem delete_cascades:
  assumes "run pg_step empty_db ls db" and "pg_commit env = Acked"
    and "pg_Delete env i db = (db', err)"
  shows "(i \<in> dr_id ` set (t_documents db) \<longleftrightarrow> err = None)
    \<and> (i \<notin> dr_id ` set (t_documents db) \<longrightarrow> db' = db \<and> err = Some (not_found i))
    \<and> pg_Get (quiet_env coll now) db' i = Inl (not_found i)
    \<and> pg_Links (quiet_env coll now) db' i = Inl (not_found i)
    \<and> pg_Discussion (quiet_env coll now) db' i = Inl (not_found i)
    \<and> i \<notin> ar_doc ` set (t_authors db') \<union> lr_source ` set (t_links db') \<union> di_doc ` set (t_discussions db')
         \<union> pr_doc ` set (t_participants db')
    \<and> (\<forall>j. j \<noteq> i \<longrightarrow> pg_Get (quiet_env coll now) db' j = pg_Get (quiet_env coll now) db j)"
proof -
  have db': "db' = delete_stmt i db" and err: "err = (if i \<in> doc_ids db then None else Some (not_found i))"
    using assms(2,3) by (auto simp: pg_Delete_def ids_iff split: if_splits)
  have wf: "db_wf db" using assms(1) by (rule run_db_wf)
  have gone: "find (\<lambda>r. dr_id r = i) (t_documents db') = None" and none: "i \<notin> doc_ids db'"
    by (auto simp: db' delete_stmt_def find_None_iff doc_ids_def)
  have ne: "\<not> (\<exists>r \<in> set (t_documents db'). dr_id r = i)" using none by (simp add: ids_iff)
  have same: "db' = db" if "i \<notin> doc_ids db"
  proof -
    have "filter (\<lambda>r. dr_id r \<noteq> i) (t_documents db) = t_documents db"
      "filter (\<lambda>r. ar_doc r \<noteq> i) (t_authors db) = t_authors db"
      "filter (\<lambda>r. lr_source r \<noteq> i) (t_links db) = t_links db"
      "filter (\<lambda>r. di_doc r \<noteq> i) (t_discussions db) = t_discussions db"
      "filter (\<lambda>r. pr_doc r \<noteq> i) (t_participants db) = t_participants db"
      using wf that by (auto simp: filter_id_conv db_wf_def doc_ids_def)
    then show ?thesis by (simp add: db' delete_stmt_def)
  qed
  have keepD: "find (\<lambda>r. di_doc r = j) (filter (\<lambda>r. di_doc r \<noteq> i) rs) = find (\<lambda>r. di_doc r = j) rs" if "j \<noteq> i" for j rs
    using that by (induction rs) auto
  have keepR: "find (\<lambda>r. dr_id r = j) (filter (\<lambda>r. dr_id r \<noteq> i) rs) = find (\<lambda>r. dr_id r = j) rs" if "j \<noteq> i" for j rs
    using that by (induction rs) auto
  have other: "pg_Get (quiet_env coll now) db' j = pg_Get (quiet_env coll now) db j" if "j \<noteq> i" for j
  proof -
    have "filter (\<lambda>r. ar_doc r = j) (filter (\<lambda>r. ar_doc r \<noteq> i) rs) = filter (\<lambda>r. ar_doc r = j) rs" for rs
      using that by (induction rs) auto
    then have "filter (\<lambda>r. ar_doc r = j) (t_authors db') = filter (\<lambda>r. ar_doc r = j) (t_authors db)"
      unfolding db' delete_stmt_def by (simp del: filter_filter)
    moreover have "find (\<lambda>r. dr_id r = j) (t_documents db') = find (\<lambda>r. dr_id r = j) (t_documents db)"
      "find (\<lambda>r. di_doc r = j) (t_discussions db') = find (\<lambda>r. di_doc r = j) (t_discussions db)"
      using that by (simp_all add: db' delete_stmt_def keepD keepR)
    ultimately show ?thesis by (simp only: quiet_Get)
  qed
  have "pg_Get (quiet_env coll now) db' i = Inl (not_found i)" by (simp add: quiet_Get gone)
  moreover have "pg_Links (quiet_env coll now) db' i = Inl (not_found i)"
    "pg_Discussion (quiet_env coll now) db' i = Inl (not_found i)"
    using ne by (simp_all add: pg_Links_def pg_Discussion_def ensureExists_def)
  moreover have "i \<notin> ar_doc ` set (t_authors db') \<union> lr_source ` set (t_links db') \<union> di_doc ` set (t_discussions db')
         \<union> pr_doc ` set (t_participants db')"
    by (auto simp: db' delete_stmt_def)
  ultimately show ?thesis
    using err same other unfolding doc_ids_def [symmetric] by (simp split: if_splits)
qed

theorem delete_cascades_witness:
  "\<exists>db'. pg_Delete (quiet_env (<) 0) ''RFC-0001'' linked_db = (db', None)
    \<and> pg_Get (quiet_env (<) 0) db' ''RFC-0001'' = Inl (not_found ''RFC-0001'')"
proof -
  obtain db' err where d: "pg_Delete (quiet_env (<) 0) ''RFC-0001'' linked_db = (db', err)" by fastforce
  obtain d where "pg_Get (quiet_env (<) 0) linked_db (d_id linked_doc) = Inr d"
    using upsert_then_get_doc [OF upsert_linked] by blast
  then obtain r where "find (\<lambda>r. dr_id r = d_id linked_doc) (t_documents linked_db) = Some r"
    by (auto simp: quiet_Get split: option.splits)
  moreover have "d_id linked_doc = ''RFC-0001''" by (simp add: linked_doc_def sample_doc_def)
  ultimately have "dr_id r = ''RFC-0001'' \<and> r \<in> set (t_documents linked_db)"
    using find_holds [of "\<lambda>r. dr_id r = d_id linked_doc" "t_documents linked_db" r] by simp
  then have "''RFC-0001'' \<in> dr_id ` set (t_documents linked_db)" by (auto intro: rev_image_eqI)
  with delete_cascades [OF run_linked _ d, of "(<)" 0] d show ?thesis by auto
qed

text \<open>The authors sub-resource does not check that the document exists. For an id that is not in
  the database \<open>Authors\<close> answers an empty list, where \<open>Get\<close>, \<open>Links\<close>, \<open>Discussion\<close> and
  \<open>Revisions\<close> of the same store, and \<open>Authors\<close> of the memory store, answer not found.\<close>

theorem authors_of_missing_document:
  assumes "run pg_step empty_db ls db" and "i \<notin> dr_id ` set (t_documents db)"
  shows "pg_Authors (quiet_env coll now) db i = Inr []
    \<and> pg_Get (quiet_env coll now) db i = Inl (not_found i)
    \<and> pg_Links (quiet_env coll now) db i = Inl (not_found i)
    \<and> pg_Discussion (quiet_env coll now) db i = Inl (not_found i)
    \<and> pg_Revisions (quiet_env coll now) db i = Inl (not_found i)
    \<and> mem_Authors mem_New i = Inl (not_found i)"
proof -
  have wf: "db_wf db" using assms(1) by (rule run_db_wf)
  have ne: "\<not> (\<exists>r \<in> set (t_documents db). dr_id r = i)" using assms(2) by auto
  then have "find (\<lambda>r. dr_id r = i) (t_documents db) = None" by (auto simp: find_None_iff)
  moreover have "filter (\<lambda>r. ar_doc r = i) (t_authors db) = []"
    using wf assms(2) by (auto simp: filter_empty_conv db_wf_def doc_ids_def)
  ultimately show ?thesis
    using ne by (simp add: quiet_Get pg_Authors_def pg_Links_def pg_Discussion_def pg_Revisions_def
        ensureExists_def sort_slice_def mem_Authors_def mem_New_def)
qed

theorem authors_of_missing_document_witness:
  "pg_Authors (quiet_env (<) 0) empty_db ''RFC-0009'' = Inr []"
  using authors_of_missing_document [OF run_nil, of "''RFC-0009''" "(<)" 0] by (simp add: empty_db_def)

end
