(* ===== verification/Ingest.thy ===== *)
theory Ingest
  imports Parser Webhook PostgresWrites
begin

text \<open>
  The \<^verbatim>\<open>ingest\<close>, \<^verbatim>\<open>reindex\<close> and \<^verbatim>\<open>search_delete\<close> job handlers, \<^verbatim>\<open>internal/worker/ingest\<close> and
  \<^verbatim>\<open>internal/worker/reindex\<close>, over the interfaces they name: a store, a GitHub fetcher, an
  enqueuer, a parser registry, an indexer. A handler returns the new states and its error; \<open>je\<close> is
  the error of \<^verbatim>\<open>json.Unmarshal\<close> on a payload it cannot decode. Logging is left out.
\<close>

section \<open>Ingest\<close>

record IngestPayload =
  ip_TypeID :: string
  ip_Repo :: string
  ip_Path :: string
  ip_Parser :: string
  ip_Branch :: string
  ip_ContentSHA :: string

definition unmarshal_ingest :: "json \<Rightarrow> IngestPayload option" where
  "unmarshal_ingest j =
     Option.bind (obj_members j) (\<lambda>ms.
       case (str_field ''type_id'' ms, str_field ''repo'' ms, str_field ''path'' ms, str_field ''parser'' ms,
             str_field ''branch'' ms, str_field ''content_sha'' ms) of
         (Some t, Some r, Some p, Some pa, Some b, Some c) \<Rightarrow>
           Some \<lparr>ip_TypeID = t, ip_Repo = r, ip_Path = p, ip_Parser = pa, ip_Branch = b, ip_ContentSHA = c\<rparr>
       | _ \<Rightarrow> None)"

definition ingest_validate :: "IngestPayload \<Rightarrow> goerr option" where
  "ingest_validate p =
     (if ip_TypeID p = [] then Some (Errorf [Wrap (Sentinel ErrInvalidInput), Lit '': type_id required''])
      else if ip_Repo p = [] then Some (Errorf [Wrap (Sentinel ErrInvalidInput), Lit '': repo required''])
      else if ip_Path p = [] then Some (Errorf [Wrap (Sentinel ErrInvalidInput), Lit '': path required''])
      else if ip_Parser p = [] then Some (Errorf [Wrap (Sentinel ErrInvalidInput), Lit '': parser required''])
      else None)"

text \<open>The interface \<^verbatim>\<open>Fetcher\<close>: file content and blob sha, and the time of the last commit.\<close>

record file_fetcher =
  ff_GetFile :: "string \<Rightarrow> string \<Rightarrow> string \<Rightarrow> (string \<times> string) result"
  ff_CommitTime :: "string \<Rightarrow> string \<Rightarrow> string \<Rightarrow> time result"

type_synonym 'd upsert_fn = "Document \<Rightarrow> 'd \<Rightarrow> 'd \<times> goerr option"

definition reindex_payload :: "DocumentID \<Rightarrow> json" where
  "reindex_payload i = JObj [(''document_id'', JStr i)]"

definition discussion_payload :: "DocumentID \<Rightarrow> string \<Rightarrow> string \<Rightarrow> json" where
  "discussion_payload i path repo = JObj [(''document_id'', JStr i), (''path'', JStr path), (''repo'', JStr repo)]"

text \<open>The two jobs a stored document gives rise to.\<close>

definition ingest_enqueue :: "'q enqueue_fn \<Rightarrow> IngestPayload \<Rightarrow> Document \<Rightarrow> 'q \<Rightarrow> 'q \<times> goerr option" where
  "ingest_enqueue enq p doc q =
     (case enq ''reindex'' (''doc:'' @ d_id doc) (reindex_payload (d_id doc)) 0 q of
        (q', Some e) \<Rightarrow> (q', Some (Errorf [Lit ''enqueue reindex: '', Wrap e]))
      | (q', None) \<Rightarrow>
          (fst (enq ''discussion_fetch'' (''discussion:'' @ d_id doc)
             (discussion_payload (d_id doc) (ip_Path p) (ip_Repo p)) 0 q'), None))"

definition ingest_ref :: "IngestPayload \<Rightarrow> string" where
  "ingest_ref p = (if ip_Branch p = [] then ''main'' else ip_Branch p)"

text \<open>The document a payload is turned into, \<open>None\<close> when the content has moved on.\<close>

definition ingest_parse :: "file_fetcher \<Rightarrow> ParserRegistry \<Rightarrow> Registry \<Rightarrow> IngestPayload \<Rightarrow> Document option result" where
  "ingest_parse F parsers types p =
     (case ingest_validate p of Some e \<Rightarrow> Inl e
      | None \<Rightarrow>
         (case RegGet types (ip_TypeID p) of
            None \<Rightarrow> Inl (Errorf [Wrap (Sentinel ErrInvalidInput), Lit '': unknown type '', Quo (ip_TypeID p)])
          | Some dt \<Rightarrow>
             bindR (ParserGet parsers (ip_Parser p)) (\<lambda>parse.
             (case ff_GetFile F (ip_Repo p) (ip_Path p) (ingest_ref p) of
                Inl e \<Rightarrow> Inl (Errorf [Lit ''fetch: '', Wrap e])
              | Inr (raw, sha) \<Rightarrow>
                  if ip_ContentSHA p \<noteq> [] \<and> ip_ContentSHA p \<noteq> sha then Inr None
                  else
                    let commitTime = (case ff_CommitTime F (ip_Repo p) (ip_Path p) (ingest_ref p) of Inl e \<Rightarrow> 0 | Inr t \<Rightarrow> t)
                    in (case parse raw dt \<lparr>so_repo = ip_Repo p, so_path = ip_Path p, so_commit = sha,
                          so_commit_time = commitTime\<rparr> of
                          Inl e \<Rightarrow> Inl (Errorf [Lit ''parse: '', Wrap e])
                        | Inr doc \<Rightarrow> Inr (Some doc))))))"

definition ingest_Handle :: "goerr \<Rightarrow> file_fetcher \<Rightarrow> ParserRegistry \<Rightarrow> Registry \<Rightarrow> 'd upsert_fn \<Rightarrow> 'q enqueue_fn \<Rightarrow> Job
    \<Rightarrow> 'd \<times> 'q \<Rightarrow> ('d \<times> 'q) \<times> goerr option" where
  "ingest_Handle je F parsers types upsert enq job st =
     (case st of (d, q) \<Rightarrow>
       (case unmarshal_ingest (job_payload job) of
          None \<Rightarrow> ((d, q), Some (Errorf [Lit ''unmarshal payload: '', Wrap je]))
        | Some p \<Rightarrow>
           (case ingest_parse F parsers types p of
              Inl e \<Rightarrow> ((d, q), Some e)
            | Inr None \<Rightarrow> ((d, q), None)
            | Inr (Some doc) \<Rightarrow>
               (case upsert doc d of
                  (d', Some e) \<Rightarrow> ((d', q), Some (Errorf [Lit ''upsert: '', Wrap e]))
                | (d', None) \<Rightarrow>
                    (case ingest_enqueue enq p doc q of (q', err) \<Rightarrow> ((d', q'), err))))))"

section \<open>Reindex\<close>

definition unmarshal_reindex :: "json \<Rightarrow> string option" where
  "unmarshal_reindex j = Option.bind (obj_members j) (str_field ''document_id'')"

definition Reindex :: "goerr \<Rightarrow> (DocumentID \<Rightarrow> Document result) \<Rightarrow> (Document \<Rightarrow> 'i \<Rightarrow> 'i \<times> goerr option) \<Rightarrow> Job \<Rightarrow> 'i
    \<Rightarrow> 'i \<times> goerr option" where
  "Reindex je get upsert job ix =
     (case unmarshal_reindex (job_payload job) of
        None \<Rightarrow> (ix, Some (Errorf [Lit ''reindex: unmarshal payload: '', Wrap je]))
      | Some i \<Rightarrow>
          if i = [] then (ix, Some (Errorf [Wrap (Sentinel ErrInvalidInput), Lit '': reindex: document_id required'']))
          else (case get i of
                  Inl e \<Rightarrow> if error_is e ErrNotFound then (ix, None)
                           else (ix, Some (Errorf [Lit ''reindex: get '', Lit i, Lit '': '', Wrap e]))
                | Inr doc \<Rightarrow>
                    (case upsert doc ix of
                       (ix', Some e) \<Rightarrow> (ix', Some (Errorf [Lit ''reindex: upsert '', Lit i, Lit '': '', Wrap e]))
                     | (ix', None) \<Rightarrow> (ix', None))))"

definition SearchDelete :: "goerr \<Rightarrow> (DocumentID \<Rightarrow> 'i \<Rightarrow> 'i \<times> goerr option) \<Rightarrow> Job \<Rightarrow> 'i \<Rightarrow> 'i \<times> goerr option" where
  "SearchDelete je del job ix =
     (case unmarshal_reindex (job_payload job) of
        None \<Rightarrow> (ix, Some (Errorf [Lit ''search_delete: unmarshal payload: '', Wrap je]))
      | Some i \<Rightarrow>
          if i = [] then (ix, Some (Errorf [Wrap (Sentinel ErrInvalidInput), Lit '': search_delete: document_id required'']))
          else (case del i ix of
                  (ix', Some e) \<Rightarrow> (ix', Some (Errorf [Lit ''search_delete: delete '', Lit i, Lit '': '', Wrap e]))
                | (ix', None) \<Rightarrow> (ix', None)))"

section \<open>What an ingest job does\<close>

lemma Upsert_error_unchanged:
  "pg_Upsert env (Some doc) db = (db', Some e) \<Longrightarrow> (\<And>e. pg_commit env \<noteq> Lost e) \<Longrightarrow> db' = db"
  by (cases "pg_commit env") (auto simp: pg_Upsert_def commit_tx_def split: if_splits sum.splits)

lemma Upsert_stored:
  assumes "pg_Upsert env (Some doc) db = (db', None)"
  shows "\<exists>d. pg_Get (quiet_env coll now) db' (d_id doc) = Inr d \<and> d_title d = d_title doc \<and> d_status d = d_status doc
    \<and> d_body d = d_body doc \<and> so_commit (d_source d) = so_commit (d_source doc)"
  using Upsert_read [OF assms, of coll now] by blast

lemma ingest_enqueue_reindex:
  assumes "ingest_enqueue (jobs_enq E) p doc q = (q', None)"
  shows "has_job q' ''reindex'' (''doc:'' @ d_id doc)"
proof -
  obtain q1 where q1: "jobs_enq E ''reindex'' (''doc:'' @ d_id doc) (reindex_payload (d_id doc)) 0 q = (q1, None)"
    using assms by (auto simp: ingest_enqueue_def split: prod.splits option.splits)
  then have h: "has_job q1 ''reindex'' (''doc:'' @ d_id doc)" by (rule jq.enq_has)
  obtain q2 e where q2: "jobs_enq E ''discussion_fetch'' (''discussion:'' @ d_id doc)
      (discussion_payload (d_id doc) (ip_Path p) (ip_Repo p)) 0 q1 = (q2, e)"
    by (rule prod.exhaust)
  then have "q' = q2" using assms q1 by (simp add: ingest_enqueue_def)
  then show ?thesis using jq.enq_keeps [OF q2 h] by simp
qed

text \<open>C21: An ingest job either leaves database and queue as they were, or stores the document parsed
  from the fetched file in one transaction. When it then reports success, a reindex job for the document
  is in the queue, and a read of the document's id returns the parsed title, status and body with the
  commit of the fetched content; a database error before the commit leaves no trace.\<close>

theorem ingest_outcome:
  assumes "ingest_Handle je F parsers types (\<lambda>doc. pg_Upsert env (Some doc)) (jobs_enq E) job (db, q) = ((db', q'), err)"
    and "\<And>e. pg_commit env \<noteq> Lost e"
  shows "(db', q') = (db, q)
    \<or> (\<exists>p doc. unmarshal_ingest (job_payload job) = Some p \<and> ingest_parse F parsers types p = Inr (Some doc)
         \<and> pg_Upsert env (Some doc) db = (db', None)
         \<and> (if err = None then has_job q' ''reindex'' (''doc:'' @ d_id doc) else True)
         \<and> (\<exists>d. pg_Get (quiet_env coll now) db' (d_id doc) = Inr d \<and> d_title d = d_title doc \<and> d_status d = d_status doc
              \<and> d_body d = d_body doc \<and> so_commit (d_source d) = so_commit (d_source doc)))"
proof -
  consider "(db', q') = (db, q)"
    | p doc where "unmarshal_ingest (job_payload job) = Some p" "ingest_parse F parsers types p = Inr (Some doc)"
        "pg_Upsert env (Some doc) db = (db', None)" "ingest_enqueue (jobs_enq E) p doc q = (q', err)"
    using assms(1) Upsert_error_unchanged [OF _ assms(2)]
    by (auto simp: ingest_Handle_def split: option.splits sum.splits prod.splits)
  then show ?thesis
  proof cases
    case 2
    then show ?thesis using ingest_enqueue_reindex [of E p doc q q'] Upsert_stored [OF 2(3), of coll now] by auto
  qed simp
qed

section \<open>Jobs of the webhook\<close>

lemma ingest_fields: "\<not> field_match ''type_id'' ''branch''" "\<not> field_match ''type_id'' ''content_sha''"
  "\<not> field_match ''content_sha'' ''parser''" "\<not> field_match ''content_sha'' ''path''" "\<not> field_match ''content_sha'' ''repo''"
  "\<not> field_match ''content_sha'' ''type_id''" "\<not> field_match ''content_sha'' ''branch''"
  by code_simp+

lemma push_payload_sha:
  "push_job U h p (path, sha) = Some (kind, key, body, t) \<Longrightarrow> unmarshal_ingest body = Some ip \<Longrightarrow> ip_ContentSHA ip = sha"
  by (auto simp: push_job_def unmarshal_ingest_def ingest_fields split: option.splits)

text \<open>C22: An ingest job enqueued by the webhook stores nothing: its payload carries the head commit of
  the push as the content hash, the handler compares it with the blob hash of the file it fetches, and
  as these are hashes of different objects it takes the content to have moved on and drops the job.\<close>

theorem webhook_job_stores_nothing:
  assumes "push_job U h p (path, sha) = Some (kind, key, body, t)" and "job_payload job = body" and "sha \<noteq> []"
    and "\<And>repo file ref raw blob. ff_GetFile F repo file ref = Inr (raw, blob) \<Longrightarrow> blob \<noteq> sha"
  shows "fst (ingest_Handle je F parsers types upsert enq job st) = st"
proof -
  obtain d q where st: "st = (d, q)" by (cases st)
  have "ingest_parse F parsers types ip \<noteq> Inr (Some doc)" if "unmarshal_ingest body = Some ip" for ip doc
    using push_payload_sha [OF assms(1) that] assms(3) assms(4) [of "ip_Repo ip" "ip_Path ip" "ingest_ref ip"]
    by (auto simp: ingest_parse_def bindR_Inr Let_def split: option.splits sum.splits if_splits)
  then show ?thesis
    by (auto simp: ingest_Handle_def st assms(2) split: option.split sum.split)
qed

text \<open>A file system with one file, a parser that keeps its title, and a database that answers.\<close>

definition one_file :: "string \<Rightarrow> file_fetcher" where
  "one_file sha = \<lparr>ff_GetFile = (\<lambda>repo path ref. Inr (''hello'', sha)), ff_CommitTime = (\<lambda>repo path ref. Inr 5000)\<rparr>"

definition plain_parser :: parser where
  "plain_parser raw t src = Inr ((sample_doc ''RFC-0001'' (dt_id t) (so_commit_time src))\<lparr>d_title := raw, d_source := src\<rparr>)"

definition ingest_job :: "string \<Rightarrow> Job" where
  "ingest_job sha = \<lparr>job_id = 0, job_kind = ''ingest'', job_dedup = ''content:'' @ sha, job_payload =
     JObj [(''branch'', JStr ''main''), (''content_sha'', JStr sha), (''parser'', JStr ''plain''), (''path'', JStr ''d/1.md''),
       (''repo'', JStr ''o/r''), (''type_id'', JStr ''rfc'')], job_attempts = 1\<rparr>"

theorem ingest_outcome_witness:
  "\<exists>d. pg_Get (quiet_env (<) 0) (fst (fst (ingest_Handle (New []) (one_file ''abc'') [(''plain'', plain_parser)]
        (registry_of ascii_only default_types) (\<lambda>doc. pg_Upsert (quiet_env (<) 0) (Some doc)) (jobs_enq all_acked)
        (ingest_job ''abc'') (empty_db, ([], 0))))) ''RFC-0001'' = Inr d \<and> d_title d = ''hello''"
proof -
  let ?h = "ingest_Handle (New []) (one_file ''abc'') [(''plain'', plain_parser)]
        (registry_of ascii_only default_types) (\<lambda>doc. pg_Upsert (quiet_env (<) 0) (Some doc)) (jobs_enq all_acked)
        (ingest_job ''abc'') (empty_db, ([], 0))"
  obtain db' q' err where h: "?h = ((db', q'), err)" by (metis surj_pair)
  have c: "pg_commit (quiet_env (<) 0) \<noteq> Lost e" for e by (simp add: quiet_env_def)
  have p: "unmarshal_ingest (job_payload (ingest_job ''abc'')) = Some p \<Longrightarrow>
      ingest_parse (one_file ''abc'') [(''plain'', plain_parser)] (registry_of ascii_only default_types) p = Inr (Some doc) \<Longrightarrow>
      d_id doc = ''RFC-0001'' \<and> d_title doc = ''hello''" for p doc
    by (auto simp: ingest_parse_def bindR_Inr ParserGet_def plain_parser_def one_file_def sample_doc_def Let_def
        split: option.splits if_splits)
  have "fst (snd (fst ?h)) \<noteq> []" by code_simp
  then have "(db', q') \<noteq> (empty_db, ([], 0))" using h by auto
  then show ?thesis
    using ingest_outcome [OF h c, of "(<)" 0] p unfolding h fst_conv by (metis fst_conv)
qed

theorem webhook_job_stores_nothing_witness:
  "push_job ascii_only \<lparr>wb_sources = [sample_source\<lparr>sr_parser := ''plain''\<rparr>], wb_queue = True\<rparr> sample_payload (''d/1.md'', ''abc'')
      = Some (''ingest'', ''content:abc'', job_payload (ingest_job ''abc''), 0)
   \<and> fst (ingest_Handle (New []) (one_file ''blob'') [(''plain'', plain_parser)]
        (registry_of ascii_only default_types) (\<lambda>doc. pg_Upsert (quiet_env (<) 0) (Some doc)) (jobs_enq all_acked)
        (ingest_job ''abc'') (empty_db, ([], 0))) = (empty_db, ([], 0))"
proof
  show j: "push_job ascii_only \<lparr>wb_sources = [sample_source\<lparr>sr_parser := ''plain''\<rparr>], wb_queue = True\<rparr> sample_payload (''d/1.md'', ''abc'')
      = Some (''ingest'', ''content:abc'', job_payload (ingest_job ''abc''), 0)"
    by code_simp
  show "fst (ingest_Handle (New []) (one_file ''blob'') [(''plain'', plain_parser)]
        (registry_of ascii_only default_types) (\<lambda>doc. pg_Upsert (quiet_env (<) 0) (Some doc)) (jobs_enq all_acked)
        (ingest_job ''abc'') (empty_db, ([], 0))) = (empty_db, ([], 0))"
    by (rule webhook_job_stores_nothing [OF j refl]) (simp_all add: one_file_def)
qed

end
