(* ===== verification/Github.thy ===== *)
theory Github
  imports Domain Queue
begin

text \<open>
  The worker's GitHub access layer, \<^verbatim>\<open>internal/worker/githubsource/client.go\<close>: credentials, the
  retry loop on rate limits, and the methods the scanner, the ingest handler and the discussion
  handler call. The \<^verbatim>\<open>go-github\<close> and \<^verbatim>\<open>ghinstallation\<close> libraries are parameters: the calls of a
  process are numbered, and the record \<open>gh_api\<close> says what each call answers. A record of the
  library holds the values its nil-safe getters return.
\<close>

section \<open>Types\<close>

record File =
  fi_Path :: string
  fi_SHA :: string
  fi_Size :: int

record PullRequest =
  pl_Number :: int
  pl_State :: string
  pl_Merged :: bool
  pl_Title :: string
  pl_URL :: string

record Participant =
  pa_Handle :: string
  pa_Name :: string
  pa_Email :: string

record PRComment =
  pc_Author :: Participant
  pc_UpdatedAt :: time

text \<open>Errors of the library: a primary rate limit with its reset time, a secondary (abuse) limit
  with its optional \<^verbatim>\<open>Retry-After\<close>, and any other.\<close>

datatype gh_error = RateLimitError time goerr | AbuseRateLimitError "duration option" goerr | OtherError goerr

fun gh_err :: "gh_error \<Rightarrow> goerr" where
  "gh_err (RateLimitError t e) = e"
| "gh_err (AbuseRateLimitError d e) = e"
| "gh_err (OtherError e) = e"

record gh_content =
  rc_type :: string
  rc_name :: string
  rc_path :: string
  rc_sha :: string
  rc_size :: int
  rc_content :: "string result"

record gh_commit =
  cm_sha :: string
  cm_author_date :: "time option"

record gh_pull =
  gp_number :: int
  gp_state :: string
  gp_merged :: bool
  gp_title :: string
  gp_url :: string

record gh_user =
  us_login :: string
  us_name :: string
  us_email :: string

record gh_comment =
  gc_user :: "gh_user option"
  gc_updated :: time

text \<open>
  What the library answers to call number \<open>n\<close>; \<open>gh_clock\<close> and \<open>gh_done\<close> are the time after the
  call and whether the context is cancelled during the wait that follows it.
\<close>

record gh_api =
  GetContents :: "nat \<Rightarrow> string \<Rightarrow> string \<Rightarrow> string \<Rightarrow> string \<Rightarrow> gh_error + (gh_content option \<times> gh_content list)"
  ListCommits :: "nat \<Rightarrow> string \<Rightarrow> string \<Rightarrow> string \<Rightarrow> string \<Rightarrow> nat \<Rightarrow> gh_error + gh_commit list"
  PullsWithCommit :: "nat \<Rightarrow> string \<Rightarrow> string \<Rightarrow> string \<Rightarrow> gh_error + gh_pull option list"
  IssueComments :: "nat \<Rightarrow> string \<Rightarrow> string \<Rightarrow> int \<Rightarrow> gh_error + gh_comment list"
  ReviewComments :: "nat \<Rightarrow> string \<Rightarrow> string \<Rightarrow> int \<Rightarrow> gh_error + gh_comment list"
  PullFiles :: "nat \<Rightarrow> string \<Rightarrow> string \<Rightarrow> int \<Rightarrow> gh_error + string list"
  gh_clock :: "nat \<Rightarrow> time"
  gh_done :: "nat \<Rightarrow> goerr option"

section \<open>Credentials\<close>

datatype transport = DefaultTransport | CustomTransport nat | AppTransport transport int int string
  | BearerTransport string transport

record http_client =
  hc_timeout :: duration
  hc_transport :: "transport option"

record GithubConfig =
  gc_AppID :: string
  gc_InstallationID :: string
  gc_PrivateKey :: string
  gc_Token :: string
  gc_BaseURL :: string
  gc_HTTPClient :: "http_client option"
  gc_MaxRetries :: int
  gc_MaxBackoff :: duration

record 'a GithubClient =
  cl_api :: 'a
  cl_maxRetries :: int
  cl_maxBackoff :: duration

definition patClient :: "string \<Rightarrow> http_client \<Rightarrow> http_client" where
  "patClient token base =
     (let tr = (case hc_transport base of None \<Rightarrow> DefaultTransport | Some t \<Rightarrow> t)
      in \<lparr>hc_timeout = hc_timeout base, hc_transport = Some (BearerTransport token tr)\<rparr>)"

text \<open>\<open>pe\<close> is the error text of \<^verbatim>\<open>strconv.ParseInt\<close>, \<open>ghi\<close> is \<^verbatim>\<open>ghinstallation.New\<close>.\<close>

definition authedClient :: "(string \<Rightarrow> goerr) \<Rightarrow> (transport option \<Rightarrow> int \<Rightarrow> int \<Rightarrow> string \<Rightarrow> transport result)
    \<Rightarrow> GithubConfig \<Rightarrow> http_client result" where
  "authedClient pe ghi cfg =
     (let hasApp = (gc_AppID cfg \<noteq> [] \<and> gc_InstallationID cfg \<noteq> [] \<and> 0 < length (gc_PrivateKey cfg));
          hasPAT = (gc_Token cfg \<noteq> [])
      in if hasApp = hasPAT then Inl (New ''githubsource: exactly one of {App creds, Token} is required'')
         else let base = (case gc_HTTPClient cfg of None \<Rightarrow> \<lparr>hc_timeout = 30 * second, hc_transport = None\<rparr> | Some b \<Rightarrow> b)
         in if hasApp then
              (case Atoi (gc_AppID cfg) of
                 None \<Rightarrow> Inl (Errorf [Lit ''parse AppID: '', Wrap (pe (gc_AppID cfg))])
               | Some appID \<Rightarrow>
                  (case Atoi (gc_InstallationID cfg) of
                     None \<Rightarrow> Inl (Errorf [Lit ''parse InstallationID: '', Wrap (pe (gc_InstallationID cfg))])
                   | Some instID \<Rightarrow>
                      (case ghi (hc_transport base) appID instID (gc_PrivateKey cfg) of
                         Inl e \<Rightarrow> Inl (Errorf [Lit ''ghinstallation: '', Wrap e])
                       | Inr tr \<Rightarrow> Inr \<lparr>hc_timeout = hc_timeout base, hc_transport = Some tr\<rparr>)))
            else Inr (patClient (gc_Token cfg) base))"

text \<open>\<open>mk\<close> is \<^verbatim>\<open>github.NewClient\<close>, \<open>ent\<close> is \<^verbatim>\<open>WithEnterpriseURLs\<close>.\<close>

definition githubAPI :: "(http_client \<Rightarrow> 'a) \<Rightarrow> ('a \<Rightarrow> string \<Rightarrow> string \<Rightarrow> 'a result) \<Rightarrow> http_client \<Rightarrow> string \<Rightarrow> 'a result" where
  "githubAPI mk ent httpClient baseURL =
     (if baseURL = [] then Inr (mk httpClient)
      else let u = (if HasSuffix baseURL ''/'' then baseURL else baseURL @ ''/'')
           in (case ent (mk httpClient) u u of
                 Inl e \<Rightarrow> Inl (Errorf [Lit ''set enterprise urls: '', Wrap e])
               | Inr p \<Rightarrow> Inr p))"

definition NewGithub :: "(string \<Rightarrow> goerr) \<Rightarrow> (transport option \<Rightarrow> int \<Rightarrow> int \<Rightarrow> string \<Rightarrow> transport result) \<Rightarrow> (http_client \<Rightarrow> 'a)
    \<Rightarrow> ('a \<Rightarrow> string \<Rightarrow> string \<Rightarrow> 'a result) \<Rightarrow> GithubConfig option \<Rightarrow> 'a GithubClient result" where
  "NewGithub pe ghi mk ent cfgPtr =
     (case cfgPtr of
        None \<Rightarrow> Inl (New ''githubsource: nil config'')
      | Some cfg \<Rightarrow>
          (case authedClient pe ghi cfg of Inl e \<Rightarrow> Inl e
           | Inr httpClient \<Rightarrow>
              (case githubAPI mk ent httpClient (gc_BaseURL cfg) of Inl e \<Rightarrow> Inl e
               | Inr api \<Rightarrow> Inr \<lparr>cl_api = api,
                   cl_maxRetries = (if gc_MaxRetries cfg \<le> 0 then 3 else gc_MaxRetries cfg),
                   cl_maxBackoff = (if gc_MaxBackoff cfg \<le> 0 then 30 * second else gc_MaxBackoff cfg)\<rparr>)))"

text \<open>The headers a bearer transport sends on: \<^verbatim>\<open>Header.Set\<close> replaces the values of its key.\<close>

definition bearer_RoundTrip :: "string \<Rightarrow> (string \<times> string) list \<Rightarrow> (string \<times> string) list" where
  "bearer_RoundTrip token hdrs =
     filter (\<lambda>h. fst h \<noteq> ''Authorization'') hdrs @ [(''Authorization'', ''Bearer '' @ token)]"

definition splitRepo :: "string \<Rightarrow> (string \<times> string) result" where
  "splitRepo s =
     (case Cut s ''/'' of
        None \<Rightarrow> Inl (Errorf [Lit ''repo '', Quo s, Lit '': want owner/name''])
      | Some (owner, name) \<Rightarrow>
          if owner = [] \<or> name = [] then Inl (Errorf [Lit ''repo '', Quo s, Lit '': want owner/name''])
          else Inr (owner, name))"

section \<open>Retry on rate limits\<close>

definition rateLimitWait :: "time \<Rightarrow> gh_error \<Rightarrow> duration \<Rightarrow> duration" where
  "rateLimitWait now err maxWait =
     (case err of
        RateLimitError reset _ \<Rightarrow>
          let wait = reset - now; wait = (if wait \<le> 0 then second else wait)
          in if wait > maxWait then maxWait else wait
      | AbuseRateLimitError ra _ \<Rightarrow>
          (case ra of Some wait \<Rightarrow> if wait > maxWait then maxWait else wait | None \<Rightarrow> 5 * second)
      | OtherError _ \<Rightarrow> 0)"

text \<open>
  The loop with \<open>left\<close> iterations to go and the last error so far; it returns the number of the next
  call, the waits it sat out, and its result.
\<close>

fun retry_loop :: "gh_api \<Rightarrow> duration \<Rightarrow> (nat \<Rightarrow> gh_error + 'a) \<Rightarrow> nat \<Rightarrow> goerr option \<Rightarrow> nat
    \<Rightarrow> nat \<times> duration list \<times> 'a result" where
  "retry_loop G maxBackoff fn 0 lastErr n =
     (n, [], Inl (Errorf (Lit ''exhausted retries: '' # (case lastErr of None \<Rightarrow> [Lit ''%!w(<nil>)''] | Some e \<Rightarrow> [Wrap e]))))"
| "retry_loop G maxBackoff fn (Suc left) lastErr n =
     (case fn n of
        Inr v \<Rightarrow> (Suc n, [], Inr v)
      | Inl err \<Rightarrow>
          let wait = rateLimitWait (gh_clock G n) err maxBackoff in
          if wait \<le> 0 then (Suc n, [], Inl (gh_err err))
          else (case gh_done G n of
                  Some e \<Rightarrow> (Suc n, [], Inl e)
                | None \<Rightarrow>
                    (case retry_loop G maxBackoff fn left (Some (gh_err err)) (Suc n) of
                       (m, ws, res) \<Rightarrow> (m, wait # ws, res))))"

definition withRetry :: "gh_api GithubClient \<Rightarrow> (nat \<Rightarrow> gh_error + 'a) \<Rightarrow> nat \<Rightarrow> nat \<times> duration list \<times> 'a result" where
  "withRetry c fn n = retry_loop (cl_api c) (cl_maxBackoff c) fn (nat (cl_maxRetries c + 1)) None n"

section \<open>Methods\<close>

text \<open>A method of the client: from the number of the next call to the next one and the result.\<close>

type_synonym 'a gh = "nat \<Rightarrow> nat \<times> 'a result"

definition gh_bind :: "'a gh \<Rightarrow> ('a \<Rightarrow> 'b gh) \<Rightarrow> 'b gh" where
  "gh_bind m f n = (case m n of (n', Inl e) \<Rightarrow> (n', Inl e) | (n', Inr v) \<Rightarrow> f v n')"

definition gh_return :: "'a result \<Rightarrow> 'a gh" where
  "gh_return r n = (n, r)"

definition gh_call :: "gh_api GithubClient \<Rightarrow> (goerr \<Rightarrow> goerr) \<Rightarrow> (nat \<Rightarrow> gh_error + 'a) \<Rightarrow> 'a gh" where
  "gh_call c wrp fn n =
     (case withRetry c fn n of (n', ws, Inl e) \<Rightarrow> (n', Inl (wrp e)) | (n', ws, Inr v) \<Rightarrow> (n', Inr v))"

definition at_ref :: "string \<Rightarrow> string \<Rightarrow> string \<Rightarrow> string \<Rightarrow> goerr \<Rightarrow> goerr" where
  "at_ref what repo path ref e = Errorf [Lit what, Lit repo, Lit '':'', Lit path, Lit ''@'', Lit ref, Lit '': '', Wrap e]"

definition ListFiles :: "unicode \<Rightarrow> gh_api GithubClient \<Rightarrow> string \<Rightarrow> string \<Rightarrow> string \<Rightarrow> File list gh" where
  "ListFiles U c repo path ref =
     gh_bind (gh_return (splitRepo repo)) (\<lambda>(owner, name).
     gh_bind (gh_call c (at_ref ''list '' repo path ref) (\<lambda>n. GetContents (cl_api c) n owner name path ref)) (\<lambda>(file, entries).
     gh_return (Inr (map (\<lambda>e. \<lparr>fi_Path = rc_path e, fi_SHA = rc_sha e, fi_Size = rc_size e\<rparr>)
       (filter (\<lambda>e. rc_type e = ''file'' \<and> HasSuffix (ToLower U (rc_name e)) ''.md'') entries)))))"

definition GetFile :: "gh_api GithubClient \<Rightarrow> string \<Rightarrow> string \<Rightarrow> string \<Rightarrow> (string \<times> string) gh" where
  "GetFile c repo path ref =
     gh_bind (gh_return (splitRepo repo)) (\<lambda>(owner, name).
     gh_bind (gh_call c (at_ref ''get '' repo path ref) (\<lambda>n. GetContents (cl_api c) n owner name path ref)) (\<lambda>(file, entries).
     gh_return (case file of
        None \<Rightarrow> Inl (Errorf [Lit ''get '', Lit repo, Lit '':'', Lit path, Lit ''@'', Lit ref, Lit '': not a file''])
      | Some fc \<Rightarrow> (case rc_content fc of
           Inl e \<Rightarrow> Inl (at_ref ''decode '' repo path ref e)
         | Inr decoded \<Rightarrow> Inr (decoded, rc_sha fc)))))"

text \<open>The inner loop over the pull requests of one commit, on the numbers seen and the output.\<close>

definition add_pull :: "gh_pull option \<Rightarrow> int list \<times> PullRequest list \<Rightarrow> int list \<times> PullRequest list" where
  "add_pull opr acc =
     (case (opr, acc) of
        (None, _) \<Rightarrow> acc
      | (Some pr, (seen, out)) \<Rightarrow>
          if gp_number pr \<in> set seen then acc
          else (gp_number pr # seen, out @ [\<lparr>pl_Number = gp_number pr, pl_State = gp_state pr, pl_Merged = gp_merged pr,
                  pl_Title = gp_title pr, pl_URL = gp_url pr\<rparr>]))"

fun pulls_loop :: "gh_api GithubClient \<Rightarrow> string \<Rightarrow> string \<Rightarrow> string \<Rightarrow> gh_commit list \<Rightarrow> int list \<times> PullRequest list
    \<Rightarrow> PullRequest list gh" where
  "pulls_loop c repo owner name [] acc = gh_return (Inr (snd acc))"
| "pulls_loop c repo owner name (commit # commits) acc =
     (if cm_sha commit = [] then pulls_loop c repo owner name commits acc
      else gh_bind (gh_call c (\<lambda>e. Errorf [Lit ''prs for '', Lit repo, Lit ''@'', Lit (cm_sha commit), Lit '': '', Wrap e])
             (\<lambda>n. PullsWithCommit (cl_api c) n owner name (cm_sha commit)))
             (\<lambda>prs. pulls_loop c repo owner name commits (fold add_pull prs acc)))"

definition ListPullRequestsForFile :: "gh_api GithubClient \<Rightarrow> string \<Rightarrow> string \<Rightarrow> PullRequest list gh" where
  "ListPullRequestsForFile c repo path =
     gh_bind (gh_return (splitRepo repo)) (\<lambda>(owner, name).
     gh_bind (gh_call c (\<lambda>e. Errorf [Lit ''list commits '', Lit repo, Lit '':'', Lit path, Lit '': '', Wrap e])
         (\<lambda>n. ListCommits (cl_api c) n owner name path [] 20))
       (\<lambda>commits. pulls_loop c repo owner name commits ([], [])))"

definition CommitTimeForFile :: "gh_api GithubClient \<Rightarrow> string \<Rightarrow> string \<Rightarrow> string \<Rightarrow> time gh" where
  "CommitTimeForFile c repo path ref =
     gh_bind (gh_return (splitRepo repo)) (\<lambda>(owner, name).
     gh_bind (gh_call c (at_ref ''commit time '' repo path ref) (\<lambda>n. ListCommits (cl_api c) n owner name path ref 1)) (\<lambda>commits.
     gh_return (Inr (case commits of [] \<Rightarrow> 0 | commit # _ \<Rightarrow> (case cm_author_date commit of None \<Rightarrow> 0 | Some t \<Rightarrow> t)))))"

definition userToParticipant :: "gh_user option \<Rightarrow> Participant" where
  "userToParticipant u =
     (case u of None \<Rightarrow> \<lparr>pa_Handle = [], pa_Name = [], pa_Email = []\<rparr>
      | Some u \<Rightarrow> \<lparr>pa_Handle = us_login u, pa_Name = us_name u, pa_Email = us_email u\<rparr>)"

definition ListPullRequestComments :: "gh_api GithubClient \<Rightarrow> string \<Rightarrow> int \<Rightarrow> PRComment list gh" where
  "ListPullRequestComments c repo prNumber =
     gh_bind (gh_return (splitRepo repo)) (\<lambda>(owner, name).
     gh_bind (gh_call c (\<lambda>e. Errorf [Lit ''issue comments '', Lit repo, Lit ''#'', Dec prNumber, Lit '': '', Wrap e])
         (\<lambda>n. IssueComments (cl_api c) n owner name prNumber)) (\<lambda>issueComments.
     gh_bind (gh_call c (\<lambda>e. Errorf [Lit ''review comments '', Lit repo, Lit ''#'', Dec prNumber, Lit '': '', Wrap e])
         (\<lambda>n. ReviewComments (cl_api c) n owner name prNumber)) (\<lambda>reviewComments.
     gh_return (Inr (map (\<lambda>cm. \<lparr>pc_Author = userToParticipant (gc_user cm), pc_UpdatedAt = gc_updated cm\<rparr>)
       (issueComments @ reviewComments))))))"

definition ListPullRequestFiles :: "gh_api GithubClient \<Rightarrow> string \<Rightarrow> int \<Rightarrow> string list gh" where
  "ListPullRequestFiles c repo prNumber =
     gh_bind (gh_return (splitRepo repo)) (\<lambda>(owner, name).
     gh_call c (\<lambda>e. Errorf [Lit ''pr files '', Lit repo, Lit ''#'', Dec prNumber, Lit '': '', Wrap e])
       (\<lambda>n. PullFiles (cl_api c) n owner name prNumber))"

section \<open>What the retry loop guarantees\<close>

lemma NewGithub_budget:
  "NewGithub pe ghi mk ent cfg = Inr c \<Longrightarrow> 0 < cl_maxRetries c \<and> 0 < cl_maxBackoff c"
  by (auto simp: NewGithub_def second_def split: option.splits sum.splits)

lemma rateLimitWait_bounds:
  "0 < maxWait \<Longrightarrow> rateLimitWait now err maxWait \<le> max maxWait (5 * second)"
  by (auto simp: rateLimitWait_def second_def Let_def split: gh_error.split option.split)

lemma retry_loop_bounds:
  assumes "retry_loop G mb fn left lastErr n = (m, ws, res)" and "0 < mb"
  shows "n \<le> m \<and> m \<le> n + left \<and> (0 < left \<longrightarrow> n < m)
    \<and> (if length ws = m - n then m = n + left \<and> isl res else Suc (length ws) = m - n)
    \<and> list_all (\<lambda>w. 0 < w \<and> w \<le> max mb (5 * second)) ws"
  using assms(1)
proof (induction left arbitrary: lastErr n m ws res)
  case 0
  then show ?case by auto
next
  case (Suc left)
  show ?case
  proof (cases "fn n")
    case (Inr v)
    then show ?thesis using Suc.prems by auto
  next
    case (Inl err)
    show ?thesis
    proof (cases "0 < rateLimitWait (gh_clock G n) err mb \<and> gh_done G n = None")
      case True
      obtain m' ws' res' where r: "retry_loop G mb fn left (Some (gh_err err)) (Suc n) = (m', ws', res')"
        by (cases "retry_loop G mb fn left (Some (gh_err err)) (Suc n)")
      have "m = m'" "ws = rateLimitWait (gh_clock G n) err mb # ws'" "res = res'"
        using Suc.prems Inl True r by (auto simp: Let_def)
      then show ?thesis
        using Suc.IH [OF r] True rateLimitWait_bounds [OF assms(2), of "gh_clock G n" err] by (auto split: if_splits)
    next
      case False
      then show ?thesis using Suc.prems Inl by (auto simp: Let_def split: if_splits option.splits)
    qed
  qed
qed

text \<open>C23: A client built by \<^verbatim>\<open>New\<close> never retries forever: an API operation makes at least one and at most
  \<open>maxRetries + 1\<close> calls, every wait is positive and at most the larger of \<open>maxBackoff\<close> and five
  seconds, and there is one wait between two calls, except that when the retries are exhausted the
  operation also waits after its last call before it fails.\<close>

theorem retry_bounded:
  assumes "NewGithub pe ghi mk ent cfg = Inr c" and "withRetry c fn n = (m, ws, res)"
  shows "n < m \<and> int m \<le> int n + cl_maxRetries c + 1
    \<and> list_all (\<lambda>w. 0 < w \<and> w \<le> max (cl_maxBackoff c) (5 * second)) ws
    \<and> (if length ws = m - n then int m = int n + cl_maxRetries c + 1 \<and> isl res else Suc (length ws) = m - n)"
proof -
  have b: "0 < cl_maxRetries c" "0 < cl_maxBackoff c" using NewGithub_budget [OF assms(1)] by simp_all
  show ?thesis
    using retry_loop_bounds [OF assms(2) [unfolded withRetry_def] b(2)] b(1) by (auto split: if_splits)
qed

text \<open>An error that asks for another try.\<close>

fun retryable :: "gh_error \<Rightarrow> bool" where
  "retryable (RateLimitError reset e) = True"
| "retryable (AbuseRateLimitError ra e) = (case ra of None \<Rightarrow> True | Some d \<Rightarrow> 0 < d)"
| "retryable (OtherError e) = False"

lemma rateLimitWait_pos: "0 < maxWait \<Longrightarrow> 0 < rateLimitWait now err maxWait \<longleftrightarrow> retryable err"
  by (auto simp: rateLimitWait_def second_def Let_def split: gh_error.split option.split)

lemma retry_loop_recovers:
  assumes "0 < mb" and "k < left" and "\<And>i. i < k \<Longrightarrow> \<exists>err. fn (n + i) = Inl err \<and> retryable err"
    and "\<And>i. i < k \<Longrightarrow> gh_done G (n + i) = None" and "fn (n + k) = Inr v"
  shows "\<exists>ws. length ws = k \<and> retry_loop G mb fn left lastErr n = (n + k + 1, ws, Inr v)"
  using assms(2-)
proof (induction k arbitrary: left lastErr n)
  case 0
  then obtain l where "left = Suc l" by (cases left) auto
  then show ?case using 0 by simp
next
  case (Suc k)
  obtain l where l: "left = Suc l" using Suc.prems(1) by (cases left) auto
  obtain err where e: "fn n = Inl err" "retryable err" using Suc.prems(2) [of 0] by auto
  have d: "gh_done G n = None" using Suc.prems(3) [of 0] by simp
  have "\<exists>ws. length ws = k \<and> retry_loop G mb fn l (Some (gh_err err)) (Suc n) = (Suc n + k + 1, ws, Inr v)"
    using Suc.prems(1,4) l Suc.prems(2,3) [of "Suc i" for i] by (intro Suc.IH) auto
  then obtain ws where "length ws = k" "retry_loop G mb fn l (Some (gh_err err)) (Suc n) = (Suc n + k + 1, ws, Inr v)"
    by blast
  then show ?case
    using e d l rateLimitWait_pos [OF assms(1), of "gh_clock G n" err]
    by (intro exI [of _ "rateLimitWait (gh_clock G n) err mb # ws"]) (auto simp: Let_def)
qed

text \<open>C24: An API operation survives rate limiting: when at most \<open>maxRetries\<close> calls in a row are answered
  with a rate limit, the context stays alive and the next call is answered, the operation returns that
  answer, having made exactly these calls.\<close>

theorem retry_recovers:
  assumes "NewGithub pe ghi mk ent cfg = Inr c" and "int k \<le> cl_maxRetries c"
    and "\<And>i. i < k \<Longrightarrow> \<exists>err. fn (n + i) = Inl err \<and> retryable err"
    and "\<And>i. i < k \<Longrightarrow> gh_done (cl_api c) (n + i) = None" and "fn (n + k) = Inr v"
  shows "\<exists>ws. length ws = k \<and> withRetry c fn n = (n + k + 1, ws, Inr v)"
proof -
  have "0 < cl_maxBackoff c" using NewGithub_budget [OF assms(1)] by simp
  moreover have "k < nat (cl_maxRetries c + 1)" using assms(2) by simp
  ultimately show ?thesis using assms(3-) unfolding withRetry_def by (rule retry_loop_recovers)
qed

text \<open>A personal access token and an API that is limited once, then answers.\<close>

definition pat_config :: GithubConfig where
  "pat_config = \<lparr>gc_AppID = [], gc_InstallationID = [], gc_PrivateKey = [], gc_Token = ''t'', gc_BaseURL = [],
     gc_HTTPClient = None, gc_MaxRetries = 0, gc_MaxBackoff = 0\<rparr>"

definition silent_api :: gh_api where
  "silent_api = \<lparr>GetContents = (\<lambda>n o' r p f. Inr (None, [])), ListCommits = (\<lambda>n o' r p f k. Inr []),
     PullsWithCommit = (\<lambda>n o' r s. Inr []), IssueComments = (\<lambda>n o' r k. Inr []), ReviewComments = (\<lambda>n o' r k. Inr []),
     PullFiles = (\<lambda>n o' r k. Inr []), gh_clock = (\<lambda>n. 0), gh_done = (\<lambda>n. None)\<rparr>"

definition pat_client :: "gh_api GithubClient" where
  "pat_client = \<lparr>cl_api = silent_api, cl_maxRetries = 3, cl_maxBackoff = 30 * second\<rparr>"

lemma pat_built: "NewGithub New (\<lambda>t a i k. Inr (AppTransport DefaultTransport a i k)) (\<lambda>h. silent_api) (\<lambda>a u v. Inr a)
    (Some pat_config) = Inr pat_client"
  by (simp add: NewGithub_def pat_config_def authedClient_def githubAPI_def pat_client_def patClient_def Let_def)

definition limited_once :: "nat \<Rightarrow> gh_error + nat" where
  "limited_once n = (if n = 0 then Inl (RateLimitError 7 (New ''limited'')) else Inr n)"

theorem retry_bounded_witness:
  "\<exists>m ws res. withRetry pat_client limited_once 0 = (m, ws, res) \<and> 0 < m \<and> int m \<le> 4"
proof -
  obtain m ws res where w: "withRetry pat_client limited_once 0 = (m, ws, res)"
    by (cases "withRetry pat_client limited_once 0")
  then show ?thesis using retry_bounded [OF pat_built w] by (simp add: pat_client_def)
qed

theorem retry_recovers_witness:
  "\<exists>ws. length ws = 1 \<and> withRetry pat_client limited_once 0 = (2, ws, Inr 1)"
  using retry_recovers [OF pat_built, of 1 limited_once 0 1]
  by (simp add: pat_client_def limited_once_def silent_api_def numeral_2_eq_2)

section \<open>Pull requests of a file\<close>

lemma add_pull_distinct:
  assumes "distinct (map pl_Number (snd acc))" and "set (fst acc) = set (map pl_Number (snd acc))"
  shows "distinct (map pl_Number (snd (add_pull opr acc))) \<and> set (fst (add_pull opr acc)) = set (map pl_Number (snd (add_pull opr acc)))"
  using assms by (auto simp: add_pull_def split: option.split prod.split)

lemma fold_add_pull_distinct:
  "distinct (map pl_Number (snd acc)) \<Longrightarrow> set (fst acc) = set (map pl_Number (snd acc)) \<Longrightarrow>
   distinct (map pl_Number (snd (fold add_pull prs acc))) \<and> set (fst (fold add_pull prs acc)) = set (map pl_Number (snd (fold add_pull prs acc)))"
proof (induction prs arbitrary: acc)
  case (Cons pr prs)
  show ?case using Cons.IH [of "add_pull pr acc"] add_pull_distinct [OF Cons.prems, of pr] by simp
qed simp

lemma pulls_loop_distinct:
  "pulls_loop c repo owner name commits acc n = (m, Inr prs) \<Longrightarrow> distinct (map pl_Number (snd acc)) \<Longrightarrow>
   set (fst acc) = set (map pl_Number (snd acc)) \<Longrightarrow> distinct (map pl_Number prs)"
proof (induction commits arbitrary: acc n)
  case Nil
  then show ?case by (auto simp: gh_return_def)
next
  case (Cons commit commits)
  show ?case
  proof (cases "cm_sha commit = []")
    case True
    then show ?thesis using Cons by simp
  next
    case False
    then obtain got n' where "pulls_loop c repo owner name commits (fold add_pull got acc) n' = (m, Inr prs)"
      using Cons.prems(1) by (auto simp: gh_bind_def split: prod.splits sum.splits)
    then show ?thesis using Cons.IH fold_add_pull_distinct [OF Cons.prems(2,3), of got] by blast
  qed
qed

lemma pulls_distinct:
  "ListPullRequestsForFile c repo path n = (m, Inr prs) \<Longrightarrow> distinct (map pl_Number prs)"
  by (auto simp: ListPullRequestsForFile_def gh_bind_def split: prod.splits sum.splits dest: pulls_loop_distinct)

end
