(* ===== verification/Scanner.thy ===== *)
theory Scanner
  imports Ingest Github
begin

text \<open>
  The periodic sweep of \<^verbatim>\<open>internal/worker/scanner\<close>: one source, one pass over all sources, the
  constructor. The pass works on a store and a queue through the interfaces the source names; the
  orders in which Go ranges over its two maps are the arguments \<open>ordr\<close> and \<open>ordx\<close>. Logging is left
  out.
\<close>

section \<open>Operations\<close>

definition isDigits :: "string \<Rightarrow> bool" where
  "isDigits s = list_all is_digit_char s"

text \<open>The first window of four digits of a name.\<close>

fun first_digits :: "string \<Rightarrow> string option" where
  "first_digits [] = None"
| "first_digits (c # cs) =
     (if 4 \<le> length (c # cs) \<and> isDigits (take 4 (c # cs)) then Some (take 4 (c # cs)) else first_digits cs)"

definition canonicalFromPath :: "unicode \<Rightarrow> SourceRepo \<Rightarrow> string \<Rightarrow> DocumentID" where
  "canonicalFromPath U src path =
     (let rel = TrimPrefix (TrimPrefix path (sr_path src)) ''/'';
          name = (case IndexByte rel CHR ''/'' of None \<Rightarrow> rel | Some slash \<Rightarrow> take slash rel)
      in (case first_digits name of None \<Rightarrow> [] | Some ds \<Rightarrow> Canonical U (sr_type_id src) ds))"

definition scan_ref :: "SourceRepo \<Rightarrow> string" where
  "scan_ref src = (if sr_branch src = [] then ''main'' else sr_branch src)"

definition scan_payload :: "SourceRepo \<Rightarrow> File \<Rightarrow> json" where
  "scan_payload src f = JObj [(''type_id'', JStr (sr_type_id src)), (''repo'', JStr (sr_repo src)), (''path'', JStr (fi_Path f)),
     (''parser'', JStr (sr_parser src)), (''branch'', JStr (scan_ref src)), (''content_sha'', JStr (fi_SHA f))]"

definition remote_files :: "File list \<Rightarrow> (string \<times> File) list" where
  "remote_files files = fold (\<lambda>f. map_put (fi_Path f) f) files []"

fun enqueue_changed :: "'q enqueue_fn \<Rightarrow> SourceRepo \<Rightarrow> (string \<rightharpoonup> string) \<Rightarrow> (string \<times> File) list \<Rightarrow> 'q \<Rightarrow> 'q \<times> goerr option" where
  "enqueue_changed enq src existing [] q = (q, None)"
| "enqueue_changed enq src existing ((path, f) # rest) q =
     (if existing path = Some (fi_SHA f) then enqueue_changed enq src existing rest q
      else (case enq ''ingest'' (''content:'' @ fi_SHA f) (scan_payload src f) 0 q of
              (q', Some e) \<Rightarrow> (q', Some (Errorf [Lit ''enqueue '', Lit (fi_Path f), Lit '': '', Wrap e]))
            | (q', None) \<Rightarrow> enqueue_changed enq src existing rest q'))"

fun delete_missing :: "unicode \<Rightarrow> (DocumentID \<Rightarrow> 'd \<Rightarrow> 'd \<times> goerr option) \<Rightarrow> 'q enqueue_fn \<Rightarrow> SourceRepo \<Rightarrow> string list
    \<Rightarrow> string list \<Rightarrow> 'd \<times> 'q \<Rightarrow> 'd \<times> 'q" where
  "delete_missing U del enq src remote [] st = st"
| "delete_missing U del enq src remote (path # paths) (d, q) =
     (if path \<in> set remote then delete_missing U del enq src remote paths (d, q)
      else let i = canonicalFromPath U src path in
        if i = [] then delete_missing U del enq src remote paths (d, q)
        else (case del i d of
                (d', Some e) \<Rightarrow> delete_missing U del enq src remote paths (d', q)
              | (d', None) \<Rightarrow> delete_missing U del enq src remote paths
                  (d', fst (enq ''search_delete'' (''search-delete:'' @ i) (reindex_payload i) 0 q))))"

text \<open>The interfaces a pass runs on: \<^verbatim>\<open>ListFiles\<close>, \<^verbatim>\<open>ExistingSources\<close>, \<^verbatim>\<open>Delete\<close>, \<^verbatim>\<open>Enqueue\<close>.\<close>

record ('d, 'q) scan_ops =
  sc_list :: "string \<Rightarrow> string \<Rightarrow> string \<Rightarrow> File list result"
  sc_existing :: "'d \<Rightarrow> string \<Rightarrow> string \<Rightarrow> (string \<rightharpoonup> string) result"
  sc_delete :: "DocumentID \<Rightarrow> 'd \<Rightarrow> 'd \<times> goerr option"
  sc_enqueue :: "'q enqueue_fn"
  sc_ordr :: "(string \<times> File) list \<Rightarrow> (string \<times> File) list"
  sc_ordx :: "(string \<rightharpoonup> string) \<Rightarrow> string list"

definition scanSource :: "unicode \<Rightarrow> ('d, 'q) scan_ops \<Rightarrow> SourceRepo \<Rightarrow> 'd \<times> 'q \<Rightarrow> ('d \<times> 'q) \<times> goerr option" where
  "scanSource U S src st =
     (case st of (d, q) \<Rightarrow>
       (case sc_list S (sr_repo src) (sr_path src) (scan_ref src) of
          Inl e \<Rightarrow> ((d, q), Some (Errorf [Lit ''list '', Lit (sr_repo src), Lit '':'', Lit (sr_path src), Lit '': '', Wrap e]))
        | Inr files \<Rightarrow>
           let remote = remote_files files in
           (case sc_existing S d (sr_repo src) (sr_path src) of
              Inl e \<Rightarrow> ((d, q), Some (Errorf [Lit ''existing '', Lit (sr_repo src), Lit '':'', Lit (sr_path src), Lit '': '', Wrap e]))
            | Inr existing \<Rightarrow>
               (case enqueue_changed (sc_enqueue S) src existing (sc_ordr S remote) q of
                  (q', Some e) \<Rightarrow> ((d, q'), Some e)
                | (q', None) \<Rightarrow>
                    (delete_missing U (sc_delete S) (sc_enqueue S) src (map fst remote) (sc_ordx S existing) (d, q'), None)))))"

record Scanner =
  sn_sources :: "SourceRepo list"
  sn_interval :: duration
  sn_onScan :: bool

text \<open>The configuration: which collaborators are given, and the rest.\<close>

record ScannerConfig =
  sg_sources :: "SourceRepo list"
  sg_fetcher :: bool
  sg_store :: bool
  sg_queue :: bool
  sg_interval :: duration
  sg_onScan :: bool

definition NewScanner :: "ScannerConfig option \<Rightarrow> Scanner result" where
  "NewScanner cfg =
     (case cfg of
        None \<Rightarrow> Inl (New ''scanner: nil config'')
      | Some c \<Rightarrow>
          if \<not> sg_fetcher c then Inl (New ''scanner: nil fetcher'')
          else if \<not> sg_store c then Inl (New ''scanner: nil store'')
          else if \<not> sg_queue c then Inl (New ''scanner: nil queue'')
          else Inr \<lparr>sn_sources = sg_sources c,
                 sn_interval = (if sg_interval c \<le> 0 then 5 * minute else sg_interval c), sn_onScan = sg_onScan c\<rparr>)"

definition scan_one :: "unicode \<Rightarrow> ('d, 'q) scan_ops \<Rightarrow> SourceRepo \<Rightarrow> ('d \<times> 'q) \<times> goerr option \<Rightarrow> ('d \<times> 'q) \<times> goerr option" where
  "scan_one U S src acc =
     (case acc of (st, firstErr) \<Rightarrow>
        case scanSource U S src st of (st', err) \<Rightarrow>
          (st', if err \<noteq> None \<and> firstErr = None then err else firstErr))"

text \<open>A pass, and whether it reports the scan time to the readiness watermark.\<close>

definition Pass :: "unicode \<Rightarrow> ('d, 'q) scan_ops \<Rightarrow> Scanner \<Rightarrow> 'd \<times> 'q \<Rightarrow> ('d \<times> 'q) \<times> bool \<times> goerr option" where
  "Pass U S s st =
     (if length (sn_sources s) = 0 then (st, sn_onScan s, None)
      else (case fold (scan_one U S) (sn_sources s) (st, None) of
              (st', firstErr) \<Rightarrow> (st', firstErr = None \<and> sn_onScan s, firstErr)))"

text \<open>
  What the loop of \<^verbatim>\<open>Run\<close> meets: a tick with the time and the answers its pass gets, or the cancellation.
  One pass runs before the loop. The result is the state with the scan times reported so far, and what
  \<^verbatim>\<open>Run\<close> returned, \<open>None\<close> while it is still running; the error of a pass is logged.
\<close>

datatype ('d, 'q) sevent = Ticked time "('d, 'q) scan_ops" | Stopped

definition pass_at :: "unicode \<Rightarrow> Scanner \<Rightarrow> time \<Rightarrow> ('d, 'q) scan_ops \<Rightarrow> ('d \<times> 'q) \<times> time list \<Rightarrow> ('d \<times> 'q) \<times> time list" where
  "pass_at U s now S x =
     (case Pass U S s (fst x) of (st', reported, err) \<Rightarrow> (st', if reported then snd x @ [now] else snd x))"

fun scanner_loop :: "unicode \<Rightarrow> Scanner \<Rightarrow> ('d, 'q) sevent list \<Rightarrow> ('d \<times> 'q) \<times> time list
    \<Rightarrow> (('d \<times> 'q) \<times> time list) \<times> goerr option option" where
  "scanner_loop U s [] x = (x, None)"
| "scanner_loop U s (Stopped # es) x = (x, Some None)"
| "scanner_loop U s (Ticked now S # es) x = scanner_loop U s es (pass_at U s now S x)"

definition scanner_Run :: "unicode \<Rightarrow> Scanner \<Rightarrow> time \<Rightarrow> ('d, 'q) scan_ops \<Rightarrow> ('d, 'q) sevent list \<Rightarrow> 'd \<times> 'q
    \<Rightarrow> (('d \<times> 'q) \<times> time list) \<times> goerr option option" where
  "scanner_Run U s now S es st = scanner_loop U s es (pass_at U s now S (st, []))"

section \<open>A pass over all sources\<close>

text \<open>The states and the errors of scanning the sources one after the other.\<close>

fun pass_scans :: "unicode \<Rightarrow> ('d, 'q) scan_ops \<Rightarrow> SourceRepo list \<Rightarrow> 'd \<times> 'q \<Rightarrow> 'd \<times> 'q \<times> goerr option list" where
  "pass_scans U S [] st = (fst st, snd st, [])"
| "pass_scans U S (src # srcs) st =
     (case scanSource U S src st of (st', err) \<Rightarrow>
        case pass_scans U S srcs st' of (d, q, errs) \<Rightarrow> (d, q, err # errs))"

lemma fold_scan_one:
  "fold (scan_one U S) srcs (st, fe) =
     (case pass_scans U S srcs st of (d, q, errs) \<Rightarrow>
        ((d, q), case filter (\<lambda>e. e \<noteq> None) (fe # errs) of [] \<Rightarrow> None | e # _ \<Rightarrow> e))"
proof (induction srcs arbitrary: st fe)
  case (Cons src srcs)
  obtain st' err where s: "scanSource U S src st = (st', err)" by (rule prod.exhaust)
  obtain d q errs where p: "pass_scans U S srcs st' = (d, q, errs)" by (metis prod_cases3)
  have one: "scan_one U S src (st, fe') = (st', if err \<noteq> None \<and> fe' = None then err else fe')" for fe' by (simp add: scan_one_def s)
  show ?case by (cases err; cases fe) (simp_all add: one s p Cons.IH)
qed (cases fe, simp_all)

text \<open>A failing source does not keep a pass from the others; the pass returns the first error, and reports
  its time exactly when there is none.\<close>

lemma Pass_scans_all:
  assumes "sn_sources s \<noteq> []" and "pass_scans U S (sn_sources s) st = (d, q, errs)"
  shows "Pass U S s st = ((d, q), sn_onScan s \<and> list_all (\<lambda>e. e = None) errs,
    case filter (\<lambda>e. e \<noteq> None) errs of [] \<Rightarrow> None | e # _ \<Rightarrow> e) \<and> length errs = length (sn_sources s)"
proof -
  have l: "length errs = length srcs" if "pass_scans U S srcs st = (d, q, errs)" for srcs st errs
    using that by (induction srcs arbitrary: st errs) (auto split: prod.splits)
  have f: "(case filter (\<lambda>e. e \<noteq> None) errs of [] \<Rightarrow> None | e # _ \<Rightarrow> e) = None \<longleftrightarrow> list_all (\<lambda>e. e = None) errs"
    by (induction errs) auto
  show ?thesis using assms l [OF assms(2)] f by (auto simp: Pass_def fold_scan_one)
qed

text \<open>The loop returns at the cancellation and only then, never with an error; it reports only times of its
  passes.\<close>

lemma scanner_loop_result:
  "snd (scanner_loop U s es x) = (if Stopped \<in> set es then Some None else None)
   \<and> set (snd (fst (scanner_loop U s es x))) \<subseteq> set (snd x) \<union> {now. \<exists>S. Ticked now S \<in> set es}"
proof (induction U s es x rule: scanner_loop.induct)
  case (3 U s now S es x)
  have "set (snd (pass_at U s now S x)) \<subseteq> insert now (set (snd x))"
    by (auto simp: pass_at_def split: prod.splits)
  then show ?case using 3 by auto
qed simp_all

section \<open>Loops of the scan\<close>

text \<open>The files of a listing that are new or differ from what is stored.\<close>

definition changed_shas :: "(string \<rightharpoonup> string) \<Rightarrow> (string \<times> File) list \<Rightarrow> string set" where
  "changed_shas existing fs = {fi_SHA f | p f. (p, f) \<in> set fs \<and> existing p \<noteq> Some (fi_SHA f)}"

lemma changed_shas_Cons: "changed_shas existing ((p, f) # fs) =
    (if existing p = Some (fi_SHA f) then changed_shas existing fs else insert (fi_SHA f) (changed_shas existing fs))"
  by (auto simp: changed_shas_def)

context enqueuer
begin

lemma changed_only:
  "enqueue_changed enq src existing fs q = (q', err) \<Longrightarrow> has q' k d \<Longrightarrow>
   has q k d \<or> (k = ''ingest'' \<and> d \<in> (@) ''content:'' ` changed_shas existing fs)"
proof (induction fs arbitrary: q)
  case (Cons x fs)
  obtain p f where x: "x = (p, f)" by (cases x)
  obtain q1 e where q1: "enq ''ingest'' (''content:'' @ fi_SHA f) (scan_payload src f) 0 q = (q1, e)" by (rule prod.exhaust)
  show ?case
    using Cons enq_only [OF q1, of k d] q1 by (auto simp: x changed_shas_Cons split: if_splits option.splits)
qed auto

lemma changed_keeps: "enqueue_changed enq src existing fs q = (q', err) \<Longrightarrow> has q k d \<Longrightarrow> has q' k d"
proof (induction fs arbitrary: q)
  case (Cons x fs)
  obtain p f where x: "x = (p, f)" by (cases x)
  obtain q1 e where q1: "enq ''ingest'' (''content:'' @ fi_SHA f) (scan_payload src f) 0 q = (q1, e)" by (rule prod.exhaust)
  show ?case
    using Cons enq_keeps [OF q1 Cons.prems(2)] q1 by (auto simp: x split: if_splits option.splits)
qed auto

lemma changed_has:
  "enqueue_changed enq src existing fs q = (q', None) \<Longrightarrow> sha \<in> changed_shas existing fs \<Longrightarrow> has q' ''ingest'' (''content:'' @ sha)"
proof (induction fs arbitrary: q)
  case Nil
  then show ?case by (simp add: changed_shas_def)
next
  case (Cons x fs)
  obtain p f where x: "x = (p, f)" by (cases x)
  obtain q1 e where q1: "enq ''ingest'' (''content:'' @ fi_SHA f) (scan_payload src f) 0 q = (q1, e)" by (rule prod.exhaust)
  show ?case
    using Cons changed_keeps enq_has q1 by (auto simp: x changed_shas_Cons split: if_splits option.splits)
qed

lemma changed_exact:
  assumes "enqueue_changed enq src existing fs q = (q', None)"
  shows "has q' k d \<longleftrightarrow> has q k d \<or> (k = ''ingest'' \<and> d \<in> (@) ''content:'' ` changed_shas existing fs)"
  using changed_only [OF assms, of k d] changed_keeps [OF assms, of k d] changed_has [OF assms] by blast

end

text \<open>The ids the paths that are no longer listed stand for.\<close>

definition vanished :: "unicode \<Rightarrow> SourceRepo \<Rightarrow> string list \<Rightarrow> string set \<Rightarrow> DocumentID set" where
  "vanished U src remote paths = canonicalFromPath U src ` (paths - set remote) - {[]}"

lemma delete_stmt_docs: "t_documents (delete_stmt i db) = filter (\<lambda>r. dr_id r \<noteq> i) (t_documents db)"
  by (simp add: delete_stmt_def)

lemma delete_stmt_ids: "doc_ids (delete_stmt i db) = doc_ids db - {i}"
  by (auto simp: doc_ids_def delete_stmt_docs)

lemma acked_Delete: "pg_commit env = Acked \<Longrightarrow>
    pg_Delete env i db = (delete_stmt i db, if i \<in> doc_ids db then None else Some (not_found i))"
  by (auto simp: pg_Delete_def doc_ids_def image_iff)

lemma acked_has:
  assumes "\<And>n. ee_db E n = Acked" and "kind \<noteq> []" and "key \<noteq> []"
  shows "has_job (fst (jobs_enq E kind key body t q)) k d \<longleftrightarrow> has_job q k d \<or> (k = kind \<and> d = key)"
proof -
  obtain q' where e: "jobs_enq E kind key body t q = (q', None)"
    using acked_enq [OF assms, of body t q] by (metis prod.collapse)
  show ?thesis using jq.enq_has [OF e] jq.enq_keeps [OF e, of k d] jq.enq_only [OF e, of k d] e by auto
qed

text \<open>The deletions of a scan, when the database answers: the rows of the vanished ids go, and the ids
  among them that were stored get a \<^verbatim>\<open>search_delete\<close> job.\<close>

lemma delete_missing_exact:
  assumes "pg_commit env = Acked" and "\<And>n. ee_db E n = Acked"
  shows "delete_missing U (pg_Delete env) (jobs_enq E) src remote paths (db, q) = (db', q') \<Longrightarrow>
    t_documents db' = filter (\<lambda>r. dr_id r \<notin> vanished U src remote (set paths)) (t_documents db)
    \<and> has_job q' k d = (has_job q k d \<or> (k = ''search_delete''
         \<and> d \<in> (@) ''search-delete:'' ` (vanished U src remote (set paths) \<inter> doc_ids db)))"
proof (induction paths arbitrary: db q)
  case Nil
  then show ?case by (simp add: vanished_def)
next
  case (Cons path paths)
  let ?i = "canonicalFromPath U src path"
  show ?case
  proof (cases "path \<in> set remote \<or> ?i = []")
    case True
    then have v: "vanished U src remote (set (path # paths)) = vanished U src remote (set paths)"
      by (auto simp: vanished_def)
    have d: "delete_missing U (pg_Delete env) (jobs_enq E) src remote paths (db, q) = (db', q')"
      using Cons.prems True by (auto simp: Let_def split: if_splits)
    show ?thesis unfolding v by (rule Cons.IH [OF d])
  next
    case False
    then have v: "vanished U src remote (set (path # paths)) = insert ?i (vanished U src remote (set paths))"
      by (auto simp: vanished_def)
    let ?q = "if ?i \<in> doc_ids db
      then fst (jobs_enq E ''search_delete'' (''search-delete:'' @ ?i) (reindex_payload ?i) 0 q) else q"
    have d: "delete_missing U (pg_Delete env) (jobs_enq E) src remote paths (delete_stmt ?i db, ?q) = (db', q')"
      using Cons.prems False by (simp add: acked_Delete [OF assms(1), of ?i db] Let_def split: if_splits)
    show ?thesis
      using Cons.IH [OF d] unfolding v
      by (auto simp: delete_stmt_docs delete_stmt_ids acked_has [OF assms(2)] conj_commute intro!: filter_cong)
  qed
qed

section \<open>One source\<close>

lemma remote_files_keys: "set (map fst (remote_files files)) = fi_Path ` set files"
proof -
  have "fst ` set (fold (\<lambda>f. map_put (fi_Path f) f) files m) = fst ` set m \<union> fi_Path ` set files" for m
  proof (induction files arbitrary: m)
    case (Cons f files)
    have "fst ` set (map_put (fi_Path f) f m) = insert (fi_Path f) (fst ` set m)" by (force simp: map_put_def)
    then show ?case using Cons by simp
  qed simp
  then show ?thesis by (simp add: remote_files_def)
qed

lemma remote_files_distinct: "distinct (map fi_Path files) \<Longrightarrow> remote_files files = map (\<lambda>f. (fi_Path f, f)) files"
proof -
  have "distinct (map fi_Path files) \<Longrightarrow> fst ` set m \<inter> fi_Path ` set files = {} \<Longrightarrow>
      fold (\<lambda>f. map_put (fi_Path f) f) files m = m @ map (\<lambda>f. (fi_Path f, f)) files" for m
  proof (induction files arbitrary: m)
    case (Cons f files)
    have "filter (\<lambda>p. fst p \<noteq> fi_Path f) m = m" using Cons.prems(2) by (force simp: filter_id_conv)
    then have "map_put (fi_Path f) f m = m @ [(fi_Path f, f)]" by (simp add: map_put_def)
    then show ?case using Cons by (auto intro!: Cons.IH [THEN trans])
  qed simp
  then show "distinct (map fi_Path files) \<Longrightarrow> remote_files files = map (\<lambda>f. (fi_Path f, f)) files"
    by (simp add: remote_files_def)
qed

text \<open>The pass over the Postgres store and the job queue.\<close>

definition pg_scan :: "PgEnv \<Rightarrow> enq_env \<Rightarrow> (string \<Rightarrow> string \<Rightarrow> string \<Rightarrow> File list result) \<Rightarrow> ((string \<times> File) list \<Rightarrow> (string \<times> File) list)
    \<Rightarrow> ((string \<rightharpoonup> string) \<Rightarrow> string list) \<Rightarrow> (DB, jobs \<times> nat) scan_ops" where
  "pg_scan env E ls ordr ordx = \<lparr>sc_list = ls, sc_existing = ExistingSources env, sc_delete = pg_Delete env,
     sc_enqueue = jobs_enq E, sc_ordr = ordr, sc_ordx = ordx\<rparr>"

lemma changed_acked:
  "(\<And>n. ee_db E n = Acked) \<Longrightarrow> \<exists>q'. enqueue_changed (jobs_enq E) src existing fs q = (q', None)"
proof (induction fs arbitrary: q)
  case (Cons x fs)
  obtain p f where x: "x = (p, f)" by (cases x)
  obtain q1 where "jobs_enq E ''ingest'' (''content:'' @ fi_SHA f) (scan_payload src f) 0 q = (q1, None)"
    using acked_enq [OF Cons.prems, of "''ingest''" "''content:'' @ fi_SHA f" "scan_payload src f" 0 q]
    by (metis append_is_Nil_conv list.distinct(1) prod.collapse)
  then show ?case using Cons by (auto simp: x)
qed simp


section \<open>Scan, ingest, scan again\<close>

lemma like_any: "like s ps \<Longrightarrow> like s (CHR ''%'' # ps)"
  by simp

lemma like_percent: "like s [CHR ''%'']"
  by (induction s) simp_all

lemma like_prefix: "CHR 0x5C \<notin> set base \<Longrightarrow> like (base @ rest) (base @ ''%'')"
proof (induction base)
  case Nil
  then show ?case using like_percent by simp
next
  case (Cons c base)
  then have "like (base @ rest) (base @ ''%'')" by simp
  then show ?case using Cons.prems like_any [of "base @ rest" "base @ ''%''"] by (auto simp del: like.simps(1))
qed

lemma map_of_only: "(k, v) \<in> set xs \<Longrightarrow> (\<And>v'. (k, v') \<in> set xs \<Longrightarrow> v' = v) \<Longrightarrow> map_of xs k = Some v"
  by (metis map_of_SomeD not_None_eq weak_map_of_SomeI)

text \<open>The rows of the store under a source.\<close>

definition source_rows :: "DB \<Rightarrow> string \<Rightarrow> string \<Rightarrow> DocRow list" where
  "source_rows db repo basePath = filter (\<lambda>r. dr_repo r = Some repo
     \<and> (case dr_path r of None \<Rightarrow> False | Some p \<Rightarrow> like p (basePath @ ''%''))) (t_documents db)"

lemma source_rows_sub: "set (source_rows db repo basePath) \<subseteq> set (t_documents db)"
  by (simp add: source_rows_def)

lemma ExistingSources_Inr:
  "ExistingSources env db repo basePath = Inr m \<Longrightarrow> (\<forall>r \<in> set (source_rows db repo basePath). dr_commit r \<noteq> None)
     \<and> m = map_of (rev (map (\<lambda>r. (str_of (dr_path r), str_of (dr_commit r))) (source_rows db repo basePath)))"
  by (auto simp: ExistingSources_def source_rows_def Let_def bindR_Inr pg_try_Inr split: if_splits)

lemma ExistingSources_quiet:
  "(\<forall>r \<in> set (source_rows db repo basePath). dr_commit r \<noteq> None) \<Longrightarrow> ExistingSources (quiet_env coll now) db repo basePath =
     Inr (map_of (rev (map (\<lambda>r. (str_of (dr_path r), str_of (dr_commit r))) (source_rows db repo basePath))))"
  by (auto simp: ExistingSources_def source_rows_def Let_def pg_try_def)

lemma upserted_rows:
  "r \<in> set (t_documents (upserted env doc db)) \<Longrightarrow>
     (dr_id r = d_id doc \<and> dr_repo r = Some (so_repo (d_source doc)) \<and> dr_path r = Some (so_path (d_source doc))
       \<and> dr_commit r = Some (so_commit (d_source doc)))
     \<or> (dr_id r \<noteq> d_id doc \<and> r \<in> set (t_documents db))"
  by (auto simp: upserted_def doc_row_def doc_ids_def image_iff split: if_splits)

lemma upserted_has_row: "\<exists>r \<in> set (t_documents (upserted env doc db)). dr_id r = d_id doc"
  using upserted_ids [of env doc db] unfolding doc_ids_def by (metis image_iff insertI1)

lemma stored_source:
  assumes "pg_Upsert env (Some doc) db = (db', None)" and "ExistingSources env0 db repo basePath = Inr m"
    and "d_source doc = \<lparr>so_repo = repo, so_path = path, so_commit = sha, so_commit_time = t\<rparr>"
    and "HasPrefix path basePath" and "CHR 0x5C \<notin> set basePath"
    and "\<And>r. r \<in> set (t_documents db) \<Longrightarrow> dr_repo r = Some repo \<Longrightarrow> dr_path r = Some path \<Longrightarrow> dr_id r = d_id doc"
  shows "\<exists>m'. ExistingSources (quiet_env coll now) db' repo basePath = Inr m' \<and> m' path = Some sha"
proof -
  obtain ls where "db' = (upserted env doc db)\<lparr>t_authors :=
      filter (\<lambda>r. ar_doc r \<noteq> d_id doc) (t_authors db) @ author_rows (d_id doc) 0 (d_authors doc), t_links := ls\<rparr>"
    using assms(1) by (rule Upsert_success)
  then have d: "t_documents db' = t_documents (upserted env doc db)" by simp
  let ?rs = "source_rows db' repo basePath"
  let ?g = "\<lambda>r. (str_of (dr_path r), str_of (dr_commit r))"
  have old: "r \<in> set (source_rows db repo basePath)" if "r \<in> set ?rs" "dr_id r \<noteq> d_id doc" for r
    using that upserted_rows [of r env doc db] by (auto simp: source_rows_def d)
  have new: "dr_path r = Some path \<and> dr_commit r = Some sha \<and> dr_repo r = Some repo"
    if "r \<in> set (t_documents db')" "dr_id r = d_id doc" for r
    using that upserted_rows [of r env doc db] assms(3) by (auto simp: d)
  note sub = source_rows_sub [of db' repo basePath]
  have c: "\<forall>r \<in> set ?rs. dr_commit r \<noteq> None"
    using old new sub ExistingSources_Inr [OF assms(2)] by blast
  have like: "like path (basePath @ ''%'')"
    using assms(4) like_prefix [OF assms(5)] by (auto simp: HasPrefix_def prefix_def)
  obtain r where r: "r \<in> set (t_documents db')" "dr_id r = d_id doc" using upserted_has_row [of env doc db] d by auto
  then have "r \<in> set ?rs" using new [OF r] like by (simp add: source_rows_def)
  then have m1: "(path, sha) \<in> ?g ` set ?rs" using new [OF r] by (force simp: str_of_def)
  have m2: "v = sha" if v: "(path, v) \<in> ?g ` set ?rs" for v
  proof -
    obtain r' where r': "r' \<in> set ?rs" "str_of (dr_path r') = path" "str_of (dr_commit r') = v" using v by auto
    then have p: "dr_path r' = Some path" "dr_repo r' = Some repo"
      by (auto simp: source_rows_def str_of_def split: option.splits)
    have "dr_id r' = d_id doc" using old [OF r'(1)] assms(6) [of r'] p source_rows_sub by blast
    then have "dr_commit r' = Some sha" using new r'(1) sub by blast
    then show ?thesis using r'(3) by (simp add: str_of_def)
  qed
  have "map_of (rev (map ?g ?rs)) path = Some sha"
    by (rule map_of_only) (unfold set_rev set_map, rule m1, erule m2)
  then show ?thesis using ExistingSources_quiet [OF c] by blast
qed

lemma scan_fields: "\<not> field_match ''type_id'' ''repo''" "\<not> field_match ''type_id'' ''path''" "\<not> field_match ''type_id'' ''parser''"
  "\<not> field_match ''repo'' ''type_id''" "\<not> field_match ''repo'' ''path''" "\<not> field_match ''repo'' ''parser''"
  "\<not> field_match ''repo'' ''branch''" "\<not> field_match ''repo'' ''content_sha''" "\<not> field_match ''path'' ''type_id''"
  "\<not> field_match ''path'' ''repo''" "\<not> field_match ''path'' ''parser''" "\<not> field_match ''path'' ''branch''"
  "\<not> field_match ''path'' ''content_sha''" "\<not> field_match ''parser'' ''type_id''" "\<not> field_match ''parser'' ''repo''"
  "\<not> field_match ''parser'' ''path''" "\<not> field_match ''parser'' ''branch''" "\<not> field_match ''parser'' ''content_sha''"
  "\<not> field_match ''branch'' ''type_id''" "\<not> field_match ''branch'' ''repo''" "\<not> field_match ''branch'' ''path''"
  "\<not> field_match ''branch'' ''parser''" "\<not> field_match ''branch'' ''content_sha''"
  by code_simp+

lemma scan_payload_decodes:
  "unmarshal_ingest (scan_payload src f) = Some \<lparr>ip_TypeID = sr_type_id src, ip_Repo = sr_repo src, ip_Path = fi_Path f,
     ip_Parser = sr_parser src, ip_Branch = scan_ref src, ip_ContentSHA = fi_SHA f\<rparr>"
  by (simp add: unmarshal_ingest_def scan_payload_def ingest_fields scan_fields)

text \<open>C26: Scanning and ingesting settle. Take a file a scan found and the ingest job it enqueued for it:
  when the job is run before the file changes again and reports success, the store records the file's
  path with its current blob hash, so the next scan of the same listing enqueues nothing for the file.
  The parser must stamp the document with the source it was given (the docz parser does), and the store
  must hold no other document under the same path.\<close>

theorem scan_ingest_settles:
  assumes "job_payload job = scan_payload src f"
    and "ff_GetFile F (sr_repo src) (fi_Path f) (scan_ref src) = Inr (raw, fi_SHA f)"
    and "ParserGet parsers (sr_parser src) = Inr parse"
    and "\<And>t so doc. parse raw t so = Inr doc \<Longrightarrow> d_source doc = so \<and> d_id doc = i"
    and "ExistingSources env0 db (sr_repo src) (sr_path src) = Inr existing"
    and "HasPrefix (fi_Path f) (sr_path src)" and "CHR 0x5C \<notin> set (sr_path src)"
    and "\<And>r. r \<in> set (t_documents db) \<Longrightarrow> dr_repo r = Some (sr_repo src) \<Longrightarrow> dr_path r = Some (fi_Path f) \<Longrightarrow> dr_id r = i"
    and "ingest_Handle je F parsers types (\<lambda>doc. pg_Upsert env (Some doc)) (jobs_enq E) job (db, q) = ((db', q'), None)"
  shows "\<exists>m. ExistingSources (quiet_env coll now) db' (sr_repo src) (sr_path src) = Inr m
    \<and> m (fi_Path f) = Some (fi_SHA f) \<and> enqueue_changed (jobs_enq E) src m [(fi_Path f, f)] q' = (q', None)"
proof -
  let ?p = "\<lparr>ip_TypeID = sr_type_id src, ip_Repo = sr_repo src, ip_Path = fi_Path f,
     ip_Parser = sr_parser src, ip_Branch = scan_ref src, ip_ContentSHA = fi_SHA f\<rparr>"
  have ref: "ingest_ref ?p = scan_ref src" by (simp add: ingest_ref_def scan_ref_def)
  have np: "ingest_parse F parsers types ?p \<noteq> Inr None"
    using assms(2,3) by (auto simp: ingest_parse_def ref bindR_Inr Let_def split: option.splits sum.splits)
  then obtain doc where doc: "ingest_parse F parsers types ?p = Inr (Some doc)" and u: "pg_Upsert env (Some doc) db = (db', None)"
    using assms(9) by (auto simp: ingest_Handle_def assms(1) scan_payload_decodes split: option.splits sum.splits prod.splits)
  obtain t where so: "d_source doc = \<lparr>so_repo = sr_repo src, so_path = fi_Path f, so_commit = fi_SHA f, so_commit_time = t\<rparr>"
    and i: "d_id doc = i"
    using doc assms(2,3,4) by (auto simp: ingest_parse_def ref bindR_Inr Let_def split: option.splits sum.splits if_splits)
  obtain m where "ExistingSources (quiet_env coll now) db' (sr_repo src) (sr_path src) = Inr m" "m (fi_Path f) = Some (fi_SHA f)"
    using stored_source [OF u assms(5) so assms(6,7), of coll now] assms(8) i by blast
  then show ?thesis by auto
qed

section \<open>Examples\<close>

definition stored_at :: "DocumentID \<Rightarrow> string \<Rightarrow> string \<Rightarrow> DocRow" where
  "stored_at i path sha = doc_row (quiet_env (<) 0) ((sample_doc i ''rfc'' 5000)\<lparr>d_source :=
     \<lparr>so_repo = ''o/r'', so_path = path, so_commit = sha, so_commit_time = 0\<rparr>\<rparr>)"

definition md_file :: "string \<Rightarrow> string \<Rightarrow> File" where
  "md_file path sha = \<lparr>fi_Path = path, fi_SHA = sha, fi_Size = 5\<rparr>"

definition scan_db :: DB where
  "scan_db = empty_db\<lparr>t_documents := [stored_at ''RFC-0002'' ''d/0002.md'' ''s2'']\<rparr>"

lemma scan_existing: "ExistingSources (quiet_env (<) 0) scan_db ''o/r'' ''d/'' = Inr [''d/0002.md'' \<mapsto> ''s2'']"
  by (simp add: ExistingSources_def scan_db_def stored_at_def doc_row_def Let_def pg_try_def str_of_def)

definition range_keys :: "string list \<Rightarrow> (string \<rightharpoonup> string) \<Rightarrow> string list" where
  "range_keys ks m = filter (\<lambda>k. m k \<noteq> None) ks"


definition scan_job :: Job where
  "scan_job = \<lparr>job_id = 0, job_kind = ''ingest'', job_dedup = ''content:s1'',
     job_payload = scan_payload (sample_source\<lparr>sr_parser := ''plain''\<rparr>) (md_file ''d/0001.md'' ''s1''), job_attempts = 1\<rparr>"

theorem scan_ingest_settles_witness:
  "\<exists>m. ExistingSources (quiet_env (<) 0) (fst (fst (ingest_Handle (New []) (one_file ''s1'') [(''plain'', plain_parser)]
        (registry_of ascii_only default_types) (\<lambda>doc. pg_Upsert (quiet_env (<) 0) (Some doc)) (jobs_enq all_acked)
        scan_job (scan_db, ([], 0))))) ''o/r'' ''d/'' = Inr m \<and> m ''d/0001.md'' = Some ''s1''"
proof -
  let ?src = "sample_source\<lparr>sr_parser := ''plain''\<rparr>" and ?f = "md_file ''d/0001.md'' ''s1''"
  let ?h = "ingest_Handle (New []) (one_file ''s1'') [(''plain'', plain_parser)]
        (registry_of ascii_only default_types) (\<lambda>doc. pg_Upsert (quiet_env (<) 0) (Some doc)) (jobs_enq all_acked)
        scan_job (scan_db, ([], 0))"
  have "snd ?h = None" by code_simp
  then obtain db' q' where h: "?h = ((db', q'), None)" by (metis prod.collapse)
  have p: "job_payload scan_job = scan_payload ?src ?f" by (simp add: scan_job_def)
  have src: "sr_repo ?src = ''o/r''" "sr_path ?src = ''d/''" "fi_Path ?f = ''d/0001.md''" "fi_SHA ?f = ''s1''"
    by (simp_all add: sample_source_def md_file_def)
  have "\<exists>m. ExistingSources (quiet_env (<) 0) db' (sr_repo ?src) (sr_path ?src) = Inr m
      \<and> m (fi_Path ?f) = Some (fi_SHA ?f) \<and> enqueue_changed (jobs_enq all_acked) ?src m [(fi_Path ?f, ?f)] q' = (q', None)"
  proof (rule scan_ingest_settles [OF p _ _ _ _ _ _ _ h])
    show "ff_GetFile (one_file ''s1'') (sr_repo ?src) (fi_Path ?f) (scan_ref ?src) = Inr (''hello'', fi_SHA ?f)"
      by (simp add: one_file_def src)
    show "ParserGet [(''plain'', plain_parser)] (sr_parser ?src) = Inr plain_parser" by (simp add: ParserGet_def)
    show "d_source doc = so \<and> d_id doc = ''RFC-0001''" if "plain_parser ''hello'' t so = Inr doc" for t so doc
      using that by (auto simp: plain_parser_def sample_doc_def)
    show "ExistingSources (quiet_env (<) 0) scan_db (sr_repo ?src) (sr_path ?src) = Inr [''d/0002.md'' \<mapsto> ''s2'']"
      by (simp only: src scan_existing)
    show "dr_id r = ''RFC-0001''" if "r \<in> set (t_documents scan_db)" "dr_repo r = Some (sr_repo ?src)" "dr_path r = Some (fi_Path ?f)" for r
      using that by (simp add: src scan_db_def stored_at_def doc_row_def)
  qed (simp_all add: src HasPrefix_def)
  then show ?thesis unfolding h src fst_conv by blast
qed

text \<open>
  The id a path stands for is guessed from the first four digits of the file name. When the file of
  document 10001 disappears from the listing, the document the scan deletes is 1000, whose file is still
  there, and 10001 stays.
\<close>

lemma scan_deletes_other_document:
  "map dr_id (t_documents (fst (fst (scanSource ascii_only (pg_scan (quiet_env (<) 0) all_acked
      (\<lambda>r p f. Inr [md_file ''d/1000.md'' ''a'']) (\<lambda>m. m) (range_keys [''d/1000.md'', ''d/10001.md''])) sample_source
      (empty_db\<lparr>t_documents := [stored_at ''RFC-1000'' ''d/1000.md'' ''a'', stored_at ''RFC-10001'' ''d/10001.md'' ''b'']\<rparr>, ([], 0))))))
   = [''RFC-10001'']"
  by code_simp

end
