(* ===== verification/Collectors.thy ===== *)
theory Collectors
  imports Prelude
begin

text \<open>
  The Prometheus collectors of \<^verbatim>\<open>internal/obs/metrics.go\<close> and the surface the queue writes its job metrics
  to (\<^verbatim>\<open>LeaseMetrics\<close> of \<^verbatim>\<open>leaser.go\<close>, the adapter of \<^verbatim>\<open>internal/worker/metrics.go\<close>). The Prometheus library
  is outside: a collector is what it was built from, the state of the metrics is the sequence of calls made
  on the collectors, and whether a registry takes a collector is an argument.
\<close>

section \<open>Collectors\<close>

record desc =
  ds_Name :: string
  ds_Help :: string
  ds_Labels :: "string list"

text \<open>The buckets of a histogram are in milliseconds; the two runtime collectors come ready-made.\<close>

datatype collector =
    CounterVec desc
  | HistogramVec desc "nat list"
  | Gauge desc
  | GaugeVec desc
  | GoCollector
  | ProcessCollector

text \<open>The registry: the collectors given to \<^verbatim>\<open>MustRegister\<close> so far.\<close>

type_synonym registry = "collector list"

record Metrics =
  m_Registry :: registry
  m_RequestsTotal :: collector
  m_RequestDuration :: collector
  m_InFlight :: collector
  m_JobsLeased :: collector
  m_JobsCompleted :: collector
  m_JobsDead :: collector
  m_JobDuration :: collector
  m_JobQueueDepth :: collector

definition httpLabels :: "string list" where
  "httpLabels = [''method'', ''route'', ''status'']"

definition durationBuckets :: "nat list" where
  "durationBuckets = [1, 5, 10, 25, 50, 100, 250, 500, 1000, 2500, 5000, 10000]"

text \<open>\<^verbatim>\<open>MustRegister\<close> panics when the registry refuses one of the collectors: \<open>None\<close>.\<close>

fun MustRegister :: "(registry \<Rightarrow> collector \<Rightarrow> bool) \<Rightarrow> collector list \<Rightarrow> registry \<Rightarrow> registry option" where
  "MustRegister takes [] reg = Some reg"
| "MustRegister takes (c # cs) reg = (if takes reg c then MustRegister takes cs (reg @ [c]) else None)"

text \<open>The collectors in the order of the source, before they are registered.\<close>

definition unregistered :: Metrics where
  "unregistered = \<lparr>m_Registry = [],
     m_RequestsTotal = CounterVec \<lparr>ds_Name = ''rfc_api_http_requests_total'',
       ds_Help = ''Total HTTP requests by method, route, and status.'', ds_Labels = httpLabels\<rparr>,
     m_RequestDuration = HistogramVec \<lparr>ds_Name = ''rfc_api_http_request_duration_seconds'',
       ds_Help = ''HTTP request duration, by method and route.'', ds_Labels = [''method'', ''route'']\<rparr> durationBuckets,
     m_InFlight = Gauge \<lparr>ds_Name = ''rfc_api_http_in_flight_requests'',
       ds_Help = ''Number of in-flight HTTP requests.'', ds_Labels = []\<rparr>,
     m_JobsLeased = CounterVec \<lparr>ds_Name = ''rfc_api_worker_jobs_leased_total'',
       ds_Help = ''Total jobs leased, by kind.'', ds_Labels = [''kind'']\<rparr>,
     m_JobsCompleted = CounterVec \<lparr>ds_Name = ''rfc_api_worker_jobs_completed_total'',
       ds_Help = ''Total jobs completed, by kind and result (ok|error|dead).'', ds_Labels = [''kind'', ''result'']\<rparr>,
     m_JobsDead = CounterVec \<lparr>ds_Name = ''rfc_api_worker_jobs_dead_total'',
       ds_Help = ''Jobs that exhausted their retry budget and moved to dead.'', ds_Labels = [''kind'']\<rparr>,
     m_JobDuration = HistogramVec \<lparr>ds_Name = ''rfc_api_worker_job_duration_seconds'',
       ds_Help = ''End-to-end job handler duration, by kind.'', ds_Labels = [''kind'']\<rparr> durationBuckets,
     m_JobQueueDepth = GaugeVec \<lparr>ds_Name = ''rfc_api_worker_queue_depth'',
       ds_Help = ''Rows in the jobs table, by kind and state.'', ds_Labels = [''kind'', ''state'']\<rparr>\<rparr>"

definition NewMetrics :: "(registry \<Rightarrow> collector \<Rightarrow> bool) \<Rightarrow> Metrics option" where
  "NewMetrics takes =
     (let m = unregistered in
      Option.bind (MustRegister takes [m_RequestsTotal m, m_RequestDuration m, m_InFlight m, m_JobsLeased m,
          m_JobsCompleted m, m_JobsDead m, m_JobDuration m, m_JobQueueDepth m] []) (\<lambda>reg1.
      Option.bind (MustRegister takes [GoCollector] reg1) (\<lambda>reg2.
      Option.bind (MustRegister takes [ProcessCollector] reg2) (\<lambda>reg.
      Some (m\<lparr>m_Registry := reg\<rparr>)))))"

section \<open>Writing to them\<close>

text \<open>A call on the child of a collector with the given label values, \<^verbatim>\<open>WithLabelValues\<close>; an observed
  duration is in nanoseconds.\<close>

datatype metric_call =
    MInc collector "string list"
  | MDec collector "string list"
  | MObserve collector "string list" int

type_synonym metric_log = "metric_call list"

text \<open>\<^verbatim>\<open>WithLabelValues\<close> panics unless it gets as many values as the collector has labels.\<close>

fun labels_of :: "collector \<Rightarrow> string list" where
  "labels_of (CounterVec d) = ds_Labels d"
| "labels_of (HistogramVec d b) = ds_Labels d"
| "labels_of (Gauge d) = []"
| "labels_of (GaugeVec d) = ds_Labels d"
| "labels_of GoCollector = []"
| "labels_of ProcessCollector = []"

fun call_ok :: "Metrics \<Rightarrow> metric_call \<Rightarrow> bool" where
  "call_ok m (MInc c vs) = (c \<in> set (m_Registry m) \<and> length vs = length (labels_of c))"
| "call_ok m (MDec c vs) = (c \<in> set (m_Registry m) \<and> length vs = length (labels_of c))"
| "call_ok m (MObserve c vs d) = (c \<in> set (m_Registry m) \<and> length vs = length (labels_of c))"

text \<open>What a scrape reads off the calls: a counter, a gauge, and the number of observations.\<close>

definition counter :: "collector \<Rightarrow> string list \<Rightarrow> metric_log \<Rightarrow> nat" where
  "counter c vs log' = length (filter (\<lambda>x. x = MInc c vs) log')"

definition gauge :: "collector \<Rightarrow> metric_log \<Rightarrow> int" where
  "gauge c log' = int (length (filter (\<lambda>x. x = MInc c []) log')) - int (length (filter (\<lambda>x. x = MDec c []) log'))"

fun observed :: "collector \<Rightarrow> string list \<Rightarrow> metric_log \<Rightarrow> nat" where
  "observed c vs [] = 0"
| "observed c vs (x # xs) =
     (case x of MObserve c' vs' d \<Rightarrow> if c' = c \<and> vs' = vs then 1 else 0 | _ \<Rightarrow> 0) + observed c vs xs"

fun written :: "metric_call \<Rightarrow> collector" where
  "written (MInc c vs) = c"
| "written (MDec c vs) = c"
| "written (MObserve c vs d) = c"

section \<open>The metrics of the leaser\<close>

datatype LeaseMetrics = NoopMetrics | metricsAdapter Metrics

definition newLeaseMetrics :: "Metrics option \<Rightarrow> LeaseMetrics" where
  "newLeaseMetrics m = (case m of None \<Rightarrow> NoopMetrics | Some m' \<Rightarrow> metricsAdapter m')"

fun JobLeased :: "LeaseMetrics \<Rightarrow> string \<Rightarrow> metric_log \<Rightarrow> metric_log" where
  "JobLeased NoopMetrics kind ms = ms"
| "JobLeased (metricsAdapter m) kind ms = ms @ [MInc (m_JobsLeased m) [kind]]"

fun JobCompleted :: "LeaseMetrics \<Rightarrow> string \<Rightarrow> string \<Rightarrow> int \<Rightarrow> metric_log \<Rightarrow> metric_log" where
  "JobCompleted NoopMetrics kind result duration ms = ms"
| "JobCompleted (metricsAdapter m) kind result duration ms =
     ms @ [MInc (m_JobsCompleted m) [kind, result], MObserve (m_JobDuration m) [kind] duration]"

fun JobDead :: "LeaseMetrics \<Rightarrow> string \<Rightarrow> metric_log \<Rightarrow> metric_log" where
  "JobDead NoopMetrics kind ms = ms"
| "JobDead (metricsAdapter m) kind ms = ms @ [MInc (m_JobsDead m) [kind]]"

section \<open>Lemmas\<close>

lemma counter_simps [simp]:
  "counter c vs [] = 0"
  "counter c vs (xs @ ys) = counter c vs xs + counter c vs ys"
  "counter c vs (MInc c' vs' # xs) = (if c' = c \<and> vs' = vs then 1 else 0) + counter c vs xs"
  "counter c vs (MDec c' vs' # xs) = counter c vs xs"
  "counter c vs (MObserve c' vs' d # xs) = counter c vs xs"
  by (auto simp: counter_def)

lemma gauge_simps [simp]:
  "gauge c [] = 0"
  "gauge c (xs @ ys) = gauge c xs + gauge c ys"
  "gauge c (MInc c' vs # xs) = (if c' = c \<and> vs = [] then 1 else 0) + gauge c xs"
  "gauge c (MDec c' vs # xs) = (if c' = c \<and> vs = [] then - 1 else 0) + gauge c xs"
  "gauge c (MObserve c' vs d # xs) = gauge c xs"
  by (auto simp: gauge_def)

lemma observed_append [simp]: "observed c vs (xs @ ys) = observed c vs xs + observed c vs ys"
  by (induction xs) simp_all

lemma MustRegister_Some:
  "MustRegister takes cs reg = Some reg' \<Longrightarrow> reg' = reg @ cs"
  by (induction cs arbitrary: reg) (fastforce split: if_splits)+

lemma NewMetrics_eq:
  assumes "NewMetrics takes = Some m"
  shows "m = unregistered\<lparr>m_Registry := [m_RequestsTotal unregistered, m_RequestDuration unregistered, m_InFlight unregistered,
    m_JobsLeased unregistered, m_JobsCompleted unregistered, m_JobsDead unregistered, m_JobDuration unregistered,
    m_JobQueueDepth unregistered, GoCollector, ProcessCollector]\<rparr>"
proof -
  let ?u = unregistered
  let ?cs = "[m_RequestsTotal ?u, m_RequestDuration ?u, m_InFlight ?u, m_JobsLeased ?u, m_JobsCompleted ?u, m_JobsDead ?u,
    m_JobDuration ?u, m_JobQueueDepth ?u]"
  obtain r1 r2 r3 where "MustRegister takes ?cs [] = Some r1" "MustRegister takes [GoCollector] r1 = Some r2"
    "MustRegister takes [ProcessCollector] r2 = Some r3" "m = ?u\<lparr>m_Registry := r3\<rparr>"
    using assms unfolding NewMetrics_def Let_def bind_eq_Some_conv by blast
  note r = this
  have "r1 = ?cs" "r2 = r1 @ [GoCollector]" "r3 = r2 @ [ProcessCollector]"
    using MustRegister_Some [OF r(1)] MustRegister_Some [OF r(2)] MustRegister_Some [OF r(3)] by simp_all
  then show ?thesis using r(4) by simp
qed

lemma metrics_kinds [simp]:
  "m_JobsLeased unregistered \<noteq> m_JobsCompleted unregistered" "m_JobsLeased unregistered \<noteq> m_JobsDead unregistered"
  "m_JobsCompleted unregistered \<noteq> m_JobsLeased unregistered" "m_JobsCompleted unregistered \<noteq> m_JobsDead unregistered"
  "m_JobsDead unregistered \<noteq> m_JobsLeased unregistered" "m_JobsDead unregistered \<noteq> m_JobsCompleted unregistered"
  "m_JobsLeased unregistered \<noteq> m_JobQueueDepth unregistered" "m_JobsCompleted unregistered \<noteq> m_JobQueueDepth unregistered"
  "m_JobsDead unregistered \<noteq> m_JobQueueDepth unregistered" "m_JobDuration unregistered \<noteq> m_JobQueueDepth unregistered"
  "m_RequestsTotal unregistered \<noteq> m_InFlight unregistered" "m_RequestDuration unregistered \<noteq> m_InFlight unregistered"
  "m_InFlight unregistered \<noteq> m_RequestsTotal unregistered" "m_InFlight unregistered \<noteq> m_RequestDuration unregistered"
  by (simp_all add: unregistered_def)

text \<open>The documented contract of a registry: it takes a collector whose name no registered one has. The
  process-wide collectors have names of their own.\<close>

fun name_of :: "collector \<Rightarrow> string option" where
  "name_of (CounterVec d) = Some (ds_Name d)"
| "name_of (HistogramVec d b) = Some (ds_Name d)"
| "name_of (Gauge d) = Some (ds_Name d)"
| "name_of (GaugeVec d) = Some (ds_Name d)"
| "name_of GoCollector = None"
| "name_of ProcessCollector = None"

definition by_name :: "registry \<Rightarrow> collector \<Rightarrow> bool" where
  "by_name reg c = (c \<notin> set reg \<and> (case name_of c of None \<Rightarrow> True | Some n \<Rightarrow> Some n \<notin> name_of ` set reg))"

text \<open>Registration does not panic, and the buckets are increasing, as a histogram requires.\<close>

lemma NewMetrics_by_name: "\<exists>m. NewMetrics by_name = Some m"
  by (simp add: NewMetrics_def Let_def by_name_def unregistered_def)

lemma buckets_increasing: "sorted_wrt (<) durationBuckets"
  by (simp add: durationBuckets_def)

end
