(* ===== verification/Leaser.thy ===== *)
theory Leaser
  imports Queue Collectors
begin

text \<open>
  The polling loop over the queue, \<^verbatim>\<open>internal/worker/queue/leaser.go\<close>: one tick (lease a batch,
  dispatch under the per-kind semaphores, give back what does not fit), the completion of a
  handler, the metrics both write, and the leaser as a transition system next to other workers. The
  handlers are not modelled here; how one ended is the argument of the completion. Logging is left out.
\<close>

section \<open>Configuration\<close>

text \<open>
  The kinds of a leaser and their \<^verbatim>\<open>Concurrency\<close>, an association list for the Go map; the
  handler of a kind is whatever ends its jobs.
\<close>

record Leaser =
  le_queue :: Queue
  le_worker :: string
  le_kinds :: "(string \<times> int) list"
  le_interval :: duration
  le_metrics :: LeaseMetrics

record LeaserOptions =
  lo_queue :: "Queue option"
  lo_worker :: string
  lo_kinds :: "(string \<times> int) list"
  lo_interval :: duration
  lo_metrics :: "LeaseMetrics option"

definition NewLeaser :: "LeaserOptions option \<Rightarrow> Leaser result" where
  "NewLeaser opts =
     (case opts of
        None \<Rightarrow> Inl (New ''queue.NewLeaser: nil queue'')
      | Some o' \<Rightarrow>
          (case lo_queue o' of
             None \<Rightarrow> Inl (New ''queue.NewLeaser: nil queue'')
           | Some q \<Rightarrow>
               if lo_worker o' = [] then Inl (New ''queue.NewLeaser: WorkerID is required'')
               else if length (lo_kinds o') = 0
               then Inl (New ''queue.NewLeaser: at least one kind required'')
               else Inr \<lparr>le_queue = q, le_worker = lo_worker o', le_kinds = lo_kinds o',
                      le_interval = (if lo_interval o' \<le> 0 then 2 * second else lo_interval o'),
                      le_metrics = (case lo_metrics o' of None \<Rightarrow> NoopMetrics | Some m \<Rightarrow> m)\<rparr>))"

text \<open>The capacity \<^verbatim>\<open>buildSemaphores\<close> gives the channel of a kind; \<open>None\<close> is no channel.\<close>

definition buildSemaphores :: "Leaser \<Rightarrow> string \<rightharpoonup> nat" where
  "buildSemaphores l kind =
     (case map_of (le_kinds l) kind of
        None \<Rightarrow> None
      | Some n \<Rightarrow> Some (nat (if n \<le> 0 then 1 else n)))"

definition kindList :: "Leaser \<Rightarrow> string list" where
  "kindList l = map fst (le_kinds l)"

definition totalBudget :: "Leaser \<Rightarrow> int" where
  "totalBudget l = sum_list (map (\<lambda>(k, n). if n \<le> 0 then 1 else n) (le_kinds l))"

section \<open>One tick\<close>

text \<open>What a call to the database meets: its fate, the clock, and the backoff environment.\<close>

record callctx =
  cc_exec :: exec
  cc_now :: time
  cc_env :: qenv

text \<open>
  The state: the jobs table, the number of slots taken in each semaphore, the jobs whose handlers are
  running, and the calls made on the collectors.
\<close>

record LeaserState =
  st_jobs :: jobs
  st_slots :: "string \<Rightarrow> nat"
  st_running :: "Job list"
  st_metrics :: metric_log

definition tick_job :: "Leaser \<Rightarrow> (Job \<Rightarrow> callctx) \<Rightarrow> Job \<Rightarrow> LeaserState \<Rightarrow> LeaserState" where
  "tick_job l ctx job st =
     (let c = ctx job in
      case buildSemaphores l (job_kind job) of
        None \<Rightarrow>
          st\<lparr>st_jobs := fst (Fail (cc_env c) (cc_exec c) (cc_now c) (le_queue l) (job_id job)
                (q_maxAttempt (le_queue l) + 1)
                (Some (Errorf [Lit ''leaser: no handler for kind '', Quo (job_kind job)])) (st_jobs st))\<rparr>
      | Some cap \<Rightarrow>
          if st_slots st (job_kind job) < cap
          then st\<lparr>st_slots := (st_slots st)(job_kind job := st_slots st (job_kind job) + 1),
                  st_running := st_running st @ [job],
                  st_metrics := JobLeased (le_metrics l) (job_kind job) (st_metrics st)\<rparr>
          else st\<lparr>st_jobs := fst (Fail (cc_env c) (cc_exec c) (cc_now c) (le_queue l) (job_id job)
                 (job_attempts job - 1) (Some (New ''leaser: concurrency cap'')) (st_jobs st))\<rparr>)"

definition tick :: "Leaser \<Rightarrow> exec \<Rightarrow> time \<Rightarrow> nat set \<Rightarrow> (Job \<Rightarrow> callctx) \<Rightarrow> LeaserState
    \<Rightarrow> LeaserState \<times> goerr option" where
  "tick l db now locked ctx st =
     (case Lease db now locked (le_worker l) (kindList l) (totalBudget l) (st_jobs st) of
        (js, Inl e) \<Rightarrow> (st\<lparr>st_jobs := js\<rparr>, Some (Errorf [Lit ''lease: '', Wrap e]))
      | (js, Inr handed) \<Rightarrow> (fold (tick_job l ctx) handed (st\<lparr>st_jobs := js\<rparr>), None))"

section \<open>Completion of a handler\<close>

datatype outcome = Returned "goerr option" | Panicked string

fun runHandler :: "outcome \<Rightarrow> goerr option" where
  "runHandler (Returned e) = e"
| "runHandler (Panicked v) = Some (Errorf [Lit ''panic: '', Lit v])"

definition finalize :: "Leaser \<Rightarrow> callctx \<Rightarrow> Job \<Rightarrow> goerr option \<Rightarrow> jobs \<times> metric_log \<Rightarrow> (jobs \<times> metric_log) \<times> string" where
  "finalize l c job handlerErr s =
     (case s of (js, ms) \<Rightarrow>
      case handlerErr of
        None \<Rightarrow> ((fst (Succeed (cc_exec c) (job_id job) js), ms), ''ok'')
      | Some e \<Rightarrow>
          (let js' = fst (Fail (cc_env c) (cc_exec c) (cc_now c) (le_queue l) (job_id job) (job_attempts job) (Some e) js) in
           if job_attempts job \<ge> q_maxAttempt (le_queue l)
           then ((js', JobDead (le_metrics l) (job_kind job) ms), ''dead'')
           else ((js', ms), ''error'')))"

text \<open>\<^verbatim>\<open>dispatch\<close> once the handler is over: the outcome is persisted and counted, then the slot is given
  back; \<open>dur\<close> is the time since its start.\<close>

definition dispatch_end :: "Leaser \<Rightarrow> callctx \<Rightarrow> outcome \<Rightarrow> duration \<Rightarrow> Job \<Rightarrow> LeaserState \<Rightarrow> LeaserState" where
  "dispatch_end l c out dur job st =
     (case finalize l c job (runHandler out) (st_jobs st, st_metrics st) of
        ((js, ms), result) \<Rightarrow>
          st\<lparr>st_jobs := js,
             st_slots := (st_slots st)(job_kind job := st_slots st (job_kind job) - 1),
             st_running := remove1 job (st_running st),
             st_metrics := JobCompleted (le_metrics l) (job_kind job) result dur ms\<rparr>)"

section \<open>The loop\<close>

text \<open>
  What \<^verbatim>\<open>Run\<close> meets, in order: a tick of the clock with what its calls meet, the end of a handler, the
  cancellation of the context. After the cancellation it only waits for the handlers; a list of events
  that runs out before that is a \<^verbatim>\<open>Run\<close> that has not returned, \<open>None\<close>. The error of a tick is logged.
\<close>

datatype levent =
    Polled exec time "nat set" "Job \<Rightarrow> callctx"
  | Ended Job callctx outcome duration
  | Cancelled

fun leaser_event :: "Leaser \<Rightarrow> levent \<Rightarrow> LeaserState \<Rightarrow> LeaserState" where
  "leaser_event l (Polled db now locked ctx) st = fst (tick l db now locked ctx st)"
| "leaser_event l (Ended job c out dur) st =
     (if job \<in> set (st_running st) then dispatch_end l c out dur job st else st)"
| "leaser_event l Cancelled st = st"

fun drain :: "Leaser \<Rightarrow> levent list \<Rightarrow> LeaserState \<Rightarrow> LeaserState option" where
  "drain l [] st = (if st_running st = [] then Some st else None)"
| "drain l (e # es) st =
     (if st_running st = [] then Some st
      else case e of Ended _ _ _ _ \<Rightarrow> drain l es (leaser_event l e st) | _ \<Rightarrow> drain l es st)"

fun leaser_Run :: "Leaser \<Rightarrow> levent list \<Rightarrow> LeaserState \<Rightarrow> (LeaserState \<times> goerr option) option" where
  "leaser_Run l [] st = None"
| "leaser_Run l (Cancelled # es) st = map_option (\<lambda>st'. (st', None)) (drain l es st)"
| "leaser_Run l (e # es) st = leaser_Run l es (leaser_event l e st)"

section \<open>The leaser among other workers\<close>

text \<open>
  The leaser ticks and its handlers end, in any order; in between the rest of the system steps
  the queue, without completing the jobs this leaser is running (nobody else holds their ids).
\<close>

inductive lstep :: "Leaser \<Rightarrow> LeaserState \<Rightarrow> qlabel option \<Rightarrow> LeaserState \<Rightarrow> bool" for l where
  lstep_tick: "tick l db now locked ctx st = (st', err) \<Longrightarrow> lstep l st None st'"
| lstep_end: "job \<in> set (st_running st) \<Longrightarrow> lstep l st None (dispatch_end l c out dur job st)"
| lstep_other: "qstep (le_queue l) (st_jobs st) lab js' \<Longrightarrow>
    \<forall>j \<in> set (st_running st). not_completing (job_id j) lab \<Longrightarrow>
    lstep l st (Some lab) (st\<lparr>st_jobs := js'\<rparr>)"

definition idle :: "jobs \<Rightarrow> LeaserState" where
  "idle js = \<lparr>st_jobs = js, st_slots = (\<lambda>_. 0), st_running = [], st_metrics = []\<rparr>"

definition leaser_inv :: "Leaser \<Rightarrow> LeaserState \<Rightarrow> bool" where
  "leaser_inv l st =
     (jobs_wf (st_jobs st)
      \<and> (\<forall>k. st_slots st k = length (filter (\<lambda>j. job_kind j = k) (st_running st)))
      \<and> (\<forall>k. st_slots st k \<le> (case buildSemaphores l k of None \<Rightarrow> 0 | Some cap \<Rightarrow> cap))
      \<and> distinct (map job_id (st_running st))
      \<and> (\<forall>j \<in> set (st_running st). held (job_id j) (le_worker l) (st_jobs st)))"

text \<open>A completion of another job keeps a held job held.\<close>

lemma held_Fail:
  assumes "held i w js" and "i' \<noteq> i"
  shows "held i w (fst (Fail env db now q i' a cause js))"
  by (rule held_step [OF assms(1), of "LFail i' a" q])
    (use assms(2) in \<open>auto intro: step_fail simp: prod_eq_iff\<close>)

lemma wf_Fail: "jobs_wf js \<Longrightarrow> jobs_wf (fst (Fail env db now q i a cause js))"
  by (rule qstep_wf [of q js "LFail i a"]) (auto intro: step_fail simp: prod_eq_iff)

lemma held_Succeed:
  assumes "held i w js" and "i' \<noteq> i"
  shows "held i w (fst (Succeed db i' js))"
  by (rule held_step [OF assms(1), of "LSucceed i'"])
    (use assms(2) in \<open>auto intro: step_succeed simp: prod_eq_iff\<close>)

lemma wf_Succeed: "jobs_wf js \<Longrightarrow> jobs_wf (fst (Succeed db i js))"
  by (rule qstep_wf [of _ js "LSucceed i"]) (auto intro: step_succeed simp: prod_eq_iff)

lemma held_wf: "held i w js \<Longrightarrow> jobs_wf js"
  by (simp add: held_def)

text \<open>
  The invariant in the middle of a tick: the jobs still to be looked at are held too, and are
  none of the running ones.
\<close>

definition tick_inv :: "Leaser \<Rightarrow> Job list \<Rightarrow> LeaserState \<Rightarrow> bool" where
  "tick_inv l todo st = (leaser_inv l st \<and> distinct (map job_id (st_running st @ todo))
     \<and> (\<forall>j \<in> set todo. held (job_id j) (le_worker l) (st_jobs st)))"

lemma tick_job_inv:
  assumes "tick_inv l (job # todo) st"
  shows "tick_inv l todo (tick_job l ctx job st)"
proof -
  have inv: "leaser_inv l st" and dist: "distinct (map job_id (st_running st @ job # todo))"
    and held: "\<forall>j \<in> set (job # todo). held (job_id j) (le_worker l) (st_jobs st)"
    using assms by (auto simp: tick_inv_def)
  have others: "\<forall>j \<in> set (st_running st) \<union> set todo. job_id job \<noteq> job_id j
      \<and> held (job_id j) (le_worker l) (st_jobs st)"
    using inv dist held by (auto simp: leaser_inv_def)
  have given_back: "tick_inv l todo (st\<lparr>st_jobs := fst (Fail env db now q (job_id job) a cause (st_jobs st))\<rparr>)"
    for env db now q a cause
    using inv dist others by (auto simp: tick_inv_def leaser_inv_def intro: held_Fail wf_Fail)
  show ?thesis
  proof (cases "buildSemaphores l (job_kind job)")
    case None
    then show ?thesis using given_back by (simp add: tick_job_def Let_def)
  next
    case (Some cap)
    show ?thesis
    proof (cases "st_slots st (job_kind job) < cap")
      case False
      then show ?thesis using given_back Some by (simp add: tick_job_def Let_def)
    next
      case True
      then show ?thesis
        using inv dist held Some by (auto simp: tick_job_def Let_def tick_inv_def leaser_inv_def)
    qed
  qed
qed

lemma fold_tick_inv: "tick_inv l todo st \<Longrightarrow> leaser_inv l (fold (tick_job l ctx) todo st)"
proof (induction todo arbitrary: st)
  case Nil
  then show ?case by (simp add: tick_inv_def)
next
  case (Cons job todo)
  then show ?case using tick_job_inv by simp
qed

lemma tick_inv_lease:
  assumes "leaser_inv l st" and "Lease db now locked (le_worker l) kinds n (st_jobs st) = (js, Inr handed)"
  shows "tick_inv l handed (st\<lparr>st_jobs := js\<rparr>)"
proof -
  have wf: "jobs_wf (st_jobs st)" using assms(1) by (simp add: leaser_inv_def)
  from step_lease [OF assms(2)]
  have step: "qstep (le_queue l) (st_jobs st) (LLease (le_worker l) handed) js" by simp
  have "held (job_id j) (le_worker l) js" if "j \<in> set handed" for j
    using lease_step_hands [OF wf step that] by blast
  moreover have "held (job_id j) (le_worker l) js \<and> job_id j \<notin> job_id ` set handed"
    if "j \<in> set (st_running st)" for j
  proof -
    have h: "held (job_id j) (le_worker l) (st_jobs st)" using assms(1) that by (simp add: leaser_inv_def)
    then show ?thesis using held_step [OF h _ step] lease_not_held [OF h step] by simp
  qed
  moreover have "distinct (map job_id handed)"
    by (rule Lease_handed_distinct [OF wf assms(2)])
  ultimately show ?thesis
    using assms(1) qstep_wf [OF step wf] unfolding tick_inv_def leaser_inv_def by auto
qed

lemma tick_keeps_inv:
  assumes "leaser_inv l st" and "tick l db now locked ctx st = (st', err)"
  shows "leaser_inv l st'"
proof -
  obtain js res where le: "Lease db now locked (le_worker l) (kindList l) (totalBudget l) (st_jobs st) = (js, res)"
    by fastforce
  show ?thesis
  proof (cases res)
    case (Inl e)
    have step: "qstep (le_queue l) (st_jobs st) (LLease (le_worker l) []) js"
      using step_lease [OF le] Inl by simp
    have st': "st' = st\<lparr>st_jobs := js\<rparr>" using assms(2) le Inl by (simp add: tick_def)
    show ?thesis
      using assms(1) qstep_wf [OF step] held_step [OF _ _ step] by (auto simp: st' leaser_inv_def)
  next
    case (Inr handed)
    then show ?thesis
      using assms(2) le fold_tick_inv [OF tick_inv_lease [OF assms(1)]] by (auto simp: tick_def)
  qed
qed

lemma end_keeps_inv:
  assumes "leaser_inv l st" and "job \<in> set (st_running st)"
  shows "leaser_inv l (dispatch_end l c out dur job st)"
proof -
  let ?js = "fst (fst (finalize l c job (runHandler out) (st_jobs st, st_metrics st)))"
  have wf: "jobs_wf ?js"
    using assms(1) by (auto simp: finalize_def leaser_inv_def Let_def intro: wf_Fail wf_Succeed split: option.splits)
  have held: "held (job_id j) (le_worker l) ?js" if "j \<in> set (remove1 job (st_running st))" for j
  proof -
    have "distinct (st_running st)" and inj: "inj_on job_id (set (st_running st))"
      using assms(1) by (auto simp: leaser_inv_def distinct_map)
    then have "j \<noteq> job" "j \<in> set (st_running st)" using that by (auto simp: set_remove1_eq)
    then have "job_id job \<noteq> job_id j" using inj assms(2) by (auto dest: inj_onD)
    then show ?thesis
      using assms(1) \<open>j \<in> set (st_running st)\<close>
      by (auto simp: finalize_def leaser_inv_def Let_def intro: held_Fail held_Succeed split: option.splits)
  qed
  have dist: "distinct (map job_id (remove1 job (st_running st)))"
    using assms(1) by (auto simp: leaser_inv_def distinct_map set_remove1_eq intro: inj_on_subset)
  have slots: "((st_slots st)(job_kind job := st_slots st (job_kind job) - 1)) k =
      length (filter (\<lambda>j. job_kind j = k) (remove1 job (st_running st)))" for k
    using assms by (auto simp: leaser_inv_def filter_remove1 length_remove1)
  have "((st_slots st)(job_kind job := st_slots st (job_kind job) - 1)) k \<le> st_slots st k" for k by simp
  then have "((st_slots st)(job_kind job := st_slots st (job_kind job) - 1)) k \<le>
      (case buildSemaphores l k of None \<Rightarrow> 0 | Some cap \<Rightarrow> cap)" for k
    using assms(1) unfolding leaser_inv_def by (meson le_trans)
  then show ?thesis
    using wf held dist slots by (simp add: dispatch_end_def leaser_inv_def case_prod_unfold)
qed

lemma dispatch_end_jobs:
  "st_jobs (dispatch_end l c out dur job st) = fst (fst (finalize l c job (runHandler out) (st_jobs st, st_metrics st)))"
  by (simp add: dispatch_end_def case_prod_unfold)

lemma finalize_error:
  "fst (fst (finalize l c job (Some e) (js, ms))) =
     fst (Fail (cc_env c) (cc_exec c) (cc_now c) (le_queue l) (job_id job) (job_attempts job) (Some e) js)"
  by (simp add: finalize_def Let_def)

lemma lstep_inv:
  assumes "leaser_inv l st" and "lstep l st lab st'"
  shows "leaser_inv l st'"
  using assms(2)
proof cases
  case (lstep_tick db now locked ctx err)
  then show ?thesis using tick_keeps_inv assms(1) by blast
next
  case (lstep_end job c out dur)
  then show ?thesis using end_keeps_inv assms(1) by blast
next
  case (lstep_other qlab js')
  then show ?thesis
    using assms(1) qstep_wf [OF lstep_other(3)] held_step [OF _ _ lstep_other(3)]
    by (auto simp: leaser_inv_def)
qed

interpretation linv: stable_under "lstep l" "leaser_inv l" "\<lambda>_. True" for l
  by unfold_locales (blast intro: lstep_inv)

lemma semaphore_cap:
  "buildSemaphores l k = map_option (\<lambda>n. nat (max 1 n)) (map_of (le_kinds l) k)"
  by (simp add: buildSemaphores_def max_def split: option.split)

lemma case_map_option: "(case map_option f x of None \<Rightarrow> a | Some y \<Rightarrow> g y) = (case x of None \<Rightarrow> a | Some y \<Rightarrow> g (f y))"
  by (cases x) simp_all

text \<open>An acknowledged failure rewrites the row of the job and no other.\<close>

lemma Fail_Acked:
  assumes "jobs_wf js"
  shows "\<exists>f. fst (Fail env Acked now q i a cause js) = map (\<lambda>x. if j_id x = i then f x else x) js
    \<and> (\<forall>x. j_id (f x) = j_id x \<and> j_locked_by (f x) = None
          \<and> j_state (f x) = (if a \<ge> q_maxAttempt q then Dead else Queued))"
proof (cases "a \<ge> q_maxAttempt q")
  case True
  let ?f = "\<lambda>r. r\<lparr>j_state := Dead, j_locked_by := None, j_locked_at := None, j_updated := now,
        j_payload := dead_payload (errString (e_uni env) cause) (j_payload r)\<rparr>"
  show ?thesis
    using True by (intro exI [of _ ?f]) (simp add: Fail_def dead_stmt_wf [OF assms] dead_letter_def)
next
  case False
  let ?f = "\<lambda>r. r\<lparr>j_state := Queued, j_locked_by := None, j_locked_at := None,
       j_run_after := now + (backoff (e_ovf env) (e_rnd env) q a div 1000000) * 1000000, j_updated := now\<rparr>"
  show ?thesis
    using False by (intro exI [of _ ?f]) (simp add: Fail_def requeue_stmt_def Let_def)
qed

lemma run_leaser_inv:
  assumes "run (qstep (le_queue l)) [] ls0 js0" and "run (lstep l) (idle js0) ls st"
  shows "leaser_inv l st"
proof -
  have "leaser_inv l (idle js0)"
    using run_wf [OF assms(1)] by (simp add: leaser_inv_def idle_def)
  then show ?thesis using linv.run_stable [OF assms(2)] by (simp add: list_all_iff)
qed

text \<open>The loop only makes steps of the leaser, and waiting ends once every running handler has ended.\<close>

lemma event_run: "\<exists>ls. run (lstep l) st ls (leaser_event l e st)"
proof (cases e)
  case (Polled db now locked ctx)
  have "lstep l st None (fst (tick l db now locked ctx st))" by (rule lstep_tick) (rule prod.collapse [symmetric])
  then show ?thesis unfolding Polled by (auto intro: run_cons run_nil)
next
  case (Ended job c out dur)
  have "lstep l st None (dispatch_end l c out dur job st)" if "job \<in> set (st_running st)" by (rule lstep_end [OF that])
  then show ?thesis unfolding Ended by (auto intro: run_cons run_nil)
qed (auto intro: run_nil)

lemma events_run: "\<exists>ls. run (lstep l) st ls (fold (leaser_event l) es st)"
proof (induction es arbitrary: st)
  case (Cons e es)
  obtain xs ys where "run (lstep l) st xs (leaser_event l e st)"
    "run (lstep l) (leaser_event l e st) ys (fold (leaser_event l) es (leaser_event l e st))" using Cons event_run by blast
  then show ?case by (auto simp: run_append intro!: exI [of _ "xs @ ys"])
qed (auto intro: run_nil)

lemma leaser_Run_cancelled:
  "Cancelled \<notin> set es \<Longrightarrow>
     leaser_Run l (es @ Cancelled # es') st = map_option (\<lambda>st'. (st', None)) (drain l es' (fold (leaser_event l) es st))"
proof (induction es arbitrary: st)
  case (Cons e es)
  then show ?case by (cases e) simp_all
qed simp

lemma drain_run: "drain l es st = Some st' \<Longrightarrow> st_running st' = [] \<and> (\<exists>ls. run (lstep l) st ls st')"
proof (induction es arbitrary: st)
  case Nil
  then show ?case by (auto intro: run_nil split: if_splits)
next
  case (Cons e es)
  consider "st_running st = []" "st' = st" | "drain l es (leaser_event l e st) = Some st'" | "drain l es st = Some st'"
    using Cons.prems by (cases "st_running st = []"; cases e) (simp_all del: leaser_event.simps)
  then show ?case
  proof cases
    case 2
    obtain xs where xs: "run (lstep l) st xs (leaser_event l e st)" using event_run by blast
    obtain ys where ys: "run (lstep l) (leaser_event l e st) ys st'" "st_running st' = []" using Cons.IH [OF 2] by blast
    have "run (lstep l) st (xs @ ys) st'" unfolding run_append using xs ys(1) by blast
    then show ?thesis using ys(2) by blast
  qed (use Cons.IH in \<open>auto intro: run_nil\<close>)
qed

lemma drain_returns:
  assumes "distinct (st_running st)" and "\<forall>j \<in> set (st_running st). \<exists>c out dur. Ended j c out dur \<in> set es"
  shows "\<exists>st'. drain l es st = Some st'"
  using assms
proof (induction es arbitrary: st)
  case (Cons e es)
  show ?case
  proof (cases e)
    case (Ended job c out dur)
    have r: "st_running (leaser_event l e st) = remove1 job (st_running st)"
      by (auto simp: Ended dispatch_end_def remove1_idem split: prod.split)
    have "\<exists>st'. drain l es (leaser_event l e st) = Some st'"
      by (rule Cons.IH; unfold r) (use Cons.prems in \<open>auto simp: Ended set_remove1_eq\<close>)
    then show ?thesis by (simp add: Ended)
  next
    case (Polled db now locked ctx)
    then show ?thesis using Cons by auto
  next
    case Cancelled
    then show ?thesis using Cons by auto
  qed
qed (simp add: list_all_iff)

section \<open>Metrics\<close>

text \<open>
  What the metrics say of a leaser: every call is on a registered collector with the right number of label
  values; per kind, the jobs leased are the jobs completed and the ones running, each completion observed
  once and the dead ones counted twice; the gauge of the queue depth is never written.
\<close>

definition metric_inv :: "Metrics \<Rightarrow> LeaserState \<Rightarrow> bool" where
  "metric_inv m st =
     (list_all (\<lambda>x. call_ok m x \<and> written x \<noteq> m_JobQueueDepth m) (st_metrics st)
      \<and> (\<forall>k. counter (m_JobsLeased m) [k] (st_metrics st) =
              sum_list (map (\<lambda>r. counter (m_JobsCompleted m) [k, r] (st_metrics st)) [''ok'', ''error'', ''dead''])
              + length (filter (\<lambda>j. job_kind j = k) (st_running st))
          \<and> observed (m_JobDuration m) [k] (st_metrics st) =
              sum_list (map (\<lambda>r. counter (m_JobsCompleted m) [k, r] (st_metrics st)) [''ok'', ''error'', ''dead''])
          \<and> counter (m_JobsDead m) [k] (st_metrics st) = counter (m_JobsCompleted m) [k, ''dead''] (st_metrics st)))"

lemma finalize_cases:
  obtains js ms' where "finalize l c job err (js0, ms) = ((js, ms'), ''ok'')" "ms' = ms"
  | js ms' where "finalize l c job err (js0, ms) = ((js, ms'), ''error'')" "ms' = ms"
  | js ms' where "finalize l c job err (js0, ms) = ((js, ms'), ''dead'')" "ms' = JobDead (le_metrics l) (job_kind job) ms"
  by (cases err; cases "job_attempts job \<ge> q_maxAttempt (le_queue l)") (auto simp: finalize_def Let_def)

text \<open>The facts about the collectors \<^verbatim>\<open>NewMetrics\<close> builds that the counting needs.\<close>

lemma built_metrics:
  assumes "NewMetrics takes = Some m"
  shows "call_ok m (MInc (m_JobsLeased m) [k]) \<and> call_ok m (MInc (m_JobsCompleted m) [k, r]) \<and> call_ok m (MInc (m_JobsDead m) [k])
      \<and> call_ok m (MObserve (m_JobDuration m) [k] d)"
    and "m_JobsLeased m \<noteq> m_JobsCompleted m \<and> m_JobsLeased m \<noteq> m_JobsDead m \<and> m_JobsCompleted m \<noteq> m_JobsDead m
      \<and> m_JobQueueDepth m \<notin> {m_JobsLeased m, m_JobsCompleted m, m_JobsDead m, m_JobDuration m}"
  unfolding NewMetrics_eq [OF assms] by (simp_all add: unregistered_def)

lemma tick_job_metrics:
  assumes "NewMetrics takes = Some m" and "le_metrics l = newLeaseMetrics (Some m)" and "metric_inv m st"
  shows "metric_inv m (tick_job l ctx job st)"
proof -
  have "metric_inv m (st\<lparr>st_jobs := js\<rparr>)" for js using assms(3) by (simp add: metric_inv_def)
  moreover have "metric_inv m (st\<lparr>st_slots := sl, st_running := st_running st @ [job],
      st_metrics := st_metrics st @ [MInc (m_JobsLeased m) [job_kind job]]\<rparr>)" for sl
    using assms(3) built_metrics [OF assms(1)] by (auto simp: metric_inv_def)
  ultimately show ?thesis
    by (simp add: tick_job_def Let_def assms(2) newLeaseMetrics_def split: option.split)
qed

lemma tick_metrics:
  assumes "NewMetrics takes = Some m" and "le_metrics l = newLeaseMetrics (Some m)" and "metric_inv m st"
    and "tick l db now locked ctx st = (st', err)"
  shows "metric_inv m st'"
proof -
  have "metric_inv m s \<Longrightarrow> metric_inv m (fold (tick_job l ctx) jobs s)" for jobs s
    by (induction jobs arbitrary: s) (simp_all add: tick_job_metrics [OF assms(1,2)])
  moreover have "metric_inv m (st\<lparr>st_jobs := js\<rparr>)" for js using assms(3) by (simp add: metric_inv_def)
  ultimately show ?thesis using assms(4) by (auto simp: tick_def split: prod.splits sum.splits)
qed

lemma count_remove1:
  assumes "job \<in> set js"
  shows "length (filter (\<lambda>j. job_kind j = k) js) =
    length (filter (\<lambda>j. job_kind j = k) (remove1 job js)) + (if job_kind job = k then 1 else 0)"
proof (cases "job_kind job = k")
  case True
  then have "0 < length (filter (\<lambda>j. job_kind j = k) js)" using assms by (intro length_pos_if_in_set [of job]) simp
  then show ?thesis using True assms by (simp add: filter_remove1 length_remove1)
next
  case False
  then show ?thesis by (simp add: filter_remove1 remove1_idem)
qed

lemma end_metrics:
  assumes "NewMetrics takes = Some m" and "le_metrics l = newLeaseMetrics (Some m)" and "metric_inv m st"
    and "job \<in> set (st_running st)"
  shows "metric_inv m (dispatch_end l c out dur job st)"
proof -
  note b = built_metrics [OF assms(1)]
  note run = count_remove1 [OF assms(4)]
  show ?thesis
    by (rule finalize_cases [of l c job "runHandler out" "st_jobs st" "st_metrics st"])
      (use assms(3) b run in \<open>auto simp: dispatch_end_def metric_inv_def assms(2) newLeaseMetrics_def\<close>)
qed

lemma lstep_metrics:
  assumes "NewMetrics takes = Some m" and "le_metrics l = newLeaseMetrics (Some m)" and "metric_inv m st" and "lstep l st lab st'"
  shows "metric_inv m st'"
  using assms(4)
proof cases
  case (lstep_tick db now locked ctx err)
  then show ?thesis using tick_metrics [OF assms(1-3)] by blast
next
  case (lstep_end job c out dur)
  then show ?thesis using end_metrics [OF assms(1-3)] by blast
next
  case (lstep_other qlab js')
  then show ?thesis using assms(3) by (simp add: metric_inv_def)
qed

interpretation lmetrics: stable_under "lstep l"
    "\<lambda>st. NewMetrics takes = Some m \<longrightarrow> le_metrics l = newLeaseMetrics (Some m) \<longrightarrow> metric_inv m st" "\<lambda>_. True" for l takes m
  by unfold_locales (blast intro: lstep_metrics)

section \<open>Properties\<close>

text \<open>C13: The leaser never runs a job twice at the same time and never exceeds a kind's budget.
  In every state it can reach from an idle start over a table the queue produced, next to any
  steps of other workers and any database failures, the jobs whose handlers are running have
  distinct ids, each of their rows is leased by this worker, and no kind has more of them than
  its concurrency (at least one).\<close>

theorem leaser_runs_exclusively:
  assumes "run (qstep (le_queue l)) [] ls0 js0" and "run (lstep l) (idle js0) ls st"
  shows "distinct (map job_id (st_running st))
    \<and> (\<forall>j \<in> set (st_running st). held (job_id j) (le_worker l) (st_jobs st))
    \<and> (\<forall>k. length (filter (\<lambda>j. job_kind j = k) (st_running st)) \<le>
        (case map_of (le_kinds l) k of None \<Rightarrow> 0 | Some n \<Rightarrow> nat (max 1 n)))"
proof -
  have inv: "leaser_inv l st" using assms by (rule run_leaser_inv)
  then have "length (filter (\<lambda>j. job_kind j = k) (st_running st)) \<le>
        (case map_of (le_kinds l) k of None \<Rightarrow> 0 | Some n \<Rightarrow> nat (max 1 n))" for k
    unfolding leaser_inv_def semaphore_cap case_map_option by metis
  then show ?thesis using inv by (simp add: leaser_inv_def)
qed

definition demo_leaser :: Leaser where
  "demo_leaser = \<lparr>le_queue = demo_queue, le_worker = ''w'', le_kinds = [(''ingest'', 1)],
     le_interval = 2 * second, le_metrics = NoopMetrics\<rparr>"

definition demo_ctx :: "time \<Rightarrow> Job \<Rightarrow> callctx" where
  "demo_ctx t j = \<lparr>cc_exec = Acked, cc_now = t, cc_env = demo_env\<rparr>"

lemma demo_tick: "lstep demo_leaser (idle [demo_row]) None
   (fst (tick demo_leaser Acked 2000 {} (demo_ctx 2000) (idle [demo_row])))"
  by (rule lstep_tick) (rule prod.collapse [symmetric])

lemma demo_tick_running:
  "st_running (fst (tick demo_leaser Acked 2000 {} (demo_ctx 2000) (idle [demo_row]))) =
     [job_of (lease_row 2000 ''w'' demo_row)]"
  by code_simp

theorem leaser_runs_exclusively_witness:
  "held 7 ''w'' (st_jobs (fst (tick demo_leaser Acked 2000 {} (demo_ctx 2000) (idle [demo_row]))))"
proof -
  have "run (lstep demo_leaser) (idle [demo_row]) [None]
      (fst (tick demo_leaser Acked 2000 {} (demo_ctx 2000) (idle [demo_row])))"
    by (rule run_cons, rule demo_tick, rule run_nil)
  note l = leaser_runs_exclusively [OF demo_run1 this]
  have "le_worker demo_leaser = ''w''" "job_id (job_of (lease_row 2000 ''w'' demo_row)) = 7"
    by code_simp+
  with l show ?thesis unfolding demo_tick_running by simp
qed

text \<open>C14: The job metrics account for every job. For a leaser that writes to the collectors the process
  registers, in every state it reaches from an idle start, next to any steps of other workers and with any
  database failures: no call names an unregistered collector or passes a wrong number of label values
  (either would panic); per kind, the jobs leased are those completed with the result ok, error or dead
  plus those whose handler is running; each completion is one observation of the duration histogram; and
  the dead-job counter is the number of completions with the result dead. Nothing ever writes the gauge of
  the queue depth.\<close>

theorem job_metrics_account:
  assumes "NewMetrics takes = Some m" and "le_metrics l = newLeaseMetrics (Some m)" and "run (lstep l) (idle js0) ls st"
  shows "list_all (\<lambda>x. call_ok m x \<and> written x \<noteq> m_JobQueueDepth m) (st_metrics st)
    \<and> (\<forall>k. let completed = \<lambda>result. counter (m_JobsCompleted m) [k, result] (st_metrics st) in
         counter (m_JobsLeased m) [k] (st_metrics st) =
           completed ''ok'' + completed ''error'' + completed ''dead'' + length (filter (\<lambda>j. job_kind j = k) (st_running st))
       \<and> observed (m_JobDuration m) [k] (st_metrics st) = completed ''ok'' + completed ''error'' + completed ''dead''
       \<and> counter (m_JobsDead m) [k] (st_metrics st) = completed ''dead'')"
proof -
  have "metric_inv m (idle js0)" by (simp add: metric_inv_def idle_def)
  then have "metric_inv m st" using lmetrics.run_stable [OF assms(3)] assms(1,2) by (simp add: list_all_iff)
  then show ?thesis by (simp add: metric_inv_def Let_def)
qed

definition metered_leaser :: "Metrics \<Rightarrow> Leaser" where
  "metered_leaser m = demo_leaser\<lparr>le_metrics := newLeaseMetrics (Some m)\<rparr>"

lemma metered_tick_running:
  "st_running (fst (tick (metered_leaser m) Acked 2000 {} (demo_ctx 2000) (idle [demo_row]))) =
     [job_of (lease_row 2000 ''w'' demo_row)]"
  by code_simp

theorem job_metrics_account_witness:
  "\<exists>m. NewMetrics by_name = Some m
    \<and> (let st = fst (tick (metered_leaser m) Acked 2000 {} (demo_ctx 2000) (idle [demo_row]));
           completed = \<lambda>result. counter (m_JobsCompleted m) [''ingest'', result] (st_metrics st)
       in counter (m_JobsLeased m) [''ingest''] (st_metrics st) = completed ''ok'' + completed ''error'' + completed ''dead'' + 1)"
proof -
  obtain m where m: "NewMetrics by_name = Some m" using NewMetrics_by_name by blast
  let ?st = "fst (tick (metered_leaser m) Acked 2000 {} (demo_ctx 2000) (idle [demo_row]))"
  have "run (lstep (metered_leaser m)) (idle [demo_row]) [None] ?st"
    by (rule run_cons, rule lstep_tick, rule prod.collapse [symmetric], rule run_nil)
  moreover have "le_metrics (metered_leaser m) = newLeaseMetrics (Some m)" by (simp add: metered_leaser_def)
  moreover have "job_kind (job_of (lease_row 2000 ''w'' demo_row)) = ''ingest''" by code_simp
  ultimately have "counter (m_JobsLeased m) [''ingest''] (st_metrics ?st) =
      counter (m_JobsCompleted m) [''ingest'', ''ok''] (st_metrics ?st) + counter (m_JobsCompleted m) [''ingest'', ''error''] (st_metrics ?st)
      + counter (m_JobsCompleted m) [''ingest'', ''dead''] (st_metrics ?st) + 1"
    using job_metrics_account [OF m, of "metered_leaser m" "[demo_row]" "[None]" ?st]
    by (simp add: metered_tick_running Let_def)
  then show ?thesis using m by (intro exI [of _ m]) (simp only: Let_def)
qed

text \<open>The dead jobs a tick makes itself, those of a kind without a handler and those released over the cap
  too often, are on no metric: a tick leaves the dead-job counter and the completions as they are.\<close>

lemma tick_counts_no_dead:
  assumes "NewMetrics takes = Some m" and "le_metrics l = newLeaseMetrics (Some m)" and "c \<in> {m_JobsDead m, m_JobsCompleted m}"
  shows "counter c vs (st_metrics (fst (tick l db now locked ctx st))) = counter c vs (st_metrics st)"
proof -
  have "counter c vs (st_metrics (tick_job l ctx job s)) = counter c vs (st_metrics s)" for job s
    using assms(3) built_metrics(2) [OF assms(1)]
    by (auto simp: tick_job_def Let_def assms(2) newLeaseMetrics_def split: option.split)
  then have "counter c vs (st_metrics (fold (tick_job l ctx) jobs s)) = counter c vs (st_metrics s)" for jobs s
    by (induction jobs arbitrary: s) simp_all
  then show ?thesis by (simp add: tick_def split: prod.split sum.split)
qed

text \<open>C15: A cancelled leaser stops cleanly. Whatever ticks and completions come before the cancellation,
  once the handlers then running have ended \<^verbatim>\<open>Run\<close> returns, always without an error; no handler is left
  running, every slot is free, and the metrics have a completion for every job leased.\<close>

theorem leaser_stops:
  assumes "run (qstep (le_queue l)) [] ls0 js0" and "Cancelled \<notin> set es"
    and "\<forall>j \<in> set (st_running (fold (leaser_event l) es (idle js0))). \<exists>c out dur. Ended j c out dur \<in> set es'"
    and "NewMetrics takes = Some m" and "le_metrics l = newLeaseMetrics (Some m)"
  shows "\<exists>st. leaser_Run l (es @ Cancelled # es') (idle js0) = Some (st, None)
    \<and> st_running st = [] \<and> (\<forall>k. st_slots st k = 0)
    \<and> (\<forall>k. counter (m_JobsLeased m) [k] (st_metrics st) =
           sum_list (map (\<lambda>r. counter (m_JobsCompleted m) [k, r] (st_metrics st)) [''ok'', ''error'', ''dead'']))"
proof -
  let ?st = "fold (leaser_event l) es (idle js0)"
  obtain ls where ls: "run (lstep l) (idle js0) ls ?st" using events_run by blast
  have "leaser_inv l ?st" by (rule run_leaser_inv [OF assms(1) ls])
  then have "distinct (st_running ?st)" by (simp add: leaser_inv_def distinct_map)
  then obtain st where st: "drain l es' ?st = Some st" using drain_returns [OF _ assms(3)] by blast
  obtain ls' where ls': "run (lstep l) ?st ls' st" and idle: "st_running st = []" using drain_run [OF st] by blast
  have run: "run (lstep l) (idle js0) (ls @ ls') st" using ls ls' by (auto simp: run_append)
  have inv: "leaser_inv l st" by (rule run_leaser_inv [OF assms(1) run])
  have "metric_inv m (idle js0)" by (simp add: metric_inv_def idle_def)
  then have "metric_inv m st" using lmetrics.run_stable [OF run] assms(4,5) by (simp add: list_all_iff)
  then show ?thesis using idle inv st by (simp add: leaser_Run_cancelled [OF assms(2)] leaser_inv_def metric_inv_def)
qed

theorem leaser_stops_witness:
  "\<exists>m st. NewMetrics by_name = Some m
    \<and> leaser_Run (metered_leaser m) [Polled Acked 2000 {} (demo_ctx 2000), Cancelled,
         Ended (job_of (lease_row 2000 ''w'' demo_row)) (demo_ctx 9000 undefined) (Returned None) 7] (idle [demo_row]) = Some (st, None)
    \<and> st_running st = []"
proof -
  obtain m where m: "NewMetrics by_name = Some m" using NewMetrics_by_name by blast
  let ?es = "[Polled Acked 2000 {} (demo_ctx 2000)]" and ?job = "job_of (lease_row 2000 ''w'' demo_row)"
  have q: "le_queue (metered_leaser m) = le_queue demo_leaser" by (simp add: metered_leaser_def)
  have lm: "le_metrics (metered_leaser m) = newLeaseMetrics (Some m)" by (simp add: metered_leaser_def)
  have "run (qstep (le_queue (metered_leaser m))) [] [LEnqueue ''ingest'' ''k''] [demo_row]" unfolding q by (rule demo_run1)
  moreover have "\<forall>j \<in> set (st_running (fold (leaser_event (metered_leaser m)) ?es (idle [demo_row]))).
      \<exists>c out dur. Ended j c out dur \<in> set [Ended ?job (demo_ctx 9000 undefined) (Returned None) 7]"
    by (auto simp: metered_tick_running)
  ultimately show ?thesis
    using leaser_stops [OF _ _ _ m lm, of "[LEnqueue ''ingest'' ''k'']" "[demo_row]" ?es "[Ended ?job (demo_ctx 9000 undefined) (Returned None) 7]"] m
    by fastforce
qed

text \<open>How a handler ends decides the row. When the database answers, success deletes the row
  of the job; an error or a panic puts it back in the queue while the attempts are below the
  budget and dead-letters it from then on; the rows of all other jobs are untouched, and the
  slot of the job's kind is free again.\<close>

theorem dispatch_outcome:
  assumes "run (qstep (le_queue l)) [] ls0 js0" and "run (lstep l) (idle js0) ls st"
    and "job \<in> set (st_running st)" and "cc_exec c = Acked"
  shows "(let st' = dispatch_end l c out dur job st in
    {r \<in> set (st_jobs st'). j_id r \<noteq> job_id job} = {r \<in> set (st_jobs st). j_id r \<noteq> job_id job}
    \<and> st_slots st' (job_kind job) + 1 = st_slots st (job_kind job)
    \<and> (if out = Returned None then job_id job \<notin> j_id ` set (st_jobs st')
       else \<exists>r \<in> set (st_jobs st'). j_id r = job_id job \<and> j_locked_by r = None
         \<and> j_state r = (if job_attempts job \<ge> q_maxAttempt (le_queue l) then Dead else Queued)))"
proof -
  have inv: "leaser_inv l st" using assms(1,2) by (rule run_leaser_inv)
  have wf: "jobs_wf (st_jobs st)" and h: "held (job_id job) (le_worker l) (st_jobs st)"
    and slot: "st_slots st (job_kind job) > 0"
    using inv assms(3) by (auto simp: leaser_inv_def filter_empty_conv)
  obtain r where r: "r \<in> set (st_jobs st)" "j_id r = job_id job" using h by (auto simp: held_def)
  show ?thesis
  proof (cases "out = Returned None")
    case True
    then show ?thesis
      using slot assms(4) by (auto simp: dispatch_end_def Let_def finalize_def Succeed_def succeed_stmt_def)
  next
    case False
    then obtain e where e: "runHandler out = Some e" by (cases out) auto
    obtain f where js': "st_jobs (dispatch_end l c out dur job st) =
        map (\<lambda>x. if j_id x = job_id job then f x else x) (st_jobs st)"
      and f: "\<forall>x. j_id (f x) = j_id x \<and> j_locked_by (f x) = None
        \<and> j_state (f x) = (if job_attempts job \<ge> q_maxAttempt (le_queue l) then Dead else Queued)"
      using Fail_Acked [OF wf] assms(4) unfolding dispatch_end_jobs e finalize_error by force
    have "f r \<in> set (st_jobs (dispatch_end l c out dur job st))"
      unfolding js' set_map using r by (intro image_eqI [of _ _ r]) simp_all
    moreover have "{x \<in> set (st_jobs (dispatch_end l c out dur job st)). j_id x \<noteq> job_id job} =
        {x \<in> set (st_jobs st). j_id x \<noteq> job_id job}"
      unfolding js' using f by auto
    moreover have "st_slots (dispatch_end l c out dur job st) (job_kind job) + 1 = st_slots st (job_kind job)"
      using slot by (simp add: dispatch_end_def case_prod_unfold)
    ultimately show ?thesis
      using False f r(2) unfolding Let_def by (auto intro!: bexI [of _ "f r"])
  qed
qed

theorem dispatch_outcome_witness:
  "7 \<notin> j_id ` set (st_jobs (dispatch_end demo_leaser (demo_ctx 9000 undefined) (Returned None) 7
     (job_of (lease_row 2000 ''w'' demo_row))
     (fst (tick demo_leaser Acked 2000 {} (demo_ctx 2000) (idle [demo_row])))))"
proof -
  have r: "run (lstep demo_leaser) (idle [demo_row]) [None]
      (fst (tick demo_leaser Acked 2000 {} (demo_ctx 2000) (idle [demo_row])))"
    by (rule run_cons, rule demo_tick, rule run_nil)
  have "job_id (job_of (lease_row 2000 ''w'' demo_row)) = 7" by code_simp
  moreover have "cc_exec (demo_ctx 9000 undefined) = Acked" by (simp add: demo_ctx_def)
  ultimately show ?thesis
    using dispatch_outcome [OF demo_run1 r, of "job_of (lease_row 2000 ''w'' demo_row)" "demo_ctx 9000 undefined" "Returned None" 7]
    unfolding demo_tick_running Let_def by simp
qed

text \<open>
  A leaser whose only slot is taken by a long-running job: the table has that job's row and one
  queued row, and the leaser keeps ticking.
\<close>

definition busy_row :: JobRow where
  "busy_row = \<lparr>j_id = 1, j_kind = ''ingest'', j_dedup = ''long'', j_payload = JObj [], j_state = Leased,
     j_attempts = 1, j_locked_by = Some ''w'', j_locked_at = Some 0, j_run_after = 0, j_created = 0,
     j_updated = 0\<rparr>"

definition busy_state :: LeaserState where
  "busy_state = \<lparr>st_jobs = [busy_row, demo_row], st_slots = (\<lambda>k. if k = ''ingest'' then 1 else 0),
     st_running = [job_of busy_row], st_metrics = []\<rparr>"

definition busy_ticks :: "time list \<Rightarrow> LeaserState" where
  "busy_ticks ts = fold (\<lambda>t st. fst (tick demo_leaser Acked t {} (demo_ctx t) st)) ts busy_state"

text \<open>Releasing a job over the concurrency cap is charged as an attempt. The release reports
  one attempt less but leaves the count in the row, so a job that is only ever leased while its
  kind is at the cap is dead-lettered after six leases, with the default budget of five, without
  its handler ever having run; and its first release backs off with the longest delay of the
  queue instead of freeing it for another worker.\<close>

theorem over_cap_release_dead_letters:
  "map j_state (st_jobs (busy_ticks (map (\<lambda>n. n * 40 * minute) [1, 2, 3, 4, 5]))) = [Leased, Queued]
   \<and> map j_state (st_jobs (busy_ticks (map (\<lambda>n. n * 40 * minute) [1, 2, 3, 4, 5, 6]))) = [Leased, Dead]
   \<and> st_running (busy_ticks (map (\<lambda>n. n * 40 * minute) [1, 2, 3, 4, 5, 6])) = [job_of busy_row]
   \<and> (\<forall>ovf q. backoff_raw ovf q 0 = q_maxDelay q)"
proof (intro conjI allI)
  show "backoff_raw ovf q 0 = q_maxDelay q" for ovf q
    by (simp add: backoff_raw_def pow2_duration_def wrap64_def)
qed (code_simp+)

end
