(* ===== verification/DiscussionFetch.thy ===== *)
theory DiscussionFetch
  imports Scanner Leaser
begin

text \<open>
  The \<^verbatim>\<open>discussion_fetch\<close> job handler, \<^verbatim>\<open>internal/worker/discussion/fetcher.go\<close>: the direct path (find
  the pull request of a document, summarise its comments, store them, queue the next refresh) and the
  pull-request path (fan out to the documents a pull request touches). The handler returns the new
  states and its error; logging is left out.
\<close>

section \<open>Payload\<close>

record DiscussionPayload =
  dp_DocumentID :: string
  dp_Repo :: string
  dp_Path :: string
  dp_PRNumber :: int

definition unmarshal_discussion :: "json \<Rightarrow> DiscussionPayload option" where
  "unmarshal_discussion j =
     Option.bind (obj_members j) (\<lambda>ms.
       case (str_field ''document_id'' ms, str_field ''repo'' ms, str_field ''path'' ms, int_field ''pr_number'' ms) of
         (Some d, Some r, Some p, Some n) \<Rightarrow> Some \<lparr>dp_DocumentID = d, dp_Repo = r, dp_Path = p, dp_PRNumber = n\<rparr>
       | _ \<Rightarrow> None)"

text \<open>The encoded payload; the fields marked \<^verbatim>\<open>omitempty\<close> are left out when zero.\<close>

definition marshal_discussion :: "DiscussionPayload \<Rightarrow> json" where
  "marshal_discussion p = JObj (
     (if dp_DocumentID p = [] then [] else [(''document_id'', JStr (dp_DocumentID p))])
     @ [(''repo'', JStr (dp_Repo p))]
     @ (if dp_Path p = [] then [] else [(''path'', JStr (dp_Path p))])
     @ (if dp_PRNumber p = 0 then [] else [(''pr_number'', JNum (Itoa (dp_PRNumber p)))]))"

section \<open>Summary of a review thread\<close>

text \<open>The loop over the comments: the latest activity, the handles seen, the participants so far.\<close>

definition add_comment :: "PRComment \<Rightarrow> time \<times> string list \<times> Author list \<Rightarrow> time \<times> string list \<times> Author list" where
  "add_comment c acc =
     (case acc of (latest, seen, participants) \<Rightarrow>
        let latest' = (if pc_UpdatedAt c > latest then pc_UpdatedAt c else latest);
            h = pa_Handle (pc_Author c)
        in if h = [] \<or> h \<in> set seen then (latest', seen, participants)
           else (latest', h # seen,
                 participants @ [\<lparr>a_name = pa_Name (pc_Author c), a_email = pa_Email (pc_Author c), a_handle = h\<rparr>]))"

definition buildDiscussion :: "PullRequest \<Rightarrow> PRComment list \<Rightarrow> Discussion" where
  "buildDiscussion pr comments =
     (case fold add_comment comments (0, [], []) of (latest, seen, participants) \<Rightarrow>
        \<lparr>ds_url = pl_URL pr, ds_comment_count = int (length comments), ds_participants = participants,
         ds_last_activity = latest\<rparr>)"

section \<open>Matching files\<close>

text \<open>The handler's own copies of the filter of the webhook and of the id heuristic of the scanner.\<close>

fun disc_matchSource :: "unicode \<Rightarrow> SourceRepo list \<Rightarrow> string \<Rightarrow> string \<Rightarrow> SourceRepo option" where
  "disc_matchSource U [] repo path = None"
| "disc_matchSource U (src # srcs) repo path =
     (if sr_repo src \<noteq> repo then disc_matchSource U srcs repo path
      else if \<not> HasPrefix path (sr_path src) then disc_matchSource U srcs repo path
      else if \<not> HasSuffix (ToLower U path) ''.md'' then disc_matchSource U srcs repo path
      else Some src)"

definition disc_canonicalFromPath :: "unicode \<Rightarrow> SourceRepo \<Rightarrow> string \<Rightarrow> DocumentID" where
  "disc_canonicalFromPath U src path =
     (let rel = TrimPrefix (TrimPrefix path (sr_path src)) ''/'';
          name = (case IndexByte rel CHR ''/'' of None \<Rightarrow> rel | Some slash \<Rightarrow> take slash rel)
      in (case first_digits name of None \<Rightarrow> [] | Some ds \<Rightarrow> Canonical U (sr_type_id src) ds))"

section \<open>Handler\<close>

record disc_fetcher =
  df_pulls :: "string \<Rightarrow> string \<Rightarrow> PullRequest list result"
  df_comments :: "string \<Rightarrow> int \<Rightarrow> PRComment list result"
  df_files :: "string \<Rightarrow> int \<Rightarrow> string list result"

record DiscussionHandler =
  dh_sources :: "SourceRepo list"
  dh_active :: duration
  dh_archived :: duration

definition hour :: duration where "hour = 60 * minute"

text \<open>The configuration: which collaborators are given, the sources and the cadences.\<close>

record DiscussionConfig =
  dc_store :: bool
  dc_fetcher :: bool
  dc_queue :: bool
  dc_sources :: "SourceRepo list"
  dc_active :: duration
  dc_archived :: duration

definition NewDiscussion :: "DiscussionConfig option \<Rightarrow> DiscussionHandler result" where
  "NewDiscussion cfg =
     (case cfg of
        None \<Rightarrow> Inl (New ''discussion: nil config'')
      | Some c \<Rightarrow>
          if \<not> dc_store c then Inl (New ''discussion: nil store'')
          else if \<not> dc_fetcher c then Inl (New ''discussion: nil fetcher'')
          else if \<not> dc_queue c then Inl (New ''discussion: nil queue'')
          else Inr \<lparr>dh_sources = dc_sources c, dh_active = (if dc_active c \<le> 0 then hour else dc_active c),
                 dh_archived = (if dc_archived c \<le> 0 then 24 * hour else dc_archived c)\<rparr>)"

type_synonym 'd discuss_fn = "DocumentID \<Rightarrow> Discussion \<Rightarrow> 'd \<Rightarrow> 'd \<times> goerr option"

text \<open>\<open>now\<close> is the process clock when the refresh is queued.\<close>

definition fetchOne :: "unicode \<Rightarrow> time \<Rightarrow> disc_fetcher \<Rightarrow> 'd discuss_fn \<Rightarrow> 'q enqueue_fn \<Rightarrow> DiscussionHandler \<Rightarrow> DiscussionPayload
    \<Rightarrow> 'd \<times> 'q \<Rightarrow> ('d \<times> 'q) \<times> goerr option" where
  "fetchOne U now F up enq h p st =
     (case st of (d, q) \<Rightarrow>
       (case df_pulls F (dp_Repo p) (dp_Path p) of
          Inl e \<Rightarrow> ((d, q), Some (Errorf [Lit ''list prs: '', Wrap e]))
        | Inr [] \<Rightarrow> ((d, q), None)
        | Inr (pr # prs) \<Rightarrow>
           (case df_comments F (dp_Repo p) (pl_Number pr) of
              Inl e \<Rightarrow> ((d, q), Some (Errorf [Lit ''list comments: '', Wrap e]))
            | Inr comments \<Rightarrow>
               (case up (dp_DocumentID p) (buildDiscussion pr comments) d of
                  (d', Some e) \<Rightarrow> ((d', q), Some (Errorf [Lit ''upsert discussion: '', Wrap e]))
                | (d', None) \<Rightarrow>
                    let delay = (if pl_Merged pr \<or> EqualFold U (pl_State pr) ''closed'' then dh_archived h else dh_active h)
                    in ((d', fst (enq ''discussion_fetch'' (''discussion:'' @ dp_DocumentID p) (marshal_discussion p)
                              (now + delay) q)), None)))))"

text \<open>The direct job of one file of a pull request.\<close>

definition direct_job :: "unicode \<Rightarrow> DiscussionHandler \<Rightarrow> DiscussionPayload \<Rightarrow> string \<Rightarrow> (string \<times> string \<times> json \<times> time) option" where
  "direct_job U h p path =
     (case disc_matchSource U (dh_sources h) (dp_Repo p) path of
        None \<Rightarrow> None
      | Some src \<Rightarrow>
          let i = disc_canonicalFromPath U src path in
          if i = [] then None
          else Some (''discussion_fetch'', ''discussion:'' @ i,
                 marshal_discussion \<lparr>dp_DocumentID = i, dp_Repo = dp_Repo p, dp_Path = path, dp_PRNumber = 0\<rparr>, 0))"

definition expandPR :: "unicode \<Rightarrow> disc_fetcher \<Rightarrow> 'q enqueue_fn \<Rightarrow> DiscussionHandler \<Rightarrow> DiscussionPayload \<Rightarrow> 'q \<Rightarrow> 'q \<times> goerr option" where
  "expandPR U F enq h p q =
     (case df_files F (dp_Repo p) (dp_PRNumber p) of
        Inl e \<Rightarrow> (q, Some (Errorf [Lit ''list pr files: '', Wrap e]))
      | Inr files \<Rightarrow>
          (fold (\<lambda>path q. case direct_job U h p path of None \<Rightarrow> q
                  | Some (kind, key, payload, t) \<Rightarrow> fst (enq kind key payload t q)) files q, None))"

definition discussion_Handle :: "unicode \<Rightarrow> goerr \<Rightarrow> time \<Rightarrow> disc_fetcher \<Rightarrow> 'd discuss_fn \<Rightarrow> 'q enqueue_fn \<Rightarrow> DiscussionHandler \<Rightarrow> Job
    \<Rightarrow> 'd \<times> 'q \<Rightarrow> ('d \<times> 'q) \<times> goerr option" where
  "discussion_Handle U je now F up enq h job st =
     (case unmarshal_discussion (job_payload job) of
        None \<Rightarrow> (st, Some (Errorf [Lit ''unmarshal payload: '', Wrap je]))
      | Some p \<Rightarrow>
          if dp_Repo p = [] then (st, Some (Errorf [Wrap (Sentinel ErrInvalidInput), Lit '': repo required'']))
          else if dp_PRNumber p > 0 then (case expandPR U F enq h p (snd st) of (q', err) \<Rightarrow> ((fst st, q'), err))
          else if dp_DocumentID p = [] \<or> dp_Path p = []
          then (st, Some (Errorf [Wrap (Sentinel ErrInvalidInput), Lit '': document_id + path or pr_number required'']))
          else fetchOne U now F up enq h p st)"

section \<open>What a summary holds\<close>

lemma disc_matchSource_eq: "disc_matchSource U srcs repo path = matchSource U srcs repo path"
  by (induction srcs) simp_all

lemma disc_canonical_eq: "disc_canonicalFromPath U src path = canonicalFromPath U src path"
  by (simp add: disc_canonicalFromPath_def canonicalFromPath_def)

text \<open>The elements of a list at their first occurrence.\<close>

definition firsts :: "'a list \<Rightarrow> 'a list" where
  "firsts xs = rev (remdups (rev xs))"

lemma firsts_snoc: "firsts (xs @ [x]) = (if x \<in> set xs then firsts xs else firsts xs @ [x])"
  by (simp add: firsts_def)

lemma set_firsts [simp]: "set (firsts xs) = set xs"
  by (simp add: firsts_def)

abbreviation handles :: "PRComment list \<Rightarrow> string list" where
  "handles cs \<equiv> filter (\<lambda>h. h \<noteq> []) (map (\<lambda>c. pa_Handle (pc_Author c)) cs)"

definition summary_of :: "PRComment list \<Rightarrow> time \<times> string list \<times> Author list \<Rightarrow> bool" where
  "summary_of cs acc = (fst acc = foldr max (map pc_UpdatedAt cs) 0 \<and> set (fst (snd acc)) = set (handles cs)
     \<and> map a_handle (snd (snd acc)) = firsts (handles cs))"

lemma foldr_max_snoc: "foldr max (xs @ [x]) (a::int) = max (foldr max xs a) x"
  by (induction xs) (simp_all add: max.commute max.left_commute)

lemma add_comment_summary:
  assumes "summary_of cs acc"
  shows "summary_of (cs @ [c]) (add_comment c acc)"
proof -
  obtain l seen ps where acc: "acc = (l, seen, ps)" by (cases acc)
  have "l = foldr max (map pc_UpdatedAt cs) 0" "set seen = set (handles cs)" "map a_handle ps = firsts (handles cs)"
    using assms by (simp_all add: summary_of_def acc)
  then show ?thesis
    unfolding summary_of_def acc add_comment_def Let_def map_append list.map foldr_max_snoc
    by (simp add: firsts_snoc max_def insert_absorb)
qed

lemma fold_comments: "summary_of cs (fold add_comment cs (0, [], []))"
proof (induction cs rule: rev_induct)
  case Nil
  then show ?case by (simp add: summary_of_def firsts_def)
next
  case (snoc c cs)
  then show ?case using add_comment_summary by simp
qed

text \<open>The summary of a review thread is exact: it counts every comment, names each commenter with a
  handle once, in the order of their first comments, and its last activity is the latest update (the zero
  time for a thread without comments).\<close>

theorem discussion_summary_exact:
  "ds_comment_count (buildDiscussion pr cs) = int (length cs) \<and> ds_url (buildDiscussion pr cs) = pl_URL pr
   \<and> map a_handle (ds_participants (buildDiscussion pr cs)) = firsts (handles cs)
   \<and> distinct (map a_handle (ds_participants (buildDiscussion pr cs)))
   \<and> ds_last_activity (buildDiscussion pr cs) = foldr max (map pc_UpdatedAt cs) 0"
  using fold_comments [of cs] by (auto simp: buildDiscussion_def summary_of_def firsts_def split: prod.split)

section \<open>Fan-out of a pull request\<close>

text \<open>The ids of the documents among the files of a pull request.\<close>

definition touched_ids :: "unicode \<Rightarrow> DiscussionHandler \<Rightarrow> string \<Rightarrow> string list \<Rightarrow> DocumentID set" where
  "touched_ids U h repo files = {i. i \<noteq> [] \<and> (\<exists>path \<in> set files. \<exists>src.
     matchSource U (dh_sources h) repo path = Some src \<and> i = canonicalFromPath U src path)}"

lemma direct_job_keys:
  "(\<exists>path \<in> set files. \<exists>body t. direct_job U h p path = Some (k, d, body, t)) \<longleftrightarrow>
   k = ''discussion_fetch'' \<and> (\<exists>i \<in> touched_ids U h (dp_Repo p) files. d = ''discussion:'' @ i)"
  by (auto simp: direct_job_def touched_ids_def disc_matchSource_eq disc_canonical_eq Let_def split: option.splits)

lemma expandPR_keys:
  assumes "df_files F (dp_Repo p) (dp_PRNumber p) = Inr files" and "\<And>n. ee_db E n = Acked"
  shows "\<exists>q'. expandPR U F (jobs_enq E) h p q = (q', None)
    \<and> has_job q' k d = (has_job q k d \<or> (k = ''discussion_fetch'' \<and> (\<exists>i \<in> touched_ids U h (dp_Repo p) files. d = ''discussion:'' @ i)))"
proof -
  have e: "expandPR U F (jobs_enq E) h p q = (jq.enq_all E (direct_job U h p) files q, None)"
    using assms(1) by (simp add: expandPR_def jq.enq_all_def)
  have "has_job (jq.enq_all E (direct_job U h p) files q) k d \<longleftrightarrow>
      has_job q k d \<or> (\<exists>path \<in> set files. \<exists>body t. direct_job U h p path = Some (k, d, body, t))" (is "?l \<longleftrightarrow> ?r")
  proof
    show "?l \<Longrightarrow> ?r" by (rule jq.enq_all_only)
    assume ?r
    then show ?l
    proof (elim disjE bexE exE)
      assume "has_job q k d"
      then show ?l by (rule jq.enq_all_keeps)
    next
      fix path body t
      assume a: "path \<in> set files" "direct_job U h p path = Some (k, d, body, t)"
      then have "k \<noteq> []" "d \<noteq> []" by (auto simp: direct_job_def Let_def split: option.splits if_splits)
      then show ?l using jq.enq_all_has [where f = "direct_job U h p" and q = q, OF acked_enq [OF assms(2)] a] by blast
    qed
  qed
  then show ?thesis unfolding e direct_job_keys by blast
qed

section \<open>Refresh\<close>

lemma Enqueue_same_key_rows:
  assumes "r \<in> set js" and "same_key kind key r"
    and "Enqueue db uuid gnow now kind key (Inr body) t js = (js', err)"
  shows "map j_id js' = map j_id js \<and> map row_key js' = map row_key js"
proof -
  have "\<exists>r \<in> set js. same_key kind key r" using assms(1,2) by blast
  then show ?thesis
    using assms(3) by (cases db) (auto simp: Enqueue_def enqueue_stmt_def Let_def row_key_def split: if_splits)
qed

lemma succeed_removes_key:
  assumes "distinct (map row_key js)" and "r \<in> set js" and "map j_id js' = map j_id js" and "map row_key js' = map row_key js"
  shows "\<forall>r' \<in> set (succeed_stmt (j_id r) js'). row_key r' \<noteq> row_key r"
proof
  fix r' assume "r' \<in> set (succeed_stmt (j_id r) js')"
  then obtain i where i: "i < length js'" "js' ! i = r'" "j_id r' \<noteq> j_id r"
    by (auto simp: succeed_stmt_def in_set_conv_nth)
  obtain k where k: "k < length js" "js ! k = r" using assms(2) by (auto simp: in_set_conv_nth)
  have len: "length js' = length js" using assms(3) by (metis length_map)
  show "row_key r' \<noteq> row_key r"
  proof
    assume "row_key r' = row_key r"
    then have "map row_key js ! i = map row_key js ! k" using i k len assms(4) by (metis nth_map)
    then have "i = k" using assms(1) i(1) k(1) len by (metis length_map nth_eq_iff_index_eq)
    then have "j_id r' = j_id r" using i k len assms(3) by (metis nth_map)
    then show False using i(3) by simp
  qed
qed

text \<open>C27: A discussion is never refreshed by its own job. The handler queues the next refresh under the
  key of the job it is running; that row is still in the table, so the enqueue only moves its start time,
  and when the handler returns success the leaser deletes the row. After a successful direct fetch no job
  with the document's key is left, whatever cadence was configured.\<close>

theorem discussion_refresh_lost:
  assumes "jobs_wf js" and "r \<in> set js" and "j_kind r = ''discussion_fetch''"
    and "unmarshal_discussion (j_payload r) = Some p" and "dp_PRNumber p \<le> 0" and "j_dedup r = ''discussion:'' @ dp_DocumentID p"
    and "discussion_Handle U je now F up (jobs_enq E) h (job_of r) (d, (js, n)) = ((d', (js', n')), None)"
    and "cc_exec c = Acked"
  shows "\<not> has_job (fst (fst (finalize l c (job_of r) None (js', ms))), n') ''discussion_fetch'' (''discussion:'' @ dp_DocumentID p)"
proof -
  have "js' = js \<or> (\<exists>body t. Enqueue (ee_db E n) (ee_uuid E n) (ee_gnow E n) (ee_now E n) ''discussion_fetch''
      (''discussion:'' @ dp_DocumentID p) (Inr body) t js = (js', snd (Enqueue (ee_db E n) (ee_uuid E n) (ee_gnow E n) (ee_now E n)
        ''discussion_fetch'' (''discussion:'' @ dp_DocumentID p) (Inr body) t js)))"
    using assms(4,5,7)
    by (force simp: discussion_Handle_def fetchOne_def job_of_def Let_def jobs_enq_def prod_eq_iff
        split: if_splits sum.splits list.splits prod.splits option.splits)
  moreover have "same_key ''discussion_fetch'' (''discussion:'' @ dp_DocumentID p) r"
    using assms(3,6) by (simp add: same_key_def)
  ultimately have s: "map j_id js' = map j_id js \<and> map row_key js' = map row_key js"
    using Enqueue_same_key_rows [OF assms(2)] by blast
  have "\<forall>r' \<in> set (succeed_stmt (j_id r) js'). row_key r' \<noteq> row_key r"
    using assms(1,2) s by (intro succeed_removes_key) (simp_all add: jobs_wf_def)
  then show ?thesis
    using assms(3,6,8) by (auto simp: finalize_def Succeed_def job_of_def has_job_def list_ex_iff same_key_row_key row_key_def)
qed

definition one_pull :: disc_fetcher where
  "one_pull = \<lparr>df_pulls = (\<lambda>r p. Inr [\<lparr>pl_Number = 3, pl_State = ''open'', pl_Merged = False, pl_Title = ''t'', pl_URL = ''u''\<rparr>]),
     df_comments = (\<lambda>r n. Inr []), df_files = (\<lambda>r n. Inr [])\<rparr>"

definition hourly :: DiscussionHandler where
  "hourly = \<lparr>dh_sources = [], dh_active = 3600, dh_archived = 86400\<rparr>"

definition direct_payload :: DiscussionPayload where
  "direct_payload = \<lparr>dp_DocumentID = ''RFC-0001'', dp_Repo = ''o/r'', dp_Path = ''d/1.md'', dp_PRNumber = 0\<rparr>"

definition discussion_row :: JobRow where
  "discussion_row = lease_row 2000 ''w'' (fresh_row 1 1000 ''discussion_fetch'' ''discussion:RFC-0001'' (marshal_discussion direct_payload) 0)"

theorem discussion_refresh_lost_witness:
  "\<exists>d js n. discussion_Handle ascii_only (New []) 5000 one_pull (\<lambda>i disc d. (d, None)) (jobs_enq all_acked) hourly
        (job_of discussion_row) ((), ([discussion_row], 0)) = ((d, (js, n)), None)
     \<and> \<not> has_job (fst (fst (finalize demo_leaser (demo_ctx 6000 (job_of discussion_row)) (job_of discussion_row) None (js, []))), n)
           ''discussion_fetch'' ''discussion:RFC-0001''"
proof -
  let ?h = "discussion_Handle ascii_only (New []) 5000 one_pull (\<lambda>i disc d. (d, None)) (jobs_enq all_acked) hourly
        (job_of discussion_row) ((), ([discussion_row], 0))"
  have "snd ?h = None" by code_simp
  then obtain d js n where h: "?h = ((d, (js, n)), None)" by (metis prod.collapse)
  have wf: "jobs_wf [discussion_row]"
    by (simp add: jobs_wf_def discussion_row_def lease_row_def fresh_row_def row_ok_def is_obj_def marshal_discussion_def)
  have p: "unmarshal_discussion (j_payload discussion_row) = Some direct_payload" by code_simp
  show ?thesis
    using discussion_refresh_lost [OF wf _ _ p _ _ h, of "demo_ctx 6000 (job_of discussion_row)" demo_leaser] h
    by (auto simp: discussion_row_def lease_row_def fresh_row_def direct_payload_def demo_ctx_def)
qed

end
