(* ===== verification/Middleware.thy ===== *)
theory Middleware
  imports Webhook
begin

text \<open>
  The middleware of \<^verbatim>\<open>internal/server/middleware\<close> (composition, CORS, request ids, panic recovery,
  deadlines, rate limiting) and the readiness endpoint of \<^verbatim>\<open>readiness.go\<close>. A handler maps a request and
  a state to a response and a state. The token bucket of \<^verbatim>\<open>golang.org/x/time/rate\<close> is an argument.
  The access log, the request metrics and tracing are in Server.
\<close>

section \<open>Composition\<close>

type_synonym 'q middleware = "'q handler \<Rightarrow> 'q handler"

text \<open>The loop of \<^verbatim>\<open>Chain\<close> wraps from the last to the first.\<close>

definition Chain :: "'q middleware list \<Rightarrow> 'q middleware" where
  "Chain mws h = foldr (\<lambda>mw h. mw h) mws h"

definition passThrough :: "'q middleware" where
  "passThrough nxt = nxt"

definition Auth :: "'q middleware" where
  "Auth nxt = nxt"

text \<open>\<^verbatim>\<open>w.Header().Set\<close> before the handler runs: a header the handler sets itself wins.\<close>

definition put_header :: "string \<Rightarrow> string \<Rightarrow> response \<Rightarrow> response" where
  "put_header k v resp =
     (if k \<in> fst ` set (rs_headers resp) then resp else resp\<lparr>rs_headers := (k, v) # rs_headers resp\<rparr>)"

definition add_header :: "string \<Rightarrow> string \<Rightarrow> response \<Rightarrow> response" where
  "add_header k v resp = resp\<lparr>rs_headers := (k, v) # rs_headers resp\<rparr>"

definition get_header :: "string \<Rightarrow> response \<Rightarrow> string option" where
  "get_header k resp = map_of (rs_headers resp) k"

section \<open>CORS\<close>

record CORSConfig =
  co_Origins :: "string list"
  co_Methods :: "string list"
  co_Headers :: "string list"
  co_MaxAge :: int

definition DefaultCORS :: "string list \<Rightarrow> CORSConfig" where
  "DefaultCORS origins = \<lparr>co_Origins = origins, co_Methods = [''GET'', ''OPTIONS'', ''POST''],
     co_Headers = [''Content-Type'', ''Authorization'', ''X-Request-ID''], co_MaxAge = 600\<rparr>"

definition CORS :: "CORSConfig option \<Rightarrow> 'q middleware" where
  "CORS ocfg nxt r q =
     (case ocfg of None \<Rightarrow> passThrough nxt r q
      | Some cfg \<Rightarrow>
          let origin = wh_header r ''Origin'' in
          if origin = [] \<or> origin \<notin> set (co_Origins cfg) then nxt r q
          else let decorate = put_header ''Access-Control-Allow-Origin'' origin \<circ> add_header ''Vary'' ''Origin'' in
            if r_Method (wh_req r) = ''OPTIONS''
            then (decorate \<lparr>rs_status = 204, rs_headers = [(''Access-Control-Allow-Methods'', Join (co_Methods cfg) '', ''),
                     (''Access-Control-Allow-Headers'', Join (co_Headers cfg) '', '')]
                     @ (if co_MaxAge cfg > 0 then [(''Access-Control-Max-Age'', Itoa (co_MaxAge cfg))] else []),
                   rs_body = BText []\<rparr>, q)
            else (case nxt r q of (resp, q') \<Rightarrow> (decorate resp, q')))"

section \<open>Request ids, panics, deadlines\<close>

text \<open>\<open>trace\<close> is the trace id of the active span, \<open>rnd\<close> the bytes read from \<^verbatim>\<open>crypto/rand\<close> (with whether
  reading failed).\<close>

definition randomID :: "string \<times> bool \<Rightarrow> string" where
  "randomID rnd = (if snd rnd then ''rand-failed-'' @ hex_encode (take 8 (fst rnd)) else hex_encode (fst rnd))"

definition resolveRequestID :: "string option \<Rightarrow> string \<times> bool \<Rightarrow> wh_request \<Rightarrow> string" where
  "resolveRequestID trace rnd r =
     (let v = wh_header r ''X-Request-ID'' in
      if v \<noteq> [] then v else (case trace of Some t \<Rightarrow> t | None \<Rightarrow> randomID rnd))"

text \<open>A handler below \<^verbatim>\<open>Recover\<close> answers, or panics before it has written: with a value, printed with
  \<^verbatim>\<open>%v\<close>, and the headers set so far.\<close>

datatype reply = Replied response | Panicking string "(string \<times> string) list"

type_synonym 'q phandler = "wh_request \<Rightarrow> 'q \<Rightarrow> reply \<times> 'q"

fun put_reply :: "string \<Rightarrow> string \<Rightarrow> reply \<Rightarrow> reply" where
  "put_reply k v (Replied resp) = Replied (put_header k v resp)"
| "put_reply k v (Panicking rec hs) = Panicking rec (if k \<in> fst ` set hs then hs else (k, v) # hs)"

definition RequestID :: "string option \<Rightarrow> string \<times> bool \<Rightarrow> 'q phandler \<Rightarrow> 'q phandler" where
  "RequestID trace rnd nxt r q =
     (let i = resolveRequestID trace rnd r;
          req = (wh_req r)\<lparr>r_ctx := ctx_WithID (r_ctx (wh_req r)) i\<rparr>
      in (case nxt (r\<lparr>wh_req := req\<rparr>) q of (rep, q') \<Rightarrow> (put_reply ''X-Request-ID'' i rep, q')))"

definition Recover :: "unicode \<Rightarrow> 'q phandler \<Rightarrow> 'q handler" where
  "Recover U nxt r q =
     (case nxt r q of
        (Replied resp, q') \<Rightarrow> (resp, q')
      | (Panicking rec hs, q') \<Rightarrow>
          (foldr (\<lambda>(k, v). put_header k v) hs
             (err_Write U (wh_req r) (Errorf [Wrap (Sentinel ErrPanicRecovered), Lit '': '', Lit rec])), q'))"

text \<open>The deadline of the context a request runs under.\<close>

definition Timeout :: "duration \<Rightarrow> time \<Rightarrow> time option \<Rightarrow> time option" where
  "Timeout d now parent =
     (if d \<le> 0 then parent
      else Some (case parent of None \<Rightarrow> now + d | Some t \<Rightarrow> min t (now + d)))"

section \<open>Rate limit\<close>

text \<open>A token bucket: a fresh one, a reservation (whether it can be granted at all, and the delay),
  and its cancellation.\<close>

record 'l bucket_ops =
  bk_new :: 'l
  bk_reserve :: "time \<Rightarrow> 'l \<Rightarrow> 'l \<times> bool \<times> duration"
  bk_cancel :: "time \<Rightarrow> 'l \<Rightarrow> 'l"

type_synonym 'l limiterStore = "string \<rightharpoonup> 'l \<times> time"

record RateLimitConfig =
  rl_RPS :: int
  rl_Burst :: int
  rl_TTL :: duration
  rl_Sweep :: duration

definition with_defaults :: "RateLimitConfig \<Rightarrow> RateLimitConfig" where
  "with_defaults cfg = cfg\<lparr>rl_TTL := (if rl_TTL cfg \<le> 0 then 60 * minute else rl_TTL cfg),
     rl_Sweep := (if rl_Sweep cfg \<le> 0 then 5 * minute else rl_Sweep cfg)\<rparr>"

definition IPKey :: "unicode \<Rightarrow> (string \<Rightarrow> string option) \<Rightarrow> string \<Rightarrow> wh_request \<Rightarrow> string" where
  "IPKey U splitHost remote r =
     (let xff = wh_header r ''X-Forwarded-For'' in
      if xff \<noteq> [] then
        (case IndexByte xff CHR '','' of
           Some i \<Rightarrow> if i > 0 then TrimSpace U (take i xff) else TrimSpace U xff
         | None \<Rightarrow> TrimSpace U xff)
      else (case splitHost remote of None \<Rightarrow> remote | Some host \<Rightarrow> host))"

definition forKey :: "'l bucket_ops \<Rightarrow> time \<Rightarrow> string \<Rightarrow> 'l limiterStore \<Rightarrow> 'l limiterStore \<times> 'l" where
  "forKey B now key s =
     (let l = (case s key of None \<Rightarrow> bk_new B | Some (l, _) \<Rightarrow> l) in (s(key \<mapsto> (l, now)), l))"

definition evictBefore :: "time \<Rightarrow> 'l limiterStore \<Rightarrow> 'l limiterStore" where
  "evictBefore cutoff s k = (case s k of None \<Rightarrow> None | Some (l, lst) \<Rightarrow> if lst < cutoff then None else Some (l, lst))"

datatype decision = Allowed | Exceeds | Delayed duration

text \<open>One request against its bucket: the reservation is given back when it would have to wait.\<close>

definition admit :: "'l bucket_ops \<Rightarrow> time \<Rightarrow> string \<Rightarrow> 'l limiterStore \<Rightarrow> 'l limiterStore \<times> decision" where
  "admit B now key s =
     (case forKey B now key s of (s', l) \<Rightarrow>
        case bk_reserve B now l of
          (l', False, _) \<Rightarrow> (s'(key \<mapsto> (l', now)), Exceeds)
        | (l', True, delay) \<Rightarrow>
            if delay > 0 then (s'(key \<mapsto> (bk_cancel B now l', now)), Delayed delay)
            else (s'(key \<mapsto> (l', now)), Allowed))"

definition retry_after :: "duration \<Rightarrow> int" where
  "retry_after delay = (let retry = delay div second in if retry < 1 then 1 else retry)"

definition RateLimit :: "unicode \<Rightarrow> 'l bucket_ops \<Rightarrow> RateLimitConfig \<Rightarrow> (wh_request \<Rightarrow> string) \<Rightarrow> time
    \<Rightarrow> ('l limiterStore \<times> 'q) middleware" where
  "RateLimit U B cfg key now nxt r sq =
     (if rl_RPS cfg \<le> 0 \<or> rl_Burst cfg \<le> 0 then passThrough nxt r sq
      else (case sq of (s, q) \<Rightarrow>
              case admit B now (key r) s of
                (s', Exceeds) \<Rightarrow>
                  (err_Write U (wh_req r) (Errorf [Wrap (Sentinel ErrRateLimited), Lit '': reservation exceeds burst'']), (s', q))
              | (s', Delayed delay) \<Rightarrow>
                  (put_header ''Retry-After'' (Itoa (retry_after delay)) (err_Write U (wh_req r) (Sentinel ErrRateLimited)), (s', q))
              | (s', Allowed) \<Rightarrow> nxt r (s', q)))"

text \<open>The life of the store: requests of clients and sweeps of the background loop, in any order; the
  decisions in order.\<close>

datatype rl_event = Request string time | Sweep time

fun run_events :: "'l bucket_ops \<Rightarrow> duration \<Rightarrow> rl_event list \<Rightarrow> 'l limiterStore \<Rightarrow> (string \<times> decision) list" where
  "run_events B ttl [] s = []"
| "run_events B ttl (Request key now # es) s =
     (case admit B now key s of (s', d) \<Rightarrow> (key, d) # run_events B ttl es s')"
| "run_events B ttl (Sweep now # es) s = run_events B ttl es (evictBefore (now - ttl) s)"

section \<open>Readiness\<close>

text \<open>A probe: its name, and what it answers now.\<close>

definition AlwaysReady :: "string \<times> goerr option" where
  "AlwaysReady = (''always-ready'', None)"

definition HealthLive :: response where
  "HealthLive = \<lparr>rs_status = 200, rs_headers = [(''Content-Type'', ''application/json'')],
     rs_body = BText ''{\"status\":\"ok\"}''\<rparr>"

fun probe_loop :: "unicode \<Rightarrow> (string \<times> goerr option) list \<Rightarrow> readyFailureRow list" where
  "probe_loop U [] = []"
| "probe_loop U ((name, err) # probes) =
     (case err of None \<Rightarrow> probe_loop U probes | Some e \<Rightarrow> \<lparr>rf_Probe = name, rf_Error = Error U e\<rparr> # probe_loop U probes)"

definition HealthReady :: "unicode \<Rightarrow> (string \<times> goerr option) list \<Rightarrow> response" where
  "HealthReady U probes =
     (let failures = probe_loop U probes;
          header = [(''Content-Type'', ''application/json'')]
      in if length failures = 0 then \<lparr>rs_status = 200, rs_headers = header, rs_body = BReady ''ready''\<rparr>
         else \<lparr>rs_status = 503, rs_headers = header, rs_body = BNotReady ''not_ready'' failures\<rparr>)"

text \<open>The probes a response of \<^verbatim>\<open>/readyz\<close> names as failing.\<close>

definition failing_probes :: "response \<Rightarrow> string list" where
  "failing_probes resp = (case rs_body resp of BNotReady _ rows \<Rightarrow> map rf_Probe rows | _ \<Rightarrow> [])"

section \<open>What the middleware guarantees\<close>

lemma Chain_Nil [simp]: "Chain [] h = h" and Chain_Cons [simp]: "Chain (m # ms) h = m (Chain ms h)"
  by (simp_all add: Chain_def)

lemma Chain_append: "Chain (ms @ ns) h = Chain ms (Chain ns h)"
  by (induction ms) simp_all

lemma admit_other: "k \<noteq> key \<Longrightarrow> fst (admit B now key s) k = s k"
  by (auto simp: admit_def forKey_def Let_def split: prod.split bool.split)

lemma admit_same:
  assumes "s k = t k"
  shows "fst (admit B now k s) k = fst (admit B now k t) k \<and> snd (admit B now k s) = snd (admit B now k t)"
  using assms by (auto simp: admit_def forKey_def Let_def split: prod.split bool.split)

lemma evict_same: "s k = t k \<Longrightarrow> evictBefore c s k = evictBefore c t k"
  by (simp add: evictBefore_def)

fun concerns :: "string \<Rightarrow> rl_event \<Rightarrow> bool" where
  "concerns k (Request key now) = (key = k)"
| "concerns k (Sweep now) = True"

lemma run_events_same:
  "s k = t k \<Longrightarrow> filter (\<lambda>(key, d). key = k) (run_events B ttl es s) = run_events B ttl (filter (concerns k) es) t"
proof (induction es arbitrary: s t)
  case Nil
  then show ?case by simp
next
  case (Cons e es)
  show ?case
  proof (cases e)
    case (Request key now)
    obtain s' d where s': "admit B now key s = (s', d)" by (rule prod.exhaust)
    obtain t' d' where t': "admit B now key t = (t', d')" by (rule prod.exhaust)
    show ?thesis
    proof (cases "key = k")
      case True
      then have "s' k = t' k" "d = d'" using admit_same [where k = k and s = s and t = t, OF Cons.prems, of B now] s' t' by simp_all
      then show ?thesis using Cons.IH [of s' t'] True by (simp add: Request s' [unfolded True] t' [unfolded True])
    next
      case False
      then have "s' k = t k" using admit_other [of k key B now s] s' Cons.prems by simp
      then show ?thesis using Cons.IH [of s' t] False by (simp add: Request s')
    qed
  next
    case (Sweep now)
    have "evictBefore (now - ttl) s k = evictBefore (now - ttl) t k" using Cons.prems by (rule evict_same)
    then show ?thesis using Cons.IH [of "evictBefore (now - ttl) s" "evictBefore (now - ttl) t"] by (simp add: Sweep)
  qed
qed

text \<open>C31: Clients are rate-limited independently: whatever requests other clients make and whenever the
  background sweep runs, the decisions on a client's requests are those that would have been made had it
  been alone.\<close>

theorem rate_limit_isolated:
  "filter (\<lambda>(key, d). key = k) (run_events B ttl es s) = run_events B ttl (filter (concerns k) es) s"
  by (rule run_events_same) simp

text \<open>A request over the limit is answered with status 429 and reaches no handler; one within it is the
  handler's.\<close>

lemma rate_limit_reply:
  assumes "0 < rl_RPS cfg" and "0 < rl_Burst cfg" and "admit B now (key r) s = (s', d)"
  shows "RateLimit U B cfg key now nxt r (s, q) =
     (if d = Allowed then nxt r (s', q) else (fst (RateLimit U B cfg key now nxt r (s, q)), (s', q)))
   \<and> (d \<noteq> Allowed \<longrightarrow> rs_status (fst (RateLimit U B cfg key now nxt r (s, q))) = 429)"
  using assms
  by (cases d) (auto simp: RateLimit_def put_header_def err_Write_def classify_def Let_def)

lemma put_header_other: "k \<noteq> k' \<Longrightarrow> get_header k (put_header k' v resp) = get_header k resp"
  by (simp add: put_header_def get_header_def)

text \<open>Cross-origin access is denied by default: a response carries the header that lets a browser read
  it only for an origin on the allow list, and then names that origin; for any other request the
  middleware changes nothing.\<close>

theorem cors_default_deny:
  assumes "\<And>r q. get_header ''Access-Control-Allow-Origin'' (fst (nxt r q)) = None"
  shows "get_header ''Access-Control-Allow-Origin'' (fst (CORS (Some cfg) nxt r q)) =
      (if wh_header r ''Origin'' \<noteq> [] \<and> wh_header r ''Origin'' \<in> set (co_Origins cfg) then Some (wh_header r ''Origin'') else None)
    \<and> (wh_header r ''Origin'' = [] \<or> wh_header r ''Origin'' \<notin> set (co_Origins cfg) \<longrightarrow> CORS (Some cfg) nxt r q = nxt r q)"
proof (cases "wh_header r ''Origin'' = [] \<or> wh_header r ''Origin'' \<notin> set (co_Origins cfg)")
  case True
  then show ?thesis using assms by (auto simp: CORS_def)
next
  case False
  have put: "get_header ''Access-Control-Allow-Origin'' (put_header ''Access-Control-Allow-Origin'' v resp) = Some v"
    if "get_header ''Access-Control-Allow-Origin'' resp = None" for v resp
    using that by (simp add: put_header_def get_header_def map_of_eq_None_iff)
  have add: "get_header ''Access-Control-Allow-Origin'' (add_header ''Vary'' v resp) = get_header ''Access-Control-Allow-Origin'' resp" for v resp
    by (simp add: add_header_def get_header_def)
  show ?thesis
  proof (cases "r_Method (wh_req r) = ''OPTIONS''")
    case True
    then show ?thesis using False by (auto simp: CORS_def Let_def intro!: put) (simp_all add: add_header_def get_header_def)
  next
    case no: False
    obtain resp q' where n: "nxt r q = (resp, q')" by (rule prod.exhaust)
    have "get_header ''Access-Control-Allow-Origin'' resp = None" using assms [of r q] n by simp
    then show ?thesis using False no n put [of "add_header ''Vary'' ''Origin'' resp"] by (simp add: CORS_def Let_def add)
  qed
qed

definition ok_handler :: "'q handler" where
  "ok_handler r q = (\<lparr>rs_status = 200, rs_headers = [], rs_body = BText []\<rparr>, q)"

definition from_origin :: "string \<Rightarrow> wh_request" where
  "from_origin o' = \<lparr>wh_req = sample_request [], wh_header = (\<lambda>k. if k = ''Origin'' then o' else []), wh_body = ([], None)\<rparr>"

theorem cors_default_deny_witness:
  "get_header ''Access-Control-Allow-Origin'' (fst (CORS (Some (DefaultCORS [''https://a''])) ok_handler (from_origin ''https://a'') ())) = Some ''https://a''
   \<and> get_header ''Access-Control-Allow-Origin'' (fst (CORS (Some (DefaultCORS [''https://a''])) ok_handler (from_origin ''https://b'') ())) = None"
proof -
  have c: "get_header ''Access-Control-Allow-Origin'' (fst (CORS (Some (DefaultCORS [''https://a''])) ok_handler r ())) =
      (if wh_header r ''Origin'' \<noteq> [] \<and> wh_header r ''Origin'' \<in> set (co_Origins (DefaultCORS [''https://a'']))
       then Some (wh_header r ''Origin'') else None)" for r
    by (rule conjunct1 [OF cors_default_deny]) (simp add: ok_handler_def get_header_def)
  show ?thesis unfolding c by (simp add: from_origin_def DefaultCORS_def)
qed

text \<open>The readiness endpoint reports every failing probe, and is ready exactly when none fails.\<close>

lemma probe_failures: "map rf_Probe (probe_loop U probes) = map fst (filter (\<lambda>p. snd p \<noteq> None) probes)"
  by (induction U probes rule: probe_loop.induct) (auto split: option.split)

lemma probe_none: "probe_loop U probes = [] \<longleftrightarrow> list_all (\<lambda>p. snd p = None) probes"
  by (induction U probes rule: probe_loop.induct) (auto split: option.split)

lemma ready_report:
  "rs_status (HealthReady U probes) = (if list_all (\<lambda>p. snd p = None) probes then 200 else 503)"
  "failing_probes (HealthReady U probes) = map fst (filter (\<lambda>p. snd p \<noteq> None) probes)"
proof -
  show "rs_status (HealthReady U probes) = (if list_all (\<lambda>p. snd p = None) probes then 200 else 503)"
    by (simp add: HealthReady_def Let_def flip: probe_none [of U])
  show "failing_probes (HealthReady U probes) = map fst (filter (\<lambda>p. snd p \<noteq> None) probes)"
    using probe_failures [of U probes] by (auto simp: HealthReady_def failing_probes_def Let_def)
qed

end
