(* ===== verification/Flags.thy ===== *)
theory Flags
  imports Queue
begin

text \<open>
  What the configuration uses of the standard library: \<^verbatim>\<open>strconv.ParseBool\<close>, \<^verbatim>\<open>time.ParseDuration\<close> and
  the \<^verbatim>\<open>flag\<close> package (\<^verbatim>\<open>FlagSet.Parse\<close> under \<^verbatim>\<open>ContinueOnError\<close>). A flag set is the association list of
  its flags, each with the assignment it makes to a state. The one product in floating point that
  \<^verbatim>\<open>ParseDuration\<close> computes for a fraction is an argument.
\<close>

section \<open>Booleans and durations\<close>

definition ParseBool :: "string \<Rightarrow> bool option" where
  "ParseBool s =
     (if s \<in> {''1'', ''t'', ''T'', ''TRUE'', ''true'', ''True''} then Some True
      else if s \<in> {''0'', ''f'', ''F'', ''FALSE'', ''false'', ''False''} then Some False
      else None)"

text \<open>The two letters mu of \<^verbatim>\<open>unitMap\<close>, U+00B5 and U+03BC, in UTF-8.\<close>

definition unitMap :: "(string \<times> int) list" where
  "unitMap = [(''ns'', 1), (''us'', 1000), (CHR 0xC2 # CHR 0xB5 # ''s'', 1000), (CHR 0xCE # CHR 0xBC # ''s'', 1000),
     (''ms'', 1000000), (''s'', second), (''m'', minute), (''h'', 60 * minute)]"

text \<open>\<^verbatim>\<open>leadingInt\<close>: \<open>None\<close> is overflow.\<close>

fun leadingInt :: "int \<Rightarrow> string \<Rightarrow> (int \<times> string) option" where
  "leadingInt x [] = Some (x, [])"
| "leadingInt x (c # cs) =
     (if \<not> is_digit_char c then Some (x, c # cs)
      else if x > 2 ^ 63 div 10 then None
      else let y = x * 10 + int (digit_val c) in if y > 2 ^ 63 then None else leadingInt y cs)"

text \<open>\<^verbatim>\<open>leadingFraction\<close>: the digits that fit, how many of them, and the rest.\<close>

fun leadingFraction :: "int \<Rightarrow> nat \<Rightarrow> bool \<Rightarrow> string \<Rightarrow> int \<times> nat \<times> string" where
  "leadingFraction x k overflow [] = (x, k, [])"
| "leadingFraction x k overflow (c # cs) =
     (if \<not> is_digit_char c then (x, k, c # cs)
      else if overflow \<or> x > (2 ^ 63 - 1) div 10 then leadingFraction x k True cs
      else let y = x * 10 + int (digit_val c)
           in if y > 2 ^ 63 then leadingFraction x k True cs else leadingFraction y (Suc k) False cs)"

definition unit_char :: "char \<Rightarrow> bool" where
  "unit_char c = (c \<noteq> CHR ''.'' \<and> \<not> is_digit_char c)"

text \<open>One round of the loop: a number, a fraction, a unit. \<open>fr f k unit\<close> is the truncated float64 product
  of the fraction \<open>f\<close> over \<open>10 ^ k\<close> with the unit.\<close>

definition duration_part :: "(int \<Rightarrow> nat \<Rightarrow> int \<Rightarrow> int) \<Rightarrow> string \<Rightarrow> (int \<times> string) option" where
  "duration_part fr s =
     (if s = [] \<or> unit_char (hd s) then None
      else (case leadingInt 0 s of
         None \<Rightarrow> None
       | Some (v, s1) \<Rightarrow>
          let pre = (length s \<noteq> length s1);
              dot = (s1 \<noteq> [] \<and> hd s1 = CHR ''.'');
              (f, k, s2) = (if dot then leadingFraction 0 0 False (tl s1) else (0, 0, s1));
              post = (dot \<and> length (tl s1) \<noteq> length s2);
              u = takeWhile unit_char s2
          in if \<not> pre \<and> \<not> post then None
             else if u = [] then None
             else (case map_of unitMap u of
                None \<Rightarrow> None
              | Some unit \<Rightarrow>
                  if v > 2 ^ 63 div unit then None
                  else let w = v * unit + (if f > 0 then fr f k unit else 0)
                       in if f > 0 \<and> w > 2 ^ 63 then None else Some (w, dropWhile unit_char s2))))"

lemma leadingInt_length: "leadingInt x s = Some (v, r) \<Longrightarrow> length r \<le> length s"
  by (induction x s rule: leadingInt.induct) (auto simp: Let_def split: if_splits)

lemma leadingFraction_length: "leadingFraction x k b s = (f, n, r) \<Longrightarrow> length r \<le> length s"
  by (induction x k b s rule: leadingFraction.induct) (auto simp: Let_def split: if_splits)

lemma drop_unit_length: "takeWhile P s \<noteq> [] \<Longrightarrow> length (dropWhile P s) < length s"
  by (cases s) (auto simp: length_dropWhile_le le_imp_less_Suc split: if_splits)

lemma duration_part_length:
  assumes "duration_part fr s = Some (w, r)"
  shows "length r < length s"
proof -
  obtain v s1 where v: "leadingInt 0 s = Some (v, s1)"
    using assms by (auto simp: duration_part_def split: if_splits option.splits)
  let ?p = "if s1 \<noteq> [] \<and> hd s1 = CHR ''.'' then leadingFraction 0 0 False (tl s1) else (0, 0, s1)"
  obtain f k s2 where p: "?p = (f, k, s2)" by (rule prod_cases3)
  have r: "takeWhile unit_char s2 \<noteq> []" "r = dropWhile unit_char s2"
    using assms v p by (auto simp: duration_part_def Let_def split: if_splits option.splits)
  have "length s2 \<le> length s1"
    using p leadingFraction_length [of 0 0 False "tl s1" f k s2] by (cases s1) (auto split: if_splits)
  then show ?thesis using leadingInt_length [OF v] drop_unit_length [OF r(1)] r(2) by simp
qed

function duration_loop :: "(int \<Rightarrow> nat \<Rightarrow> int \<Rightarrow> int) \<Rightarrow> int \<Rightarrow> string \<Rightarrow> int option" where
  "duration_loop fr d s =
     (if s = [] then Some d
      else (case duration_part fr s of
              None \<Rightarrow> None
            | Some (w, r) \<Rightarrow> if d + w > 2 ^ 63 then None else duration_loop fr (d + w) r))"
  by pat_completeness auto
termination by (relation "measure (\<lambda>(fr, d, s). length s)") (auto dest: duration_part_length)

declare duration_loop.simps [simp del]

definition ParseDuration :: "(int \<Rightarrow> nat \<Rightarrow> int \<Rightarrow> int) \<Rightarrow> string \<Rightarrow> duration option" where
  "ParseDuration fr s =
     (let neg = (s \<noteq> [] \<and> hd s = CHR ''-'');
          t = (if s \<noteq> [] \<and> (hd s = CHR ''-'' \<or> hd s = CHR ''+'') then tl s else s)
      in if t = ''0'' then Some 0
         else if t = [] then None
         else (case duration_loop fr 0 t of
                 None \<Rightarrow> None
               | Some d \<Rightarrow> if neg then Some (wrap64 (- d)) else if d > 2 ^ 63 - 1 then None else Some d))"

section \<open>Flag sets\<close>

datatype 'c flag_value = StringVar "string \<Rightarrow> 'c \<Rightarrow> 'c" | BoolVar "bool \<Rightarrow> 'c \<Rightarrow> 'c"

type_synonym 'c FlagSet = "(string \<times> 'c flag_value) list"

text \<open>The name and the value of an argument without its minuses; a name starts with a character other
  than \<^verbatim>\<open>=\<close>.\<close>

definition flag_split :: "string \<Rightarrow> string \<times> string option" where
  "flag_split name =
     (case IndexByte (tl name) CHR ''='' of
        None \<Rightarrow> (name, None)
      | Some i \<Rightarrow> (take (Suc i) name, Some (drop (i + 2) name)))"

text \<open>What an argument is: no flag at all, the terminator, or a flag (malformed when the name is).\<close>

datatype flag_arg = NonFlag | Terminator | BadFlag | FlagArg string "string option"

definition flag_arg :: "string \<Rightarrow> flag_arg" where
  "flag_arg s =
     (if length s < 2 \<or> hd s \<noteq> CHR ''-'' then NonFlag
      else if s = ''--'' then Terminator
      else let name = (if s ! 1 = CHR ''-'' then drop 2 s else drop 1 s)
           in if name = [] \<or> hd name = CHR ''-'' \<or> hd name = CHR ''='' then BadFlag
              else (case flag_split name of (n, v) \<Rightarrow> FlagArg n v))"

text \<open>The outcome: the error, or the state after the assignments and the arguments left.\<close>

fun parse_flags :: "'c FlagSet \<Rightarrow> string list \<Rightarrow> 'c \<Rightarrow> ('c \<times> string list) result" where
  "parse_flags fs [] c = Inr (c, [])"
| "parse_flags fs (s # args) c =
     (case flag_arg s of
        NonFlag \<Rightarrow> Inr (c, s # args)
      | Terminator \<Rightarrow> Inr (c, args)
      | BadFlag \<Rightarrow> Inl (New (''bad flag syntax: '' @ s))
      | FlagArg name v \<Rightarrow>
          (case map_of fs name of
             None \<Rightarrow>
               if name = ''help'' \<or> name = ''h'' then Inl (New ''flag: help requested'')
               else Inl (New (''flag provided but not defined: -'' @ name))
           | Some (BoolVar setb) \<Rightarrow>
               (case ParseBool (case v of None \<Rightarrow> ''true'' | Some t \<Rightarrow> t) of
                  None \<Rightarrow> Inl (Errorf [Lit ''invalid boolean value '', Quo (case v of None \<Rightarrow> ''true'' | Some t \<Rightarrow> t),
                             Lit '' for -'', Lit name, Lit '': parse error''])
                | Some b \<Rightarrow> parse_flags fs args (setb b c))
           | Some (StringVar sets) \<Rightarrow>
               (case v of
                  Some t \<Rightarrow> parse_flags fs args (sets t c)
                | None \<Rightarrow>
                    (case args of
                       [] \<Rightarrow> Inl (New (''flag needs an argument: -'' @ name))
                     | t # args' \<Rightarrow> parse_flags fs args' (sets t c)))))"

section \<open>What parsing assigns\<close>

text \<open>The same flags, recording every assignment (a boolean as its text) instead of making it.\<close>

definition record_flag :: "string \<times> 'c flag_value \<Rightarrow> string \<times> (string \<times> string) list flag_value" where
  "record_flag f =
     (case f of
        (n, StringVar _) \<Rightarrow> (n, StringVar (\<lambda>v as. as @ [(n, v)]))
      | (n, BoolVar _) \<Rightarrow> (n, BoolVar (\<lambda>b as. as @ [(n, if b then ''true'' else ''false'')])))"

definition recorder :: "'c FlagSet \<Rightarrow> (string \<times> string) list FlagSet" where
  "recorder fs = map record_flag fs"

definition assign :: "'c FlagSet \<Rightarrow> string \<times> string \<Rightarrow> 'c \<Rightarrow> 'c" where
  "assign fs a c =
     (case map_of fs (fst a) of
        None \<Rightarrow> c
      | Some (StringVar sets) \<Rightarrow> sets (snd a) c
      | Some (BoolVar setb) \<Rightarrow> setb (snd a = ''true'') c)"

lemma map_of_recorder:
  "map_of (recorder fs) n =
     (case map_of fs n of
        None \<Rightarrow> None
      | Some (StringVar _) \<Rightarrow> Some (StringVar (\<lambda>v as. as @ [(n, v)]))
      | Some (BoolVar _) \<Rightarrow> Some (BoolVar (\<lambda>b as. as @ [(n, if b then ''true'' else ''false'')])))"
  by (induction fs) (auto simp: recorder_def record_flag_def split: prod.split flag_value.split)

text \<open>Parsing into a state is parsing into a record of assignments and making them in order.\<close>

lemma parse_flags_assign:
  "parse_flags fs args (fold (assign fs) as c) =
     (case parse_flags (recorder fs) args as of
        Inl e \<Rightarrow> Inl e | Inr (as', rest) \<Rightarrow> Inr (fold (assign fs) as' c, rest))"
proof (induction "length args" arbitrary: args as rule: less_induct)
  case less
  have step: "assign fs a (fold (assign fs) as c) = fold (assign fs) (as @ [a]) c" for a by simp
  show ?case
  proof (cases args)
    case Nil
    then show ?thesis by simp
  next
    case (Cons s rest)
    have IH: "length t < length args \<Longrightarrow> parse_flags fs t (assign fs a (fold (assign fs) as c)) =
       (case parse_flags (recorder fs) t (as @ [a]) of
          Inl e \<Rightarrow> Inl e | Inr (as', r) \<Rightarrow> Inr (fold (assign fs) as' c, r))" for t a
      unfolding step by (rule less)
    show ?thesis
    proof (cases "flag_arg s")
      case (FlagArg n v)
      show ?thesis
      proof (cases "map_of fs n")
        case None
        then show ?thesis by (simp add: Cons FlagArg map_of_recorder)
      next
        case (Some f)
        show ?thesis
        proof (cases f)
          case (StringVar sets)
          have a: "sets t = assign fs (n, t)" for t by (rule ext) (simp add: assign_def Some StringVar)
          show ?thesis
          proof (cases v)
            case None
            then show ?thesis
              using IH by (cases rest) (simp_all add: Cons FlagArg map_of_recorder Some StringVar a)
          next
            case (Some t)
            then show ?thesis
              using IH [of rest] \<open>map_of fs n = Some f\<close> by (simp add: Cons FlagArg map_of_recorder StringVar a)
          qed
        next
          case (BoolVar setb)
          have a: "setb b = assign fs (n, if b then ''true'' else ''false'')" for b
            by (rule ext) (simp add: assign_def Some BoolVar)
          show ?thesis using IH [of rest]
            by (cases "ParseBool (case v of None \<Rightarrow> ''true'' | Some t \<Rightarrow> t)")
              (simp_all add: Cons FlagArg map_of_recorder Some BoolVar a del: if_split)
        qed
      qed
    qed (simp_all add: Cons)
  qed
qed

text \<open>An undefined flag ends parsing whatever follows it.\<close>

lemma undefined_flag:
  "flag_arg s = FlagArg n v \<Longrightarrow> map_of fs n = None \<Longrightarrow> \<exists>e. parse_flags fs (s # args) c = Inl e"
  by simp

end
