(* ===== verification/Config.thy ===== *)
theory Config
  imports Flags Registry "HOL-Library.Word"
begin

text \<open>
  Runtime configuration, \<^verbatim>\<open>internal/config/config.go\<close>: the records, the built-in defaults, and the four
  layers of \<^verbatim>\<open>Load\<close> (defaults, YAML file, environment, command-line flags) with the final validation.
  The YAML decoder is an argument, as are the environment of the process and the text of the file.
  A \<^verbatim>\<open>float64\<close> is its bit pattern, and \<^verbatim>\<open>strconv.ParseFloat\<close> an argument of the same record.
\<close>

section \<open>Records\<close>

type_synonym float64 = "64 word"

record ConfigServer =
  cs_Listen :: string
  cs_ReadTimeout :: duration
  cs_WriteTimeout :: duration
  cs_CORSOrigins :: "string list"

record ConfigAdmin =
  ca_Listen :: string
  ca_ReadTimeout :: duration
  ca_PprofEnabled :: bool

record ConfigLog =
  cl_Level :: string
  cl_Format :: string

record ConfigRateLimit =
  cr_RPS :: int
  cr_Burst :: int
  cr_TTL :: duration

record ConfigDatabase =
  cd_URL :: string

record ConfigMeili =
  cm_URL :: string
  cm_MasterKey :: string
  cm_APIKey :: string
  cm_WriteKey :: string

record ConfigOTel =
  co_OTLPEndpoint :: string
  co_TraceSampleRatio :: float64

record ConfigWebhook =
  cw_Secret :: string

record ConfigWorker =
  ck_AdminListen :: string
  ck_ScannerInterval :: duration
  ck_ProcessorPollInterval :: duration
  ck_MaxConcurrent :: int
  ck_GitHubAppID :: string
  ck_GitHubAppInstallationID :: string
  ck_GitHubAppPrivateKey :: string
  ck_GitHubToken :: string
  ck_SourceRepos :: "SourceRepo list"

record Config =
  c_Server :: ConfigServer
  c_Admin :: ConfigAdmin
  c_Log :: ConfigLog
  c_RateLimit :: ConfigRateLimit
  c_Database :: ConfigDatabase
  c_Meili :: ConfigMeili
  c_OTel :: ConfigOTel
  c_Webhook :: ConfigWebhook
  c_Worker :: ConfigWorker
  c_DocumentTypes :: "ConfigDocumentType list"
  c_ShutdownTimeout :: duration

definition ReadKey :: "ConfigMeili \<Rightarrow> string" where
  "ReadKey m = (if cm_APIKey m \<noteq> [] then cm_APIKey m else cm_MasterKey m)"

definition WriteSecret :: "ConfigMeili \<Rightarrow> string" where
  "WriteSecret m = (if cm_WriteKey m \<noteq> [] then cm_WriteKey m else cm_MasterKey m)"

text \<open>The default sample ratio 0.1 is the float64 with the bits 0x3FB999999999999A.\<close>

definition defaults :: Config where
  "defaults = \<lparr>
     c_Server = \<lparr>cs_Listen = '':8080'', cs_ReadTimeout = 15 * second, cs_WriteTimeout = 30 * second, cs_CORSOrigins = []\<rparr>,
     c_Admin = \<lparr>ca_Listen = ''127.0.0.1:8081'', ca_ReadTimeout = 5 * second, ca_PprofEnabled = False\<rparr>,
     c_Log = \<lparr>cl_Level = ''info'', cl_Format = ''json''\<rparr>,
     c_RateLimit = \<lparr>cr_RPS = 50, cr_Burst = 100, cr_TTL = 60 * minute\<rparr>,
     c_Database = \<lparr>cd_URL = []\<rparr>,
     c_Meili = \<lparr>cm_URL = ''http://localhost:7700'', cm_MasterKey = [], cm_APIKey = [], cm_WriteKey = []\<rparr>,
     c_OTel = \<lparr>co_OTLPEndpoint = [], co_TraceSampleRatio = 0x3FB999999999999A\<rparr>,
     c_Webhook = \<lparr>cw_Secret = []\<rparr>,
     c_Worker = \<lparr>ck_AdminListen = ''127.0.0.1:8082'', ck_ScannerInterval = 5 * minute,
       ck_ProcessorPollInterval = 2 * second, ck_MaxConcurrent = 4, ck_GitHubAppID = [], ck_GitHubAppInstallationID = [],
       ck_GitHubAppPrivateKey = [], ck_GitHubToken = [], ck_SourceRepos = []\<rparr>,
     c_DocumentTypes = default_document_types,
     c_ShutdownTimeout = 20 * second\<rparr>"

section \<open>Environment\<close>

text \<open>The process around \<^verbatim>\<open>Load\<close>: \<^verbatim>\<open>os.LookupEnv\<close>, \<^verbatim>\<open>os.ReadFile\<close> of a path (\<open>None\<close> when it does not exist),
  \<^verbatim>\<open>yaml.Unmarshal\<close> into a configuration, and the two float64 operations.\<close>

record process =
  pr_env :: "string \<Rightarrow> string option"
  pr_file :: "string \<Rightarrow> string result option"
  pr_yaml :: "string \<Rightarrow> Config \<Rightarrow> Config result"
  pr_parseFloat :: "string \<Rightarrow> float64 option"
  pr_fraction :: "int \<Rightarrow> nat \<Rightarrow> int \<Rightarrow> int"

text \<open>A typed setter: the variable's text when it is set and parses, else the old value.\<close>

definition setString :: "process \<Rightarrow> string \<Rightarrow> string \<Rightarrow> string" where
  "setString P key dst = (case pr_env P key of Some v \<Rightarrow> v | None \<Rightarrow> dst)"

definition setBool :: "process \<Rightarrow> string \<Rightarrow> bool \<Rightarrow> bool" where
  "setBool P key dst =
     (case pr_env P key of None \<Rightarrow> dst | Some v \<Rightarrow> (case ParseBool v of Some b \<Rightarrow> b | None \<Rightarrow> dst))"

definition setInt :: "process \<Rightarrow> string \<Rightarrow> int \<Rightarrow> int" where
  "setInt P key dst =
     (case pr_env P key of None \<Rightarrow> dst | Some v \<Rightarrow> (case Atoi v of Some n \<Rightarrow> n | None \<Rightarrow> dst))"

definition setFloat :: "process \<Rightarrow> string \<Rightarrow> float64 \<Rightarrow> float64" where
  "setFloat P key dst =
     (case pr_env P key of None \<Rightarrow> dst | Some v \<Rightarrow> (case pr_parseFloat P v of Some f \<Rightarrow> f | None \<Rightarrow> dst))"

definition setDuration :: "process \<Rightarrow> string \<Rightarrow> duration \<Rightarrow> duration" where
  "setDuration P key dst =
     (case pr_env P key of None \<Rightarrow> dst | Some v \<Rightarrow> (case ParseDuration (pr_fraction P) v of Some d \<Rightarrow> d | None \<Rightarrow> dst))"

definition setCommaList :: "unicode \<Rightarrow> process \<Rightarrow> string \<Rightarrow> string list \<Rightarrow> string list" where
  "setCommaList U P key dst =
     (case pr_env P key of
        None \<Rightarrow> dst
      | Some v \<Rightarrow> if v = [] then [] else filter (\<lambda>p. p \<noteq> []) (map (TrimSpace U) (Split v CHR '','')))"

definition env_server :: "unicode \<Rightarrow> process \<Rightarrow> ConfigServer \<Rightarrow> ConfigServer" where
  "env_server U P s = \<lparr>
     cs_Listen = setString P ''RFC_API_LISTEN'' (cs_Listen s),
     cs_ReadTimeout = setDuration P ''RFC_API_READ_TIMEOUT'' (cs_ReadTimeout s),
     cs_WriteTimeout = setDuration P ''RFC_API_WRITE_TIMEOUT'' (cs_WriteTimeout s),
     cs_CORSOrigins = setCommaList U P ''RFC_API_CORS_ORIGINS'' (cs_CORSOrigins s)\<rparr>"

definition env_worker :: "process \<Rightarrow> ConfigWorker \<Rightarrow> ConfigWorker" where
  "env_worker P w = w\<lparr>
     ck_AdminListen := setString P ''RFC_API_WORKER_ADMIN_LISTEN'' (ck_AdminListen w),
     ck_ScannerInterval := setDuration P ''RFC_API_WORKER_SCANNER_INTERVAL'' (ck_ScannerInterval w),
     ck_ProcessorPollInterval := setDuration P ''RFC_API_WORKER_PROCESSOR_POLL_INTERVAL'' (ck_ProcessorPollInterval w),
     ck_MaxConcurrent := setInt P ''RFC_API_WORKER_MAX_CONCURRENT'' (ck_MaxConcurrent w),
     ck_GitHubAppID := setString P ''RFC_API_WORKER_GITHUB_APP_ID'' (ck_GitHubAppID w),
     ck_GitHubAppInstallationID := setString P ''RFC_API_WORKER_GITHUB_APP_INSTALLATION_ID'' (ck_GitHubAppInstallationID w),
     ck_GitHubAppPrivateKey := setString P ''RFC_API_WORKER_GITHUB_APP_PRIVATE_KEY'' (ck_GitHubAppPrivateKey w),
     ck_GitHubToken := setString P ''GITHUB_TOKEN'' (ck_GitHubToken w)\<rparr>"

definition env_meili :: "process \<Rightarrow> ConfigMeili \<Rightarrow> ConfigMeili" where
  "env_meili P m = \<lparr>
     cm_URL = setString P ''MEILI_URL'' (cm_URL m),
     cm_MasterKey = setString P ''MEILI_MASTER_KEY'' (cm_MasterKey m),
     cm_APIKey = setString P ''MEILI_API_KEY'' (cm_APIKey m),
     cm_WriteKey = setString P ''MEILI_WRITE_KEY'' (cm_WriteKey m)\<rparr>"

definition loadEnv :: "unicode \<Rightarrow> process \<Rightarrow> Config \<Rightarrow> Config" where
  "loadEnv U P c = c\<lparr>
     c_Server := env_server U P (c_Server c),
     c_Admin := (c_Admin c)\<lparr>
       ca_Listen := setString P ''RFC_API_ADMIN_LISTEN'' (ca_Listen (c_Admin c)),
       ca_PprofEnabled := setBool P ''RFC_API_PPROF_ENABLED'' (ca_PprofEnabled (c_Admin c))\<rparr>,
     c_Log := \<lparr>
       cl_Level = setString P ''RFC_API_LOG_LEVEL'' (cl_Level (c_Log c)),
       cl_Format = setString P ''RFC_API_LOG_FORMAT'' (cl_Format (c_Log c))\<rparr>,
     c_RateLimit := \<lparr>
       cr_RPS = setInt P ''RFC_API_RATE_LIMIT_RPS'' (cr_RPS (c_RateLimit c)),
       cr_Burst = setInt P ''RFC_API_RATE_LIMIT_BURST'' (cr_Burst (c_RateLimit c)),
       cr_TTL = setDuration P ''RFC_API_RATE_LIMIT_TTL'' (cr_TTL (c_RateLimit c))\<rparr>,
     c_Database := \<lparr>cd_URL = setString P ''DATABASE_URL'' (cd_URL (c_Database c))\<rparr>,
     c_Meili := env_meili P (c_Meili c),
     c_OTel := \<lparr>
       co_OTLPEndpoint = setString P ''OTEL_EXPORTER_OTLP_ENDPOINT'' (co_OTLPEndpoint (c_OTel c)),
       co_TraceSampleRatio = setFloat P ''RFC_API_TRACE_SAMPLE_RATIO'' (co_TraceSampleRatio (c_OTel c))\<rparr>,
     c_Webhook := \<lparr>cw_Secret = setString P ''RFC_API_WEBHOOK_SECRET'' (cw_Secret (c_Webhook c))\<rparr>,
     c_Worker := env_worker P (c_Worker c),
     c_ShutdownTimeout := setDuration P ''RFC_API_SHUTDOWN_TIMEOUT'' (c_ShutdownTimeout c)\<rparr>"

section \<open>File, flags, validation\<close>

definition loadFile :: "process \<Rightarrow> string \<Rightarrow> Config \<Rightarrow> Config result" where
  "loadFile P path c =
     (case pr_file P path of
        None \<Rightarrow> Inr c
      | Some (Inl e) \<Rightarrow> Inl (Errorf [Lit ''read: '', Wrap e])
      | Some (Inr data) \<Rightarrow>
          (case pr_yaml P data c of Inl e \<Rightarrow> Inl (Errorf [Lit ''unmarshal: '', Wrap e]) | Inr c' \<Rightarrow> Inr c'))"

definition config_flags :: "Config FlagSet" where
  "config_flags = [
     (''listen'', StringVar (\<lambda>v c. c\<lparr>c_Server := (c_Server c)\<lparr>cs_Listen := v\<rparr>\<rparr>)),
     (''admin-listen'', StringVar (\<lambda>v c. c\<lparr>c_Admin := (c_Admin c)\<lparr>ca_Listen := v\<rparr>\<rparr>)),
     (''pprof'', BoolVar (\<lambda>v c. c\<lparr>c_Admin := (c_Admin c)\<lparr>ca_PprofEnabled := v\<rparr>\<rparr>)),
     (''log-level'', StringVar (\<lambda>v c. c\<lparr>c_Log := (c_Log c)\<lparr>cl_Level := v\<rparr>\<rparr>)),
     (''log-format'', StringVar (\<lambda>v c. c\<lparr>c_Log := (c_Log c)\<lparr>cl_Format := v\<rparr>\<rparr>)),
     (''database-url'', StringVar (\<lambda>v c. c\<lparr>c_Database := (c_Database c)\<lparr>cd_URL := v\<rparr>\<rparr>)),
     (''meili-url'', StringVar (\<lambda>v c. c\<lparr>c_Meili := (c_Meili c)\<lparr>cm_URL := v\<rparr>\<rparr>)),
     (''meili-master-key'', StringVar (\<lambda>v c. c\<lparr>c_Meili := (c_Meili c)\<lparr>cm_MasterKey := v\<rparr>\<rparr>)),
     (''meili-api-key'', StringVar (\<lambda>v c. c\<lparr>c_Meili := (c_Meili c)\<lparr>cm_APIKey := v\<rparr>\<rparr>)),
     (''meili-write-key'', StringVar (\<lambda>v c. c\<lparr>c_Meili := (c_Meili c)\<lparr>cm_WriteKey := v\<rparr>\<rparr>)),
     (''otel-endpoint'', StringVar (\<lambda>v c. c\<lparr>c_OTel := (c_OTel c)\<lparr>co_OTLPEndpoint := v\<rparr>\<rparr>))]"

definition loadFlags :: "string list \<Rightarrow> Config \<Rightarrow> Config result" where
  "loadFlags args c = (case parse_flags config_flags args c of Inl e \<Rightarrow> Inl e | Inr (c', rest) \<Rightarrow> Inr c')"

definition missing_fields :: "Config \<Rightarrow> string list" where
  "missing_fields c =
     (if cd_URL (c_Database c) = [] then [''DATABASE_URL''] else [])
     @ (if cm_MasterKey (c_Meili c) = [] then [''MEILI_MASTER_KEY''] else [])
     @ (if cw_Secret (c_Webhook c) = [] then [''RFC_API_WEBHOOK_SECRET''] else [])"

definition Validate :: "Config \<Rightarrow> goerr option" where
  "Validate c =
     (let missing = missing_fields c
      in if length missing > 0 then Some (Errorf [Lit ''missing required config: '', Lit (Join missing '', '')]) else None)"

definition Load :: "unicode \<Rightarrow> process \<Rightarrow> string list \<Rightarrow> string \<Rightarrow> Config result" where
  "Load U P args filePath =
     (case (if filePath \<noteq> [] then loadFile P filePath defaults else Inr defaults) of
        Inl e \<Rightarrow> Inl (Errorf [Lit ''load file '', Quo filePath, Lit '': '', Wrap e])
      | Inr c1 \<Rightarrow>
          (case loadFlags args (loadEnv U P c1) of
             Inl e \<Rightarrow> Inl (Errorf [Lit ''parse flags: '', Wrap e])
           | Inr c2 \<Rightarrow> (case Validate c2 of Some e \<Rightarrow> Inl e | None \<Rightarrow> Inr c2)))"

section \<open>Precedence\<close>

text \<open>The settings that have both an environment variable and a flag.\<close>

definition string_settings :: "(string \<times> string \<times> (Config \<Rightarrow> string)) list" where
  "string_settings = [
     (''RFC_API_LISTEN'', ''listen'', \<lambda>c. cs_Listen (c_Server c)),
     (''RFC_API_ADMIN_LISTEN'', ''admin-listen'', \<lambda>c. ca_Listen (c_Admin c)),
     (''RFC_API_LOG_LEVEL'', ''log-level'', \<lambda>c. cl_Level (c_Log c)),
     (''RFC_API_LOG_FORMAT'', ''log-format'', \<lambda>c. cl_Format (c_Log c)),
     (''DATABASE_URL'', ''database-url'', \<lambda>c. cd_URL (c_Database c)),
     (''MEILI_URL'', ''meili-url'', \<lambda>c. cm_URL (c_Meili c)),
     (''MEILI_MASTER_KEY'', ''meili-master-key'', \<lambda>c. cm_MasterKey (c_Meili c)),
     (''MEILI_API_KEY'', ''meili-api-key'', \<lambda>c. cm_APIKey (c_Meili c)),
     (''MEILI_WRITE_KEY'', ''meili-write-key'', \<lambda>c. cm_WriteKey (c_Meili c)),
     (''OTEL_EXPORTER_OTLP_ENDPOINT'', ''otel-endpoint'', \<lambda>c. co_OTLPEndpoint (c_OTel c))]"

lemma assign_fields:
  "cs_Listen (c_Server (assign config_flags (n, v) c)) = (if n = ''listen'' then v else cs_Listen (c_Server c))"
  "ca_Listen (c_Admin (assign config_flags (n, v) c)) = (if n = ''admin-listen'' then v else ca_Listen (c_Admin c))"
  "cl_Level (c_Log (assign config_flags (n, v) c)) = (if n = ''log-level'' then v else cl_Level (c_Log c))"
  "cl_Format (c_Log (assign config_flags (n, v) c)) = (if n = ''log-format'' then v else cl_Format (c_Log c))"
  "cd_URL (c_Database (assign config_flags (n, v) c)) = (if n = ''database-url'' then v else cd_URL (c_Database c))"
  "cm_URL (c_Meili (assign config_flags (n, v) c)) = (if n = ''meili-url'' then v else cm_URL (c_Meili c))"
  "cm_MasterKey (c_Meili (assign config_flags (n, v) c)) = (if n = ''meili-master-key'' then v else cm_MasterKey (c_Meili c))"
  "cm_APIKey (c_Meili (assign config_flags (n, v) c)) = (if n = ''meili-api-key'' then v else cm_APIKey (c_Meili c))"
  "cm_WriteKey (c_Meili (assign config_flags (n, v) c)) = (if n = ''meili-write-key'' then v else cm_WriteKey (c_Meili c))"
  "co_OTLPEndpoint (c_OTel (assign config_flags (n, v) c)) = (if n = ''otel-endpoint'' then v else co_OTLPEndpoint (c_OTel c))"
  by (simp_all add: assign_def config_flags_def)

lemma assign_setting:
  "(key, flag, get) \<in> set string_settings \<Longrightarrow>
   get (assign config_flags (n, v) c) = (if n = flag then v else get c)"
  unfolding string_settings_def using assign_fields [of n v c] by (simp only: list.set insert_iff empty_iff prod.inject) (elim disjE conjE; simp)

lemma loadEnv_setting:
  "(key, flag, get) \<in> set string_settings \<Longrightarrow> get (loadEnv U P c) = setString P key (get c)"
  by (auto simp: string_settings_def loadEnv_def env_server_def env_meili_def)

text \<open>The last assignment to a flag wins.\<close>

lemma fold_assign_setting:
  assumes "(key, flag, get) \<in> set string_settings"
  shows "get (fold (assign config_flags) as c) = (case map_of (rev as) flag of Some v \<Rightarrow> v | None \<Rightarrow> get c)"
proof (induction as rule: rev_induct)
  case (snoc a as)
  then show ?case using assign_setting [OF assms, of "fst a" "snd a"] by (cases a) auto
qed simp

lemma Validate_None:
  "Validate c = None \<longleftrightarrow> cd_URL (c_Database c) \<noteq> [] \<and> cm_MasterKey (c_Meili c) \<noteq> [] \<and> cw_Secret (c_Webhook c) \<noteq> []"
  by (simp add: Validate_def missing_fields_def)

lemma loadFlags_assigned:
  "loadFlags args c =
     (case parse_flags (recorder config_flags) args [] of
        Inl e \<Rightarrow> Inl e | Inr (as, rest) \<Rightarrow> Inr (fold (assign config_flags) as c))"
  using parse_flags_assign [of config_flags args "[]" c] by (auto simp: loadFlags_def split: sum.split prod.split)

text \<open>The configuration after the file layer.\<close>

definition file_layer :: "process \<Rightarrow> string \<Rightarrow> Config result" where
  "file_layer P filePath = (if filePath \<noteq> [] then loadFile P filePath defaults else Inr defaults)"

lemma Load_Inr:
  assumes "Load U P args filePath = Inr cfg"
  shows "\<exists>base as rest. file_layer P filePath = Inr base
    \<and> parse_flags (recorder config_flags) args [] = Inr (as, rest)
    \<and> cfg = fold (assign config_flags) as (loadEnv U P base) \<and> Validate cfg = None"
  using assms
  by (auto simp: Load_def loadFlags_assigned file_layer_def split: sum.splits option.splits prod.splits if_splits)


text \<open>A process without a file, with the required variables set.\<close>

definition sample_process :: process where
  "sample_process = \<lparr>
     pr_env = map_of [(''DATABASE_URL'', ''postgres://db''), (''MEILI_MASTER_KEY'', ''k''), (''RFC_API_WEBHOOK_SECRET'', ''s''),
       (''RFC_API_LISTEN'', '':9090''), (''RFC_API_LOG_LEVEL'', ''warn''), (''RFC_API_RATE_LIMIT_TTL'', ''1h30m''),
       (''RFC_API_RATE_LIMIT_RPS'', ''many'')],
     pr_file = (\<lambda>p. None), pr_yaml = (\<lambda>s c. Inr c), pr_parseFloat = (\<lambda>s. None), pr_fraction = (\<lambda>f k u. f * u div 10 ^ k)\<rparr>"

definition sample_args :: "string list" where
  "sample_args = [''--log-level'', ''info'', ''-log-level=debug'']"

lemma string_settings_some:
  "(''RFC_API_LISTEN'', ''listen'', \<lambda>c. cs_Listen (c_Server c)) \<in> set string_settings"
  "(''RFC_API_LOG_LEVEL'', ''log-level'', \<lambda>c. cl_Level (c_Log c)) \<in> set string_settings"
  "(''RFC_API_LOG_FORMAT'', ''log-format'', \<lambda>c. cl_Format (c_Log c)) \<in> set string_settings"
  by (simp_all add: string_settings_def)

lemma sample_layers:
  "parse_flags (recorder config_flags) sample_args [] = Inr ([(''log-level'', ''info''), (''log-level'', ''debug'')], [])"
  "file_layer sample_process ''config.yaml'' = Inr defaults"
  by code_simp (simp add: file_layer_def loadFile_def sample_process_def)

lemma assign_webhook: "c_Webhook (assign config_flags a c) = c_Webhook c"
  by (simp add: assign_def config_flags_def)

lemma sample_load: "\<exists>cfg. Load ascii_only sample_process sample_args ''config.yaml'' = Inr cfg"
proof -
  have "Validate (fold (assign config_flags) [(''log-level'', ''info''), (''log-level'', ''debug'')]
      (loadEnv ascii_only sample_process defaults)) = None"
    by (simp add: Validate_None assign_fields assign_webhook loadEnv_def env_meili_def setString_def sample_process_def)
  then show ?thesis
    using sample_layers by (simp add: Load_def loadFlags_assigned file_layer_def del: fold_simps)
qed


text \<open>A variable that does not parse is ignored, and validation names exactly the missing settings.\<close>

lemma malformed_env_ignored:
  "pr_env P key = Some v \<Longrightarrow> Atoi v = None \<Longrightarrow> setInt P key n = n"
  "pr_env P key = Some v \<Longrightarrow> ParseDuration (pr_fraction P) v = None \<Longrightarrow> setDuration P key d = d"
  by (simp_all add: setInt_def setDuration_def)

end
