(* ===== verification/Worker.thy ===== *)
theory Worker
  imports DiscussionFetch MeiliIndex Middleware Config
begin

text \<open>
  The worker process, \<^verbatim>\<open>internal/worker/worker.go\<close>: construction with its validation, the wiring of scanner,
  handlers and leaser, the readiness watermark with its probe, and how a run ends. Which collaborators
  are nil is a flag of the record, except the collectors of the metrics, which are given (the admin server
  dereferences them); the GitHub and Postgres libraries are arguments. Logging is left out.
\<close>

section \<open>Readiness watermark\<close>

text \<open>The atomic \<^verbatim>\<open>lastScanUnix\<close>; zero is no scan yet.\<close>

type_synonym readyState = int

definition MarkScanned :: "time \<Rightarrow> readyState \<Rightarrow> readyState" where
  "MarkScanned now r = Unix now"

definition LastScan :: "readyState \<Rightarrow> time" where
  "LastScan r = (if r = 0 then 0 else (r + 62135596800) * second)"

record scanProbe =
  sp_ready :: readyState
  sp_interval :: duration
  sp_disabled :: bool

text \<open>\<^verbatim>\<open>time.Since\<close> saturates.\<close>

definition Since :: "time \<Rightarrow> time \<Rightarrow> duration" where
  "Since now t = max int64_min (min int64_max (now - t))"

text \<open>\<open>ds\<close> prints a duration, \<open>ro\<close> rounds it to seconds.\<close>

definition scanProbe_Check :: "(duration \<Rightarrow> string) \<Rightarrow> (duration \<Rightarrow> duration) \<Rightarrow> time \<Rightarrow> scanProbe \<Rightarrow> goerr option" where
  "scanProbe_Check ds ro now s =
     (if sp_disabled s then None
      else let lst = LastScan (sp_ready s) in
        if lst = 0 then Some (New ''no scan yet'')
        else let age = Since now lst in
          if age > wrap64 (2 * sp_interval s)
          then Some (Errorf [Lit ''last scan '', Lit (ds (ro age)), Lit '' ago (interval='', Lit (ds (sp_interval s)), Lit '')''])
          else None)"

definition poolProbe_Check :: "goerr option \<Rightarrow> goerr option" where
  "poolProbe_Check ping = (case ping of Some e \<Rightarrow> Some (Errorf [Lit ''ping: '', Wrap e]) | None \<Rightarrow> None)"

section \<open>Construction\<close>

record WorkerDeps =
  wd_Config :: ConfigWorker
  wd_Registry :: "Registry option"
  wd_Pool :: bool
  wd_Store :: bool
  wd_Parsers :: "ParserRegistry option"
  wd_Indexer :: bool
  wd_Metrics :: Metrics

record 'a Worker =
  wk_cfg :: ConfigWorker
  wk_ready :: readyState
  wk_sources :: "SourceRepo list"
  wk_disabled :: bool
  wk_registry :: Registry
  wk_store :: bool
  wk_parsers :: "ParserRegistry option"
  wk_indexer :: bool
  wk_github :: "'a GithubClient option"
  wk_queue :: Queue
  wk_metrics :: Metrics

fun validateSources :: "nat \<Rightarrow> SourceRepo list \<Rightarrow> Registry \<Rightarrow> goerr option" where
  "validateSources i [] reg = None"
| "validateSources i (s # ss) reg =
     (if sr_type_id s = [] then Some (Errorf [Lit ''worker source_repos['', Dec (int i), Lit '']: type_id is required''])
      else if RegGet reg (sr_type_id s) = None
      then Some (Errorf [Lit ''worker source_repos['', Dec (int i), Lit '']: type_id '', Quo (sr_type_id s), Lit '' not in registry''])
      else if sr_repo s = [] then Some (Errorf [Lit ''worker source_repos['', Dec (int i), Lit '']: repo is required''])
      else if sr_path s = [] then Some (Errorf [Lit ''worker source_repos['', Dec (int i), Lit '']: path is required''])
      else validateSources (Suc i) ss reg)"

text \<open>The constructor of the GitHub client, with its libraries (see \<open>NewGithub\<close>).\<close>

type_synonym 'a github_new = "GithubConfig option \<Rightarrow> 'a GithubClient result"

definition github_config :: "ConfigWorker \<Rightarrow> GithubConfig" where
  "github_config cfg = \<lparr>gc_AppID = ck_GitHubAppID cfg, gc_InstallationID = ck_GitHubAppInstallationID cfg,
     gc_PrivateKey = ck_GitHubAppPrivateKey cfg, gc_Token = ck_GitHubToken cfg, gc_BaseURL = [], gc_HTTPClient = None,
     gc_MaxRetries = 0, gc_MaxBackoff = 0\<rparr>"

definition buildGitHubClient :: "'a github_new \<Rightarrow> ConfigWorker \<Rightarrow> 'a GithubClient result" where
  "buildGitHubClient new cfg =
     (let gh = github_config cfg in
      if length (gc_PrivateKey gh) = 0 \<and> gc_Token gh = []
      then Inl (New ''worker: need GITHUB_TOKEN or App creds when source_repos is non-empty'')
      else (case new (Some gh) of
              Inl e \<Rightarrow> Inl (Errorf [Lit ''build github client: '', Wrap e])
            | Inr client \<Rightarrow> Inr client))"

definition zero_options :: Queue where
  "zero_options = \<lparr>q_maxAttempt = 0, q_baseDelay = 0, q_maxDelay = 0\<rparr>"

definition NewWorker :: "'a github_new \<Rightarrow> WorkerDeps option \<Rightarrow> 'a Worker result" where
  "NewWorker new depsPtr =
     (case depsPtr of
        None \<Rightarrow> Inl (New ''worker: nil deps'')
      | Some deps \<Rightarrow>
         (case wd_Registry deps of
            None \<Rightarrow> Inl (New ''worker: nil registry'')
          | Some reg \<Rightarrow>
             (case validateSources 0 (ck_SourceRepos (wd_Config deps)) reg of
                Some e \<Rightarrow> Inl e
              | None \<Rightarrow>
                 if \<not> wd_Pool deps then Inl (New ''worker: nil pool'')
                 else
                   let srcs = ck_SourceRepos (wd_Config deps);
                       w = (\<lambda>gh. \<lparr>wk_cfg = wd_Config deps, wk_ready = 0, wk_sources = srcs, wk_disabled = (length srcs = 0),
                              wk_registry = reg, wk_store = wd_Store deps, wk_parsers = wd_Parsers deps,
                              wk_indexer = wd_Indexer deps, wk_github = gh, wk_queue = NewQueue zero_options, wk_metrics = wd_Metrics deps\<rparr>)
                   in if length srcs = 0 then Inr (w None)
                      else (case buildGitHubClient new (wd_Config deps) of
                              Inl e \<Rightarrow> Inl e
                            | Inr client \<Rightarrow> Inr (w (Some client))))))"

section \<open>Loops\<close>

text \<open>The constructors of the ingest and reindex handlers check their collaborators.\<close>

definition NewIngest :: "bool \<Rightarrow> bool \<Rightarrow> bool \<Rightarrow> ParserRegistry option \<Rightarrow> Registry option \<Rightarrow> goerr option" where
  "NewIngest store fetcher queue parsers types =
     (if \<not> store then Some (New ''ingest: nil store'')
      else if \<not> fetcher then Some (New ''ingest: nil fetcher'')
      else if \<not> queue then Some (New ''ingest: nil queue'')
      else if parsers = None then Some (New ''ingest: nil parsers'')
      else if types = None then Some (New ''ingest: nil types'')
      else None)"

definition NewReindex :: "bool \<Rightarrow> bool \<Rightarrow> goerr option" where
  "NewReindex store indexer =
     (if \<not> store then Some (New ''reindex: nil store'')
      else if \<not> indexer then Some (New ''reindex: nil indexer'')
      else None)"

definition runScanner :: "'a Worker \<Rightarrow> Scanner result" where
  "runScanner w =
     (if \<not> wk_store w then Inl (New ''worker: nil store; cannot scan'')
      else (case NewScanner (Some \<lparr>sg_sources = wk_sources w, sg_fetcher = True, sg_store = True, sg_queue = True,
                    sg_interval = ck_ScannerInterval (wk_cfg w), sg_onScan = True\<rparr>) of
              Inl e \<Rightarrow> Inl (Errorf [Lit ''scanner: '', Wrap e])
            | Inr s \<Rightarrow> Inr s))"

definition processor_kinds :: "'a Worker \<Rightarrow> (string \<times> int) list" where
  "processor_kinds w =
     (let n = ck_MaxConcurrent (wk_cfg w)
      in [(''ingest'', n), (''discussion_fetch'', n)] @ (if wk_indexer w then [(''reindex'', n), (''search_delete'', n)] else []))"

definition hostname :: "string result \<Rightarrow> string" where
  "hostname h = (case h of Inl e \<Rightarrow> ''unknown'' | Inr s \<Rightarrow> if s = [] then ''unknown'' else s)"

definition WorkerID :: "string \<Rightarrow> string \<Rightarrow> int \<Rightarrow> string" where
  "WorkerID uuid host pid = host @ ''/'' @ Itoa pid @ ''/'' @ take 8 uuid"

definition runProcessor :: "string result \<Rightarrow> int \<Rightarrow> string \<Rightarrow> 'a Worker \<Rightarrow> Leaser result" where
  "runProcessor host pid uuid w =
     (if \<not> wk_store w \<or> wk_parsers w = None then Inl (New ''worker: nil store or parsers; cannot process'')
      else (case NewIngest (wk_store w) True True (wk_parsers w) (Some (wk_registry w)) of
         Some e \<Rightarrow> Inl (Errorf [Lit ''ingest handler: '', Wrap e])
       | None \<Rightarrow>
        (case NewDiscussion (Some \<lparr>dc_store = wk_store w, dc_fetcher = True, dc_queue = True, dc_sources = wk_sources w,
                  dc_active = 0, dc_archived = 0\<rparr>) of
           Inl e \<Rightarrow> Inl (Errorf [Lit ''discussion handler: '', Wrap e])
         | Inr h \<Rightarrow>
          (case (if wk_indexer w then NewReindex (wk_store w) True else None) of
             Some e \<Rightarrow> Inl (Errorf [Lit ''reindex handler: '', Wrap e])
           | None \<Rightarrow>
            (case NewLeaser (Some \<lparr>lo_queue = Some (wk_queue w), lo_worker = WorkerID uuid (hostname host) pid,
                      lo_kinds = processor_kinds w, lo_interval = ck_ProcessorPollInterval (wk_cfg w),
                      lo_metrics = Some (newLeaseMetrics (Some (wk_metrics w)))\<rparr>) of
               Inl e \<Rightarrow> Inl (Errorf [Lit ''build leaser: '', Wrap e])
             | Inr l \<Rightarrow> Inr l)))))"

text \<open>The probes of the admin port, with what each answers now.\<close>

definition buildAdmin :: "(duration \<Rightarrow> string) \<Rightarrow> (duration \<Rightarrow> duration) \<Rightarrow> goerr option \<Rightarrow> time \<Rightarrow> 'a Worker \<Rightarrow> (string \<times> goerr option) list" where
  "buildAdmin ds ro ping now w =
     [AlwaysReady, (''postgres'', poolProbe_Check ping),
      (''scanner'', scanProbe_Check ds ro now
         \<lparr>sp_ready = wk_ready w, sp_interval = ck_ScannerInterval (wk_cfg w), sp_disabled = wk_disabled w\<rparr>)]"

text \<open>The start of a run, a completed scan, and the value a run returns, from the first error of its
  goroutines and the state of the caller's context.\<close>

definition Run_start :: "time \<Rightarrow> 'a Worker \<Rightarrow> 'a Worker" where
  "Run_start now w = w\<lparr>wk_ready := MarkScanned now (wk_ready w)\<rparr>"

definition Run_scanned :: "time \<Rightarrow> 'a Worker \<Rightarrow> 'a Worker" where
  "Run_scanned now w = w\<lparr>wk_ready := MarkScanned now (wk_ready w)\<rparr>"

definition Run_result :: "goerr option \<Rightarrow> goerr option \<Rightarrow> goerr option" where
  "Run_result waitErr ctxErr =
     (case waitErr of Some e \<Rightarrow> if error_is e ContextCanceled then ctxErr else Some e | None \<Rightarrow> ctxErr)"

end
