(* ===== verification/WorkerSystem.thy ===== *)
theory WorkerSystem
  imports Worker
begin

text \<open>
  The running worker as a transition system over database and job table: scans of its sources, ingest
  and discussion jobs, and the queue operations of its leaser, under every behaviour of GitHub and the
  database. The invariant says that every stored document has a registered type and that every queued
  job has a handler. Then the readiness endpoint over the life of a worker.
\<close>

section \<open>Kinds of jobs\<close>

context enqueuer
begin

definition kinds_in :: "string set \<Rightarrow> 'q \<Rightarrow> bool" where
  "kinds_in K q \<longleftrightarrow> (\<forall>k d. has q k d \<longrightarrow> k \<in> K)"

lemma enq_kinds: "enq kind key body t q = (q', err) \<Longrightarrow> kinds_in K q \<Longrightarrow> kind \<in> K \<Longrightarrow> kinds_in K q'"
  unfolding kinds_in_def by (metis enq_only prod.inject)

lemma enq_kinds_fst: "kinds_in K q \<Longrightarrow> kind \<in> K \<Longrightarrow> kinds_in K (fst (enq kind key body t q))"
  by (cases "enq kind key body t q") (auto dest: enq_kinds)

lemma changed_kinds:
  "enqueue_changed enq src existing fs q = (q', err) \<Longrightarrow> kinds_in K q \<Longrightarrow> ''ingest'' \<in> K \<Longrightarrow> kinds_in K q'"
  unfolding kinds_in_def by (metis changed_only)

lemma missing_kinds:
  "delete_missing U del enq src remote paths (d, q) = (d', q') \<Longrightarrow> kinds_in K q \<Longrightarrow> ''search_delete'' \<in> K \<Longrightarrow> kinds_in K q'"
proof (induction paths arbitrary: d q)
  case (Cons p ps)
  let ?i = "canonicalFromPath U src p"
  obtain d1 e where d1: "del ?i d = (d1, e)" by (rule prod.exhaust)
  show ?case
    using Cons.prems Cons.IH enq_kinds_fst [of K q "''search_delete''"]
    by (auto simp: Let_def d1 split: if_splits option.splits)
qed simp

lemma scan_kinds:
  assumes "scanSource U S src (d, q) = ((d', q'), err)" and "sc_enqueue S = enq"
    and "kinds_in K q" and "{''ingest'', ''search_delete''} \<subseteq> K"
  shows "kinds_in K q'"
proof -
  have c: "''ingest'' \<in> K" "''search_delete'' \<in> K" using assms(4) by auto
  show ?thesis
    using assms(1,3) c changed_kinds [of src _ _ q _ _ K] missing_kinds [of U "sc_delete S" src _ _ d _ d' q' K]
    by (auto simp: scanSource_def assms(2) Let_def split: sum.splits prod.splits option.splits)
qed

lemma ingest_kinds:
  assumes "ingest_Handle je F parsers types upsert enq job (d, q) = ((d', q'), err)"
    and "kinds_in K q" and "{''reindex'', ''discussion_fetch''} \<subseteq> K"
  shows "kinds_in K q'"
proof -
  have e: "kinds_in K q1" if "ingest_enqueue enq p doc q = (q1, e)" for p doc q1 e
  proof -
    obtain q2 e2 where q2: "enq ''reindex'' (''doc:'' @ d_id doc) (reindex_payload (d_id doc)) 0 q = (q2, e2)"
      by (rule prod.exhaust)
    then have "kinds_in K q2" using assms(2,3) by (auto intro: enq_kinds)
    then show ?thesis
      using that q2 assms(3) enq_kinds_fst [of K q2 "''discussion_fetch''"]
      by (auto simp: ingest_enqueue_def split: option.splits)
  qed
  show ?thesis
    using assms(1,2) e by (auto simp: ingest_Handle_def split: option.splits sum.splits prod.splits)
qed

lemma all_kinds:
  "(\<And>x k d b t. f x = Some (k, d, b, t) \<Longrightarrow> k \<in> K) \<Longrightarrow> kinds_in K q \<Longrightarrow> kinds_in K (enq_all f xs q)"
  unfolding kinds_in_def by (metis enq_all_only)

lemma discussion_kinds:
  assumes "discussion_Handle U je now F up enq h job (d, q) = ((d', q'), err)"
    and "kinds_in K q" and "''discussion_fetch'' \<in> K"
  shows "kinds_in K q'"
proof -
  have f: "kinds_in K q1" if "fetchOne U now F up enq h p (d, q) = ((d1, q1), e)" for p d1 q1 e
    using that assms(2,3) enq_kinds_fst [of K q "''discussion_fetch''"]
    by (auto simp: fetchOne_def Let_def split: sum.splits list.splits prod.splits option.splits)
  have x: "kinds_in K q1" if "expandPR U F enq h p q = (q1, e)" for p q1 e
  proof -
    have "kinds_in K (enq_all (direct_job U h p) files q)" for files
      using assms(2,3) by (intro all_kinds) (auto simp: direct_job_def Let_def split: option.splits if_splits)
    then show ?thesis using that assms(2) by (auto simp: expandPR_def enq_all_def split: sum.splits)
  qed
  show ?thesis
    using assms(1,2) f x by (auto simp: discussion_Handle_def split: option.splits prod.splits if_splits)
qed

end

section \<open>Documents the writes leave\<close>

lemma Upsert_documents:
  assumes "pg_Upsert env (Some doc) db = (db', err)"
  shows "t_documents db' = t_documents db \<or> t_documents db' = t_documents (upserted env doc db)"
proof -
  let ?tx = "bindR (pg_try env ''begin upsert'' db) (\<lambda>db0. bindR (upsertDocument env doc db0) (\<lambda>db1.
      bindR (replaceAuthors env doc db1) (replaceLinks env doc)))"
  have "t_documents db1 = t_documents (upserted env doc db)" if "?tx = Inr db1" for db1
    using that
    by (auto simp: bindR_Inr pg_try_Inr upsertDocument_Inr replaceAuthors_def replaceLinks_def
        dest!: insert_authors_Inr insert_links_tables)
  then show ?thesis
    using assms by (auto simp: pg_Upsert_def split: if_splits elim!: commit_tx_cases)
qed

lemma upserted_types: "r \<in> set (t_documents (upserted env doc db)) \<Longrightarrow> dr_type r = d_type doc \<or> r \<in> set (t_documents db)"
  by (auto simp: upserted_def doc_row_def split: if_splits)

lemma insert_participants_documents:
  "insert_participants env i n ps db = Inr db' \<Longrightarrow> t_documents db' = t_documents db"
  by (induction ps arbitrary: n db) (auto simp: bindR_Inr pg_insert_Inr insert_participant_def split: if_splits)

lemma UpsertDiscussion_documents:
  assumes "UpsertDiscussion env i disc db = (db', err)"
  shows "t_documents db' = t_documents db"
proof -
  have r: "t_documents db1 = t_documents db" if "upsert_discussion_row env i disc db = Some db1" for db1
    using that by (auto simp: upsert_discussion_row_def split: if_splits)
  show ?thesis
    using assms
    by (auto simp: UpsertDiscussion_def bindR_Inr pg_try_Inr pg_insert_Inr split: if_splits elim!: commit_tx_cases
        dest!: insert_participants_documents r)
qed

lemma Delete_documents: "pg_Delete env i db = (db', err) \<Longrightarrow> set (t_documents db') \<subseteq> set (t_documents db)"
  by (cases "pg_commit env") (auto simp: pg_Delete_def delete_stmt_def split: if_splits)

lemma missing_documents:
  "delete_missing U (pg_Delete env) enq src remote paths (db, q) = (db', q') \<Longrightarrow> set (t_documents db') \<subseteq> set (t_documents db)"
proof (induction paths arbitrary: db q)
  case (Cons p ps)
  obtain db1 e where d: "pg_Delete env (canonicalFromPath U src p) db = (db1, e)" by (rule prod.exhaust)
  show ?case
    using Cons.prems Cons.IH [of db1] Cons.IH [of db] Delete_documents [OF d]
    by (fastforce simp: Let_def d split: if_splits option.splits)
qed simp

lemma scan_documents:
  "scanSource U (pg_scan env E ls ordr ordx) src (db, q) = ((db', q'), err) \<Longrightarrow> set (t_documents db') \<subseteq> set (t_documents db)"
  by (auto simp: scanSource_def pg_scan_def Let_def split: sum.splits prod.splits option.splits
      dest!: missing_documents)

section \<open>The system\<close>

type_synonym world = "DB \<times> (jobs \<times> nat)"

datatype wlabel = WScan SourceRepo | WIngest Job | WDiscuss Job | WQueue qlabel

text \<open>The steps of a worker; a queue step is any operation of a leaser (enqueueing is what the other
  steps do).\<close>

inductive worker_step :: "'a Worker \<Rightarrow> world \<Rightarrow> wlabel \<Rightarrow> world \<Rightarrow> bool" for w where
  step_scan: "src \<in> set (wk_sources w) \<Longrightarrow>
    scanSource U (pg_scan env E ls ordr ordx) src st = (st', err) \<Longrightarrow> worker_step w st (WScan src) st'"
| step_ingest: "wk_parsers w = Some parsers \<Longrightarrow>
    ingest_Handle je F parsers (wk_registry w) (\<lambda>doc. pg_Upsert env (Some doc)) (jobs_enq E) job st = (st', err) \<Longrightarrow>
    worker_step w st (WIngest job) st'"
| step_discuss: "discussion_Handle U je now DF (UpsertDiscussion env) (jobs_enq E) h job st = (st', err) \<Longrightarrow>
    worker_step w st (WDiscuss job) st'"
| step_queue: "qstep (wk_queue w) js l js' \<Longrightarrow> (\<And>kind key. l \<noteq> LEnqueue kind key) \<Longrightarrow>
    worker_step w (db, (js, n)) (WQueue l) (db, (js', n))"

text \<open>A parser gives its documents the type it is asked for; both parsers of the program do.\<close>

definition typed_parser :: "parser \<Rightarrow> bool" where
  "typed_parser parse \<longleftrightarrow> (\<forall>raw dt src doc. parse raw dt src = Inr doc \<longrightarrow> d_type doc = dt_id dt)"

lemma docz_typed: "typed_parser (docz_Parse U M now)"
  by (auto simp: typed_parser_def docz_Parse_def bindR_Inr Let_def split: if_splits)

lemma test_typed: "typed_parser (test_Parse U y now)"
  by (auto simp: typed_parser_def test_Parse_def Let_def split: sum.splits option.splits if_splits)

definition typed_db :: "Registry \<Rightarrow> DB \<Rightarrow> bool" where
  "typed_db reg db \<longleftrightarrow> (\<forall>r \<in> set (t_documents db). dr_type r \<in> dt_id ` set (RegList reg))"

definition handled_jobs :: "'a Worker \<Rightarrow> jobs \<times> nat \<Rightarrow> bool" where
  "handled_jobs w q \<longleftrightarrow> (\<forall>r \<in> set (fst q). j_kind r \<in> fst ` set (processor_kinds w))"

lemma handled_kinds: "handled_jobs w q \<longleftrightarrow> jq.kinds_in (fst ` set (processor_kinds w)) q"
  by (auto simp: handled_jobs_def jq.kinds_in_def has_job_def list_ex_iff same_key_def)

lemma indexer_kinds:
  "wk_indexer w \<Longrightarrow> fst ` set (processor_kinds w) = {''ingest'', ''discussion_fetch'', ''reindex'', ''search_delete''}"
  by (auto simp: processor_kinds_def Let_def)

lemma ingest_document:
  assumes "ingest_parse F parsers reg p = Inr (Some doc)" and "list_all (typed_parser \<circ> snd) parsers" and "reg_wf U reg"
  shows "d_type doc \<in> dt_id ` set (RegList reg)"
proof -
  obtain dt parse where d: "RegGet reg (ip_TypeID p) = Some dt" "ParserGet parsers (ip_Parser p) = Inr parse"
    using assms(1) by (cases "ParserGet parsers (ip_Parser p)") (auto simp: ingest_parse_def split: option.split_asm)
  have v: "ingest_validate p = None" using assms(1) by (auto simp: ingest_parse_def split: option.split_asm)
  obtain raw sha where g: "ff_GetFile F (ip_Repo p) (ip_Path p) (ingest_ref p) = Inr (raw, sha)"
    using assms(1) d v by (cases "ff_GetFile F (ip_Repo p) (ip_Path p) (ingest_ref p)") (auto simp: ingest_parse_def)
  obtain src where "parse raw dt src = Inr doc"
    using assms(1) by (auto simp: ingest_parse_def d v g Let_def split: if_split_asm sum.split_asm)
  then have "RegGet reg (ip_TypeID p) = Some dt" "ParserGet parsers (ip_Parser p) = Inr parse" "parse raw dt src = Inr doc"
    using d by auto
  moreover from this have "typed_parser parse"
    using assms(2) by (force simp: ParserGet_def list_all_iff split: option.splits dest!: map_of_SomeD)
  ultimately show ?thesis using reg.get_types [OF assms(3)] unfolding typed_parser_def by (metis image_eqI)
qed

text \<open>No queue operation of a leaser changes the kind of a row or adds one.\<close>

lemma qstep_kinds:
  assumes "qstep q js l js'" and "\<And>kind key. l \<noteq> LEnqueue kind key" and "r \<in> set js'"
  shows "j_kind r \<in> j_kind ` set js"
proof -
  have d: "j_kind r \<in> j_kind ` set js" if js1: "dead_stmt now i cause js = Some js1" "r \<in> set js1" for now i cause js1
  proof -
    obtain k where k: "k < length js1" "r = js1 ! k" using js1(2) by (auto simp: in_set_conv_nth)
    then have "(if j_id (js ! k) = i then dead_row now cause (js ! k) else Some (js ! k)) = Some r" "js ! k \<in> set js"
      using js1(1) by (auto simp: dead_stmt_def those_map_Some)
    then show ?thesis by (auto simp: dead_row_def split: if_splits intro!: image_eqI [of _ _ "js ! k"])
  qed
  show ?thesis
    using assms
  proof (cases rule: qstep.cases)
    case (step_lease db now locked worker kinds n res)
    then show ?thesis
      using assms(3) by (cases db) (auto simp: Lease_def Let_def lease_stmt_def lease_row_def split: if_splits)
  next
    case (step_succeed db i err)
    then show ?thesis using assms(3) by (cases db) (auto simp: Succeed_def succeed_stmt_def)
  next
    case (step_fail env db now i attempts cause err)
    then show ?thesis
      using assms(3) d by (cases db) (auto simp: Fail_def Let_def requeue_stmt_def split: if_splits option.splits)
  qed (use assms(2) in blast)
qed

section \<open>The invariant\<close>

definition sound_worker :: "unicode \<Rightarrow> 'a Worker \<Rightarrow> bool" where
  "sound_worker U w \<longleftrightarrow> reg_wf U (wk_registry w) \<and> wk_indexer w
     \<and> (\<forall>parsers. wk_parsers w = Some parsers \<longrightarrow> list_all (typed_parser \<circ> snd) parsers)"

definition world_ok :: "unicode \<Rightarrow> 'a Worker \<Rightarrow> world \<Rightarrow> bool" where
  "world_ok U w st \<longleftrightarrow> sound_worker U w \<and> typed_db (wk_registry w) (fst st) \<and> handled_jobs w (snd st)"

lemma typed_subset: "typed_db reg db \<Longrightarrow> set (t_documents db') \<subseteq> set (t_documents db) \<Longrightarrow> typed_db reg db'"
  by (auto simp: typed_db_def)

lemma ingest_typed:
  assumes "ingest_Handle je F parsers reg (\<lambda>doc. pg_Upsert env (Some doc)) enq job (db, q) = ((db', q'), err)"
    and "list_all (typed_parser \<circ> snd) parsers" and "reg_wf U reg" and "typed_db reg db"
  shows "typed_db reg db'"
proof -
  consider "db' = db" | p doc e where "ingest_parse F parsers reg p = Inr (Some doc)" "pg_Upsert env (Some doc) db = (db', e)"
    using assms(1) by (auto simp: ingest_Handle_def split: option.splits sum.splits prod.splits)
  then show ?thesis
  proof cases
    case 2
    then have "d_type doc \<in> dt_id ` set (RegList reg)" using assms(2,3) by (intro ingest_document)
    then show ?thesis
      using Upsert_documents [OF 2(2)] assms(4) upserted_types [of _ env doc db] unfolding typed_db_def by metis
  qed (use assms(4) in simp)
qed

lemma discussion_typed:
  assumes "discussion_Handle U je now F (UpsertDiscussion env) enq h job (db, q) = ((db', q'), err)" and "typed_db reg db"
  shows "typed_db reg db'"
proof -
  have "t_documents db1 = t_documents db" if "fetchOne U now F (UpsertDiscussion env) enq h p (db, q) = ((db1, q1), e)" for p db1 q1 e
    using that
    by (auto simp: fetchOne_def Let_def split: sum.splits list.splits prod.splits option.splits dest: UpsertDiscussion_documents)
  then show ?thesis
    using assms by (auto simp: discussion_Handle_def typed_db_def split: option.splits prod.splits if_splits)
qed

interpretation wsys: stable_under "worker_step w" "world_ok U w" "\<lambda>_. True" for U and w :: "'a Worker"
proof
  fix st l st'
  assume ok: "world_ok U w st" and "worker_step w st l st'"
  obtain db q db' q' where p: "st = (db, q)" "st' = (db', q')" by (metis surj_pair)
  have s: "sound_worker U w" "typed_db (wk_registry w) db" "jq.kinds_in (fst ` set (processor_kinds w)) q"
    using ok by (simp_all add: world_ok_def p handled_kinds)
  have K: "fst ` set (processor_kinds w) = {''ingest'', ''discussion_fetch'', ''reindex'', ''search_delete''}"
    using s(1) by (intro indexer_kinds) (simp add: sound_worker_def)
  have "typed_db (wk_registry w) db' \<and> jq.kinds_in (fst ` set (processor_kinds w)) q'"
    using \<open>worker_step w st l st'\<close>
  proof (cases rule: worker_step.cases)
    case (step_scan src U' env E ls ordr ordx err)
    then show ?thesis
      using s(2,3) typed_subset scan_documents [of U' env E ls ordr ordx src db q db' q' err]
        jq.scan_kinds [of U' "pg_scan env E ls ordr ordx" src db q db' q' err E] by (auto simp: p K pg_scan_def)
  next
    case (step_ingest parsers je F env E job err)
    then have h: "ingest_Handle je F parsers (wk_registry w) (\<lambda>doc. pg_Upsert env (Some doc)) (jobs_enq E) job (db, q) = ((db', q'), err)"
      by (simp add: p)
    have "typed_db (wk_registry w) db'"
      using ingest_typed [OF h] s(1,2) step_ingest by (auto simp: sound_worker_def)
    moreover have "jq.kinds_in (fst ` set (processor_kinds w)) q'" by (rule jq.ingest_kinds [OF h s(3)]) (simp add: K)
    ultimately show ?thesis ..
  next
    case (step_discuss U' je now DF env E h job err)
    then have d: "discussion_Handle U' je now DF (UpsertDiscussion env) (jobs_enq E) h job (db, q) = ((db', q'), err)"
      by (simp add: p)
    show ?thesis using discussion_typed [OF d s(2)] jq.discussion_kinds [OF d s(3)] by (simp add: K)
  next
    case (step_queue js l' js' db1 n)
    have "handled_jobs w (js, n)" using s(3) step_queue by (simp add: handled_kinds p)
    then have "handled_jobs w (js', n)" using qstep_kinds [of "wk_queue w" js l' js'] step_queue by (fastforce simp: handled_jobs_def)
    then show ?thesis using s(2) step_queue by (simp add: handled_kinds p)
  qed
  then show "world_ok U w st'" using s(1) by (simp add: world_ok_def p handled_kinds)
qed

text \<open>The loop of the scanner makes only such steps, so what holds of every run of the system holds while it
  runs: its passes scan the sources of the worker.\<close>

lemma pass_steps:
  assumes "set srcs \<subseteq> set (wk_sources w)" and "pass_scans U (pg_scan env E ls ordr ordx) srcs st = (d, q, errs)"
  shows "\<exists>labs. run (worker_step w) st labs (d, q)"
  using assms
proof (induction srcs arbitrary: st errs)
  case Nil
  then show ?case by (cases st) (auto intro: run_nil)
next
  case (Cons src srcs)
  obtain st' err errs' where s: "scanSource U (pg_scan env E ls ordr ordx) src st = (st', err)"
    "pass_scans U (pg_scan env E ls ordr ordx) srcs st' = (d, q, errs')"
    using Cons.prems(2) by (auto split: prod.splits)
  obtain labs where "run (worker_step w) st' labs (d, q)" using Cons.IH [OF _ s(2)] Cons.prems(1) by auto
  moreover have "worker_step w st (WScan src) st'" using Cons.prems(1) s(1) by (intro step_scan) auto
  ultimately show ?case by (blast intro: run_cons)
qed

definition pg_event :: "(DB, jobs \<times> nat) sevent \<Rightarrow> bool" where
  "pg_event e = (case e of Ticked now S \<Rightarrow> \<exists>env E ls ordr ordx. S = pg_scan env E ls ordr ordx | Stopped \<Rightarrow> True)"

lemma pass_at_steps:
  assumes "sn_sources s = wk_sources w" and "pg_event (Ticked now S)"
  shows "\<exists>labs. run (worker_step w) (fst x) labs (fst (pass_at U s now S x))"
proof (cases "sn_sources s = []")
  case True
  then show ?thesis by (auto simp: pass_at_def Pass_def intro: run_nil)
next
  case False
  obtain d q errs where p: "pass_scans U S (sn_sources s) (fst x) = (d, q, errs)" by (metis prod_cases3)
  have "fst (pass_at U s now S x) = (d, q)" using Pass_scans_all [OF False p] by (simp add: pass_at_def)
  moreover obtain env E ls ordr ordx where "S = pg_scan env E ls ordr ordx" using assms(2) by (auto simp: pg_event_def)
  then have "\<exists>labs. run (worker_step w) (fst x) labs (d, q)"
    using pass_steps [of "sn_sources s" w U env E ls ordr ordx "fst x" d q errs] assms(1) p by simp
  ultimately show ?thesis by simp
qed

lemma scanner_loop_steps:
  assumes "sn_sources s = wk_sources w" and "list_all pg_event es"
  shows "\<exists>labs. run (worker_step w) (fst x) labs (fst (fst (scanner_loop U s es x)))"
  using assms(2)
proof (induction es arbitrary: x)
  case Nil
  then show ?case by (auto intro: run_nil)
next
  case (Cons e es)
  show ?case
  proof (cases e)
    case (Ticked now S)
    have "pg_event (Ticked now S)" using Cons.prems Ticked by simp
    then obtain xs where xs: "run (worker_step w) (fst x) xs (fst (pass_at U s now S x))"
      using pass_at_steps [OF assms(1)] by blast
    obtain ys where "run (worker_step w) (fst (pass_at U s now S x)) ys (fst (fst (scanner_loop U s es (pass_at U s now S x))))"
      using Cons by fastforce
    then have "run (worker_step w) (fst x) (xs @ ys) (fst (fst (scanner_loop U s es (pass_at U s now S x))))"
      unfolding run_append using xs by blast
    then show ?thesis unfolding Ticked scanner_loop.simps by blast
  qed (auto intro: run_nil)
qed

lemma scanner_Run_steps:
  assumes "sn_sources s = wk_sources w" and "list_all pg_event (Ticked now S # es)"
  shows "\<exists>labs. run (worker_step w) st labs (fst (fst (scanner_Run U s now S es st)))"
  using scanner_loop_steps [OF assms, of "(st, [])"] by (simp add: scanner_Run_def)

lemma NewWorker_fields:
  assumes "NewWorker new (Some deps) = Inr w"
  shows "wd_Registry deps = Some (wk_registry w) \<and> wk_indexer w = wd_Indexer deps \<and> wk_parsers w = wd_Parsers deps
    \<and> wk_store w = wd_Store deps \<and> wk_cfg w = wd_Config deps \<and> wk_sources w = ck_SourceRepos (wd_Config deps)
    \<and> wk_queue w = NewQueue zero_options \<and> wk_disabled w = (wk_sources w = []) \<and> wk_ready w = 0 \<and> wk_metrics w = wd_Metrics deps"
  using assms by (auto simp: NewWorker_def Let_def split: option.splits sum.splits if_splits)

lemma runProcessor_Inr:
  assumes "wk_store w" and "wk_parsers w \<noteq> None"
  shows "\<exists>l. runProcessor host pid uuid w = Inr l \<and> le_kinds l = processor_kinds w \<and> le_queue l = wk_queue w
    \<and> le_metrics l = newLeaseMetrics (Some (wk_metrics w))"
  using assms
  by (auto simp: runProcessor_def NewIngest_def NewReindex_def NewDiscussion_def NewLeaser_def WorkerID_def processor_kinds_def Let_def
      split: option.splits)

text \<open>C33: The worker is well-typed: take a worker built from a valid configuration, with a search indexer
  and parsers that give their documents the type they are asked for, started on a database whose
  documents have registered types and a queue whose jobs it has handlers for. Then whatever GitHub, the
  database and other workers do, after any sequence of scans, ingest jobs, discussion jobs and queue
  operations every stored document has a registered type, and its leaser has a handler for every job in
  the queue, so none is dead-lettered for want of one.\<close>

theorem worker_typed:
  assumes "NewRegistry U types = Inr reg" and "NewWorker new (Some deps) = Inr w" and "wd_Registry deps = Some reg"
    and "wd_Indexer deps" and "wd_Store deps" and "wd_Parsers deps = Some parsers" and "list_all (typed_parser \<circ> snd) parsers"
    and "typed_db reg db" and "handled_jobs w q" and "run (worker_step w) (db, q) ls (db', q')"
  shows "typed_db reg db' \<and> (\<exists>l. runProcessor host pid uuid w = Inr l
     \<and> (\<forall>r \<in> set (fst q'). j_kind r \<in> set (kindList l) \<and> buildSemaphores l (j_kind r) \<noteq> None))"
proof -
  note f = NewWorker_fields [OF assms(2)]
  have "world_ok U w (db, q)"
    using f assms NewRegistry_wf [OF assms(1)] by (auto simp: world_ok_def sound_worker_def)
  then have ok: "world_ok U w (db', q')" using wsys.run_stable [OF assms(10)] by (simp add: list_all_iff)
  obtain l where l: "runProcessor host pid uuid w = Inr l" "le_kinds l = processor_kinds w"
    using runProcessor_Inr [of w host pid uuid] f assms(5,6) by (metis option.distinct(1))
  have "j_kind r \<in> fst ` set (le_kinds l)" if "r \<in> set (fst q')" for r
    using ok that by (auto simp: world_ok_def handled_jobs_def l)
  then have "j_kind r \<in> set (kindList l) \<and> buildSemaphores l (j_kind r) \<noteq> None" if "r \<in> set (fst q')" for r
    using that by (force simp: kindList_def buildSemaphores_def map_of_eq_None_iff split: option.splits)
  then show ?thesis using ok f assms(3) l(1) by (auto simp: world_ok_def)
qed

text \<open>A worker on one repository of the default type \<^verbatim>\<open>rfc\<close>, with a personal access token.\<close>

definition token_client :: "nat github_new" where
  "token_client cfg = Inr \<lparr>cl_api = 0, cl_maxRetries = 3, cl_maxBackoff = 30 * second\<rparr>"

definition one_source_config :: ConfigWorker where
  "one_source_config = (c_Worker defaults)\<lparr>ck_GitHubToken := ''t'', ck_SourceRepos := [sample_source]\<rparr>"

definition sample_deps :: WorkerDeps where
  "sample_deps = \<lparr>wd_Config = one_source_config, wd_Registry = Some (registry_of ascii_only default_types), wd_Pool = True,
     wd_Store = True, wd_Parsers = Some [(''test'', test_Parse ascii_only Inl 0)], wd_Indexer = True, wd_Metrics = unregistered\<rparr>"

lemma sample_worker: "\<exists>w. NewWorker token_client (Some sample_deps) = Inr w"
proof -
  have "validateSources 0 [sample_source] (registry_of ascii_only default_types) = None" by code_simp
  then show ?thesis
    by (simp add: NewWorker_def sample_deps_def one_source_config_def buildGitHubClient_def github_config_def token_client_def Let_def)
qed

theorem worker_typed_witness:
  "\<exists>w l db' q'. NewWorker token_client (Some sample_deps) = Inr w \<and> runProcessor (Inr ''h'') 7 ''01234567'' w = Inr l
     \<and> run (worker_step w) (scan_db, ([], 0)) [WScan sample_source] (db', q')
     \<and> typed_db (registry_of ascii_only default_types) db'
     \<and> (\<forall>r \<in> set (fst q'). j_kind r \<in> set (kindList l) \<and> buildSemaphores l (j_kind r) \<noteq> None)"
proof -
  obtain w where w: "NewWorker token_client (Some sample_deps) = Inr w" using sample_worker by blast
  have src: "sample_source \<in> set (wk_sources w)"
    using NewWorker_fields [OF w] by (simp add: sample_deps_def one_source_config_def)
  obtain db' q' e where st: "scanSource ascii_only (pg_scan (quiet_env (<) 0) all_acked (\<lambda>r p f. Inr [md_file ''d/0001.md'' ''s1'']) (\<lambda>m. m)
        (range_keys [''d/0002.md''])) sample_source (scan_db, ([], 0)) = ((db', q'), e)" by (metis surj_pair)
  have r: "run (worker_step w) (scan_db, ([], 0)) [WScan sample_source] (db', q')"
    using step_scan [OF src st] by (rule run_cons) (rule run_nil)
  have t: "typed_db (registry_of ascii_only default_types) scan_db"
    by (simp add: typed_db_def scan_db_def stored_at_def doc_row_def sample_doc_def RegList_def registry_of_def default_types_def)
  have "typed_db (registry_of ascii_only default_types) db' \<and> (\<exists>l. runProcessor (Inr ''h'') 7 ''01234567'' w = Inr l
     \<and> (\<forall>r \<in> set (fst q'). j_kind r \<in> set (kindList l) \<and> buildSemaphores l (j_kind r) \<noteq> None))"
    by (rule worker_typed [where parsers = "[(''test'', test_Parse ascii_only Inl 0)]", OF default_registry w _ _ _ _ _ t _ r])
      (simp_all add: sample_deps_def handled_jobs_def test_typed)
  then show ?thesis using w r by blast
qed

section \<open>Sources that can never be ingested\<close>

text \<open>A source without a parser passes validation, and every ingest job a scan enqueues for it fails.\<close>

lemma parserless_source:
  assumes "RegGet reg t \<noteq> None" and "t \<noteq> []" and "repo \<noteq> []" and "path \<noteq> []" and "fi_Path f \<noteq> []"
    and "job_payload job = scan_payload \<lparr>sr_type_id = t, sr_repo = repo, sr_path = path, sr_parser = [], sr_branch = b\<rparr> f"
  shows "validateSources i [\<lparr>sr_type_id = t, sr_repo = repo, sr_path = path, sr_parser = [], sr_branch = b\<rparr>] reg = None
    \<and> ingest_Handle je F parsers reg upsert enq job st =
        (st, Some (Errorf [Wrap (Sentinel ErrInvalidInput), Lit '': parser required'']))"
  using assms
  by (cases st) (auto simp: ingest_Handle_def scan_payload_decodes ingest_parse_def ingest_validate_def)

section \<open>Readiness over the life of a worker\<close>

text \<open>The worker after its start and the scans it completed since.\<close>

definition after_scans :: "time \<Rightarrow> time list \<Rightarrow> 'a Worker \<Rightarrow> 'a Worker" where
  "after_scans start scans w = fold Run_scanned scans (Run_start start w)"

lemma after_scans_fields:
  "wk_ready (after_scans start scans w) = Unix (last (start # scans))"
  "wk_cfg (after_scans start scans w) = wk_cfg w" "wk_disabled (after_scans start scans w) = wk_disabled w"
  by (induction scans rule: rev_induct)
    (simp_all add: after_scans_def Run_start_def Run_scanned_def MarkScanned_def)

lemma whole_seconds: "t div second * second \<le> t"
  by (simp add: minus_mod_eq_div_mult [symmetric] second_def)

lemma LastScan_Unix: "0 < Unix t \<Longrightarrow> LastScan (Unix t) = t div second * second"
  by (simp add: LastScan_def Unix_def second_def)

text \<open>C34: The readiness endpoint of the worker tells whether it keeps up: it answers 200 exactly when the
  database answers and the last completed scan (or the start of the worker, which counts as one),
  rounded down to a second, is at most two scan intervals ago; a worker without sources needs only the
  database. The response lists exactly the failing probes.\<close>

theorem worker_ready_window:
  assumes "0 < Unix (last (start # scans))" and "last (start # scans) \<le> now"
    and "0 \<le> ck_ScannerInterval (wk_cfg w)" and "2 * ck_ScannerInterval (wk_cfg w) < int64_max"
  shows "rs_status (HealthReady U (buildAdmin ds ro ping now (after_scans start scans w))) =
      (if ping = None \<and> (wk_disabled w \<or> now - last (start # scans) div second * second \<le> 2 * ck_ScannerInterval (wk_cfg w))
       then 200 else 503)
    \<and> failing_probes (HealthReady U (buildAdmin ds ro ping now (after_scans start scans w))) =
      (if ping = None then [] else [''postgres''])
      @ (if wk_disabled w \<or> now - last (start # scans) div second * second \<le> 2 * ck_ScannerInterval (wk_cfg w) then [] else [''scanner''])"
proof -
  define t where "t = last (start # scans)"
  note a = assms [folded t_def]
  let ?lst = "t div second * second" and ?I = "2 * ck_ScannerInterval (wk_cfg w)"
  let ?c = "scanProbe_Check ds ro now \<lparr>sp_ready = Unix t, sp_interval = ck_ScannerInterval (wk_cfg w), sp_disabled = wk_disabled w\<rparr>"
  have pos: "0 < ?lst" using a(1) by (simp add: Unix_def second_def)
  have w: "wrap64 ?I = ?I" using a(3,4) by (intro wrap64_id) (auto simp: int64_min_def)
  have "Since now ?lst \<le> ?I \<longleftrightarrow> now - ?lst \<le> ?I"
    using pos whole_seconds [of t] a(2,3,4) by (auto simp: Since_def int64_min_def)
  then have c: "?c = None \<longleftrightarrow> wk_disabled w \<or> now - ?lst \<le> ?I"
    using pos by (auto simp: scanProbe_Check_def Let_def LastScan_Unix [OF a(1)] w)
  have r: "buildAdmin ds ro ping now (after_scans start scans w) = [(''always-ready'', None), (''postgres'', poolProbe_Check ping), (''scanner'', ?c)]"
    by (simp add: buildAdmin_def AlwaysReady_def after_scans_fields t_def)
  show ?thesis
    unfolding t_def [symmetric] r using c by (cases ?c; cases ping) (auto simp: ready_report poolProbe_Check_def)
qed

text \<open>2024-01-01 and an hour later, in nanoseconds since year one; a worker that scanned a minute ago.\<close>

definition new_year :: time where
  "new_year = 63839664000 * second"

theorem worker_ready_window_witness:
  "\<exists>w. NewWorker token_client (Some sample_deps) = Inr w
     \<and> rs_status (HealthReady ascii_only (buildAdmin (\<lambda>d. []) (\<lambda>d. d) None (new_year + 61 * minute) (after_scans new_year [new_year + 60 * minute] w))) = 200
     \<and> rs_status (HealthReady ascii_only (buildAdmin (\<lambda>d. []) (\<lambda>d. d) None (new_year + 61 * minute) (after_scans new_year [] w))) = 503"
proof -
  obtain w where w: "NewWorker token_client (Some sample_deps) = Inr w" using sample_worker by blast
  have i: "ck_ScannerInterval (wk_cfg w) = 5 * minute" "\<not> wk_disabled w"
    using NewWorker_fields [OF w] by (simp_all add: sample_deps_def one_source_config_def defaults_def)
  have t: "Unix new_year = 1704067200" "Unix (new_year + 60 * minute) = 1704070800"
    by (simp_all add: Unix_def new_year_def minute_def second_def)
  show ?thesis
    using worker_ready_window [of new_year "[new_year + 60 * minute]" "new_year + 61 * minute" w ascii_only "\<lambda>d. []" "\<lambda>d. d" None]
      worker_ready_window [of new_year "[]" "new_year + 61 * minute" w ascii_only "\<lambda>d. []" "\<lambda>d. d" None] w i t
    by (intro exI [of _ w]) (simp add: minute_def second_def int64_max_def new_year_def)
qed

text \<open>With a configured interval of zero the scanner falls back to five minutes but the probe does not:
  one second after every scan the worker is reported as not ready.\<close>

lemma zero_interval_never_ready:
  assumes "ck_ScannerInterval (wk_cfg w) = 0" and "\<not> wk_disabled w" and "wk_store w" and "0 < Unix t"
    and "t + second \<le> now"
  shows "(\<exists>s. runScanner w = Inr s \<and> sn_interval s = 5 * minute)
    \<and> rs_status (HealthReady U (buildAdmin ds ro ping now (after_scans start (scans @ [t]) w))) = 503"
proof -
  have "t div second * second \<le> t" "second > 0" by (rule whole_seconds) (simp add: second_def)
  moreover from this have "LastScan (Unix t) \<noteq> 0" using assms(4) by (simp add: LastScan_def Unix_def second_def)
  moreover have "Since now (t div second * second) > 0"
    using calculation assms(5) by (auto simp: Since_def int64_max_def)
  ultimately have "scanProbe_Check ds ro now \<lparr>sp_ready = Unix t, sp_interval = 0, sp_disabled = False\<rparr> \<noteq> None"
    by (simp add: scanProbe_Check_def Let_def LastScan_Unix [OF assms(4)] wrap64_def)
  then show ?thesis
    using assms(1,2,3)
    by (auto simp: runScanner_def NewScanner_def ready_report buildAdmin_def after_scans_fields split: option.splits)
qed

end
