(* ===== verification/ServeMux.thy ===== *)
theory ServeMux
  imports Middleware
begin

text \<open>
  The request multiplexer of \<^verbatim>\<open>net/http\<close>, as far as the routers of \<^verbatim>\<open>internal/server\<close> use it: pattern
  syntax, the conflict check of registration, matching, and the redirects and errors it answers with. A
  node of the routing tree is the list of the registered patterns below it, with the segments that are
  left. Patterns have no host. The main results: a path that one pattern matches goes to that pattern
  (\<open>dispatch_unique\<close>), a path that none matches to none (\<open>dispatch_none\<close>).
\<close>

section \<open>Patterns\<close>

datatype segment = PLit string | PWild string | PMulti string

record pattern =
  pt_method :: string
  pt_segs :: "segment list"

definition pathUnescape :: "string \<Rightarrow> string" where
  "pathUnescape p = (case PathUnescape p of Some q \<Rightarrow> q | None \<Rightarrow> p)"

text \<open>The segments of a path that was split at its slashes; a last empty part is a trailing slash, and
  \<open>wname\<close> tells the names a wildcard may have.\<close>

fun parse_segs :: "(string \<Rightarrow> bool) \<Rightarrow> string list \<Rightarrow> string list \<Rightarrow> segment list option" where
  "parse_segs wname seen [] = Some []"
| "parse_segs wname seen (p # ps) =
     (if p = [] \<and> ps = [] then Some [PMulti []]
      else if CHR ''{'' \<notin> set p then map_option ((#) (PLit (pathUnescape p))) (parse_segs wname seen ps)
      else if hd p \<noteq> CHR ''{'' \<or> last p \<noteq> CHR ''}'' then None
      else let name = butlast (tl p) in
        if name = ''$'' then (if ps = [] then Some [PLit ''/''] else None)
        else let multi = HasSuffix name ''...''; name' = (if multi then take (length name - 3) name else name) in
          if (multi \<and> ps \<noteq> []) \<or> name' = [] \<or> \<not> wname name' \<or> name' \<in> set seen then None
          else map_option ((#) (if multi then PMulti name' else PWild name')) (parse_segs wname (name' # seen) ps))"

definition token_char :: "char \<Rightarrow> bool" where
  "token_char c = (is_alpha_char c \<or> is_digit_char c \<or> c \<in> set ''!#$%&'*+-.^_`|~'')"

definition blank :: "char \<Rightarrow> bool" where
  "blank c = (c = CHR '' '' \<or> c = CHR 0x09)"

definition split_method :: "string \<Rightarrow> string \<times> string" where
  "split_method s =
     (if list_ex blank s then (takeWhile (\<lambda>c. \<not> blank c) s, dropWhile blank (drop 1 (dropWhile (\<lambda>c. \<not> blank c) s)))
      else ([], s))"

text \<open>\<open>None\<close> is a syntax error, on which registration panics.\<close>

definition parsePattern :: "(string \<Rightarrow> bool) \<Rightarrow> string \<Rightarrow> pattern option" where
  "parsePattern wname s =
     (case split_method s of (method, path) \<Rightarrow>
        if method \<noteq> [] \<and> \<not> list_all token_char method then None
        else if path = [] \<or> hd path \<noteq> CHR ''/'' then None
        else if method \<noteq> [] \<and> method \<noteq> ''CONNECT'' \<and> path \<noteq> cleanPath path then None
        else map_option (\<lambda>segs. \<lparr>pt_method = method, pt_segs = segs\<rparr>) (parse_segs wname [] (Split (tl path) CHR ''/'')))"

section \<open>Registration\<close>

datatype relationship = Equivalent | MoreGeneral | MoreSpecific | Disjoint | Overlaps

fun combineRelationships :: "relationship \<Rightarrow> relationship \<Rightarrow> relationship" where
  "combineRelationships Equivalent r = r"
| "combineRelationships Disjoint r = Disjoint"
| "combineRelationships Overlaps r = (if r = Disjoint then Disjoint else Overlaps)"
| "combineRelationships MoreGeneral r = (if r = Equivalent then MoreGeneral else if r = MoreSpecific then Overlaps else r)"
| "combineRelationships MoreSpecific r = (if r = Equivalent then MoreSpecific else if r = MoreGeneral then Overlaps else r)"

definition compareMethods :: "string \<Rightarrow> string \<Rightarrow> relationship" where
  "compareMethods m m' =
     (if m = m' then Equivalent else if m = [] then MoreGeneral else if m' = [] then MoreSpecific
      else if m = ''GET'' \<and> m' = ''HEAD'' then MoreGeneral else if m' = ''GET'' \<and> m = ''HEAD'' then MoreSpecific
      else Disjoint)"

fun compareSegments :: "segment \<Rightarrow> segment \<Rightarrow> relationship" where
  "compareSegments (PMulti _) (PMulti _) = Equivalent"
| "compareSegments (PMulti _) _ = MoreGeneral"
| "compareSegments _ (PMulti _) = MoreSpecific"
| "compareSegments (PWild _) (PWild _) = Equivalent"
| "compareSegments (PWild _) (PLit s) = (if s = ''/'' then Disjoint else MoreGeneral)"
| "compareSegments (PLit s) (PWild _) = (if s = ''/'' then Disjoint else MoreSpecific)"
| "compareSegments (PLit s) (PLit s') = (if s = s' then Equivalent else Disjoint)"

fun is_multi :: "segment \<Rightarrow> bool" where
  "is_multi (PMulti _) = True"
| "is_multi _ = False"

definition ends_multi :: "segment list \<Rightarrow> bool" where
  "ends_multi segs = (segs \<noteq> [] \<and> is_multi (last segs))"

text \<open>The loop over the common length: \<open>m\<close> and \<open>m'\<close> tell whether the patterns end in a multi wildcard.\<close>

fun compare_loop :: "bool \<Rightarrow> bool \<Rightarrow> relationship \<Rightarrow> segment list \<Rightarrow> segment list \<Rightarrow> relationship" where
  "compare_loop m m' rel [] [] = rel"
| "compare_loop m m' rel [] (_ # _) = (if m then combineRelationships rel MoreGeneral else Disjoint)"
| "compare_loop m m' rel (_ # _) [] = (if m' then combineRelationships rel MoreSpecific else Disjoint)"
| "compare_loop m m' rel (s # ss) (t # ts) =
     (let rel' = combineRelationships rel (compareSegments s t)
      in if rel' = Disjoint then Disjoint else compare_loop m m' rel' ss ts)"

definition comparePaths :: "segment list \<Rightarrow> segment list \<Rightarrow> relationship" where
  "comparePaths ss ts =
     (if length ss \<noteq> length ts \<and> \<not> ends_multi ss \<and> \<not> ends_multi ts then Disjoint
      else compare_loop (ends_multi ss) (ends_multi ts) Equivalent ss ts)"

definition conflictsWith :: "pattern \<Rightarrow> pattern \<Rightarrow> bool" where
  "conflictsWith p p' =
     (let mrel = compareMethods (pt_method p) (pt_method p')
      in mrel \<noteq> Disjoint
         \<and> combineRelationships mrel (comparePaths (pt_segs p) (pt_segs p')) \<in> {Equivalent, Overlaps})"

type_synonym 'h mux = "(pattern \<times> 'h) list"

text \<open>\<^verbatim>\<open>mux.Handle\<close>, and a sequence of calls; \<open>None\<close> is a panic.\<close>

definition mux_Handle :: "(string \<Rightarrow> bool) \<Rightarrow> string \<Rightarrow> 'h \<Rightarrow> 'h mux \<Rightarrow> 'h mux option" where
  "mux_Handle wname s h mux =
     (case parsePattern wname s of None \<Rightarrow> None
      | Some p \<Rightarrow> if list_ex (\<lambda>e. conflictsWith p (fst e)) mux then None else Some (mux @ [(p, h)]))"

fun mux_register :: "(string \<Rightarrow> bool) \<Rightarrow> (string \<times> 'h) list \<Rightarrow> 'h mux \<Rightarrow> 'h mux option" where
  "mux_register wname [] mux = Some mux"
| "mux_register wname ((s, h) # rs) mux = Option.bind (mux_Handle wname s h mux) (mux_register wname rs)"

section \<open>Matching\<close>

definition firstSegment :: "string \<Rightarrow> string \<times> string" where
  "firstSegment path =
     (if path = ''/'' then (''/'', [])
      else (pathUnescape (takeWhile (\<lambda>c. c \<noteq> CHR ''/'') (drop 1 path)), dropWhile (\<lambda>c. c \<noteq> CHR ''/'') (drop 1 path)))"

text \<open>The children of a node: for a literal (the empty key is the wildcard child), for a wildcard, and
  the multi wildcard.\<close>

fun wilds :: "(segment list \<times> 'e) list \<Rightarrow> (segment list \<times> 'e) list" where
  "wilds [] = []"
| "wilds ((PWild _ # ss, e) # cs) = (ss, e) # wilds cs"
| "wilds (_ # cs) = wilds cs"

fun lits :: "string \<Rightarrow> (segment list \<times> 'e) list \<Rightarrow> (segment list \<times> 'e) list" where
  "lits k [] = []"
| "lits k ((PLit s # ss, e) # cs) = (if s = k then (ss, e) # lits k cs else lits k cs)"
| "lits k (_ # cs) = lits k cs"

definition findChild :: "string \<Rightarrow> (segment list \<times> 'e) list \<Rightarrow> (segment list \<times> 'e) list" where
  "findChild k cs = (if k = [] then wilds cs else lits k cs)"

fun multis :: "(segment list \<times> 'e) list \<Rightarrow> (string \<times> 'e) list" where
  "multis [] = []"
| "multis ((PMulti n # ss, e) # cs) = (n, e) # multis cs"
| "multis (_ # cs) = multis cs"

definition leaf :: "(segment list \<times> 'e) list \<Rightarrow> 'e option" where
  "leaf cs = (case filter (\<lambda>c. fst c = []) cs of [] \<Rightarrow> None | c # _ \<Rightarrow> Some (snd c))"

function matchPath :: "(segment list \<times> 'e) list \<Rightarrow> string \<Rightarrow> string list \<Rightarrow> ('e \<times> string list) option" where
  "matchPath cs path ms =
     (if path = [] then map_option (\<lambda>e. (e, ms)) (leaf cs)
      else (case matchPath (findChild (fst (firstSegment path)) cs) (snd (firstSegment path)) ms of
        Some x \<Rightarrow> Some x
      | None \<Rightarrow>
         (case (if fst (firstSegment path) \<noteq> ''/''
                then matchPath (wilds cs) (snd (firstSegment path)) (ms @ [fst (firstSegment path)]) else None) of
            Some x \<Rightarrow> Some x
          | None \<Rightarrow>
             (case multis cs of [] \<Rightarrow> None
              | (n, e) # _ \<Rightarrow> Some (e, if n \<noteq> [] then ms @ [pathUnescape (drop 1 path)] else ms)))))"
  by pat_completeness auto
termination
proof (relation "measure (\<lambda>(cs, path, ms). length path)")
  have "length (dropWhile (\<lambda>c. c \<noteq> CHR ''/'') (drop 1 path)) < length path" if "path \<noteq> []" for path :: string
    using that length_dropWhile_le [of "\<lambda>c. c \<noteq> CHR ''/''" "drop 1 path"] by (cases path) auto
  then show "path \<noteq> [] \<Longrightarrow> ((findChild (fst (firstSegment path)) cs, snd (firstSegment path), ms), (cs, path, ms))
      \<in> measure (\<lambda>(cs, path, ms). length path)" for cs :: "(segment list \<times> 'e) list" and path ms
    by (auto simp: firstSegment_def)
  then show "path \<noteq> [] \<Longrightarrow> ((wilds cs, snd (firstSegment path), ms @ [fst (firstSegment path)]), (cs, path, ms))
      \<in> measure (\<lambda>(cs, path, ms). length path)" for cs :: "(segment list \<times> 'e) list" and path ms by simp
qed simp

declare matchPath.simps [simp del]

definition method_node :: "'h mux \<Rightarrow> string \<Rightarrow> (segment list \<times> pattern \<times> 'h) list" where
  "method_node mux m = map (\<lambda>e. (pt_segs (fst e), e)) (filter (\<lambda>e. pt_method (fst e) = m) mux)"

definition or_else :: "'a option \<Rightarrow> 'a option \<Rightarrow> 'a option" where
  "or_else a b = (case a of Some x \<Rightarrow> Some x | None \<Rightarrow> b)"

definition mux_match :: "'h mux \<Rightarrow> string \<Rightarrow> string \<Rightarrow> ((pattern \<times> 'h) \<times> string list) option" where
  "mux_match mux method path =
     or_else (matchPath (method_node mux method) path [])
       (or_else (if method = ''HEAD'' then matchPath (method_node mux ''GET'') path [] else None)
         (matchPath (method_node mux []) path []))"

section \<open>Dispatch\<close>

definition ends_slash :: "string \<Rightarrow> bool" where
  "ends_slash path = (path \<noteq> [] \<and> last path = CHR ''/'')"

definition exactMatch :: "((pattern \<times> 'h) \<times> string list) option \<Rightarrow> string \<Rightarrow> bool" where
  "exactMatch n path =
     (case n of None \<Rightarrow> False
      | Some ((p, _), _) \<Rightarrow>
          if \<not> ends_multi (pt_segs p) then True
          else if path \<noteq> [] \<and> \<not> ends_slash path then False
          else length (pt_segs p) = length (filter (\<lambda>c. c = CHR ''/'') path))"

definition slash_redirects :: "'h mux \<Rightarrow> string \<Rightarrow> string \<Rightarrow> bool" where
  "slash_redirects mux method path =
     (\<not> exactMatch (mux_match mux method path) path \<and> \<not> ends_slash path
      \<and> exactMatch (mux_match mux method (path @ ''/'')) (path @ ''/''))"

definition methods_of :: "'h mux \<Rightarrow> string \<Rightarrow> string list" where
  "methods_of mux path =
     filter (\<lambda>m. m \<noteq> [] \<and> matchPath (method_node mux m) path [] \<noteq> None) (map (pt_method \<circ> fst) mux)"

definition matchingMethods :: "'h mux \<Rightarrow> string \<Rightarrow> string list" where
  "matchingMethods mux path =
     (let ms = methods_of mux path @ (if ends_slash path then [] else methods_of mux (path @ ''/''))
      in sort (remdups (ms @ (if ''GET'' \<in> set ms then [''HEAD''] else []))))"

datatype 'h target = Redirect string string | MethodNotAllowed "string list" | NoRoute | Found "(pattern \<times> 'h)" "string list"

definition findHandler :: "'h mux \<Rightarrow> request \<Rightarrow> 'h target" where
  "findHandler mux r =
     (let escapedPath = EscapedPath (r_Path r) (r_RawPath r);
          path = (if r_Method r = ''CONNECT'' then escapedPath else cleanPath escapedPath)
      in if slash_redirects mux (r_Method r) path then Redirect (cleanPath (r_Path r) @ ''/'') (r_RawQuery r)
         else if path \<noteq> escapedPath then Redirect path (r_RawQuery r)
         else (case mux_match mux (r_Method r) path of
                 Some (e, ms) \<Rightarrow> Found e ms
               | None \<Rightarrow> let allowed = matchingMethods mux path
                          in if length allowed > 0 then MethodNotAllowed allowed else NoRoute))"

text \<open>\<^verbatim>\<open>http.Error\<close>.\<close>

definition plain_error :: "int \<Rightarrow> string \<Rightarrow> response" where
  "plain_error status msg = \<lparr>rs_status = status,
     rs_headers = [(''Content-Type'', ''text/plain; charset=utf-8''), (''X-Content-Type-Options'', ''nosniff'')],
     rs_body = BText (msg @ [CHR 0x0A])\<rparr>"

definition NotFound :: response where
  "NotFound = plain_error 404 ''404 page not found''"

definition method_error :: "string list \<Rightarrow> response" where
  "method_error allowed = put_header ''Allow'' (Join allowed '', '') (plain_error 405 ''Method Not Allowed'')"

text \<open>\<^verbatim>\<open>PathValue("id")\<close>: the match at the position of the wildcard of that name.\<close>

fun seg_name :: "segment \<Rightarrow> string" where
  "seg_name (PLit _) = []"
| "seg_name (PWild n) = n"
| "seg_name (PMulti n) = n"

definition path_value :: "string \<Rightarrow> segment list \<Rightarrow> string list \<Rightarrow> string" where
  "path_value name segs ms =
     (case map_of (zip (filter (\<lambda>n. n \<noteq> []) (map seg_name segs)) ms) name of Some v \<Rightarrow> v | None \<Rightarrow> [])"

text \<open>\<^verbatim>\<open>ServeHTTP\<close>; \<open>redirect\<close> writes a redirect to a path and query.\<close>

definition mux_ServeHTTP :: "(string \<Rightarrow> string \<Rightarrow> response) \<Rightarrow> 'q handler mux \<Rightarrow> 'q handler" where
  "mux_ServeHTTP redirect mux r q =
     (if r_RequestURI (wh_req r) = ''*'' then (\<lparr>rs_status = 400, rs_headers = [(''Connection'', ''close'')], rs_body = BText []\<rparr>, q)
      else (case findHandler mux (wh_req r) of
              Redirect path query \<Rightarrow> (redirect path query, q)
            | MethodNotAllowed allowed \<Rightarrow> (method_error allowed, q)
            | NoRoute \<Rightarrow> (NotFound, q)
            | Found (p, h) ms \<Rightarrow> h (r\<lparr>wh_req := (wh_req r)\<lparr>r_PathID := path_value ''id'' (pt_segs p) ms\<rparr>\<rparr>) q))"

definition StripPrefix :: "string \<Rightarrow> 'q handler \<Rightarrow> 'q handler" where
  "StripPrefix pre h r q =
     (let req = wh_req r; p = TrimPrefix (r_Path req) pre; rp = TrimPrefix (r_RawPath req) pre
      in if length p < length (r_Path req) \<and> (r_RawPath req = [] \<or> length rp < length (r_RawPath req))
         then h (r\<lparr>wh_req := req\<lparr>r_Path := p, r_RawPath := rp\<rparr>\<rparr>) q
         else (NotFound, q))"

section \<open>Matching by segments\<close>

text \<open>What it means for a pattern to match a list of plain segments, with the values of its wildcards.\<close>

fun pat_match :: "segment list \<Rightarrow> string list \<Rightarrow> string list option" where
  "pat_match [] [] = Some []"
| "pat_match (PLit s # ps) (x # xs) = (if s = x then pat_match ps xs else None)"
| "pat_match (PWild n # ps) (x # xs) = map_option ((#) x) (pat_match ps xs)"
| "pat_match (PMulti n # ps) (x # xs) = Some (if n = [] then [] else [pathUnescape (drop 1 (path_of (x # xs)))])"
| "pat_match _ _ = None"

fun match_segs :: "(segment list \<times> 'e) list \<Rightarrow> string list \<Rightarrow> string list \<Rightarrow> ('e \<times> string list) option" where
  "match_segs cs [] ms = map_option (\<lambda>e. (e, ms)) (leaf cs)"
| "match_segs cs (s # ss) ms =
     or_else (match_segs (lits s cs) ss ms)
       (or_else (match_segs (wilds cs) ss (ms @ [s]))
         (case multis cs of [] \<Rightarrow> None
          | (n, e) # _ \<Rightarrow> Some (e, ms @ (if n = [] then [] else [pathUnescape (drop 1 (path_of (s # ss)))]))))"

lemma or_else_simps [simp]: "or_else (Some x) b = Some x" "or_else None b = b"
  by (simp_all add: or_else_def)

lemma or_else_Some: "or_else a b = Some x \<Longrightarrow> a = Some x \<or> (a = None \<and> b = Some x)"
  by (cases a) simp_all

lemma plain_not_slash: "plain_segment s \<Longrightarrow> s \<noteq> ''/'' \<and> s \<noteq> []"
  using plain_no_slash [of s] by (auto simp: plain_segment_def)

lemma pathUnescape_plain: "plain_segment s \<Longrightarrow> pathUnescape s = s"
proof -
  assume "plain_segment s"
  then have "CHR ''%'' \<notin> set s" using unreserved_ascii by (auto simp: plain_segment_def list_all_iff)
  then show ?thesis by (simp add: pathUnescape_def PathUnescape_id)
qed

lemma firstSegment_path_of:
  assumes "plain_segment s" and "list_all plain_segment ss"
  shows "firstSegment (path_of (s # ss)) = (s, path_of ss)"
proof -
  have n: "CHR ''/'' \<notin> set s" by (rule plain_no_slash [OF assms(1)])
  have t: "takeWhile (\<lambda>c. c \<noteq> CHR ''/'') (s @ path_of ss) = s" "dropWhile (\<lambda>c. c \<noteq> CHR ''/'') (s @ path_of ss) = path_of ss"
    using n by (cases ss; auto simp: takeWhile_append dropWhile_append)+
  have "path_of (s # ss) \<noteq> ''/''" using plain_not_slash [OF assms(1)] by simp
  then show ?thesis using t by (simp add: firstSegment_def pathUnescape_plain [OF assms(1)])
qed

lemma matchPath_segs: "list_all plain_segment segs \<Longrightarrow> matchPath cs (path_of segs) ms = match_segs cs segs ms"
proof (induction segs arbitrary: cs ms)
  case Nil
  then show ?case by (subst matchPath.simps) simp
next
  case (Cons s ss)
  then have p: "plain_segment s" "list_all plain_segment ss" by simp_all
  note f = firstSegment_path_of [OF p]
  have ne: "path_of (s # ss) \<noteq> []" by simp
  have "s \<noteq> ''/''" "s \<noteq> []" using plain_not_slash [OF p(1)] by simp_all
  then show ?case
    by (subst matchPath.simps, unfold f fst_conv snd_conv Cons.IH [OF p(2)])
       (simp add: findChild_def or_else_def split: option.split list.split)
qed

lemma wilds_iff: "(ps, e) \<in> set (wilds cs) \<longleftrightarrow> (\<exists>n. (PWild n # ps, e) \<in> set cs)"
  by (induction cs rule: wilds.induct) auto

lemma lits_iff: "(ps, e) \<in> set (lits k cs) \<longleftrightarrow> (PLit k # ps, e) \<in> set cs"
  by (induction k cs rule: lits.induct) auto

lemma multis_iff: "(n, e) \<in> set (multis cs) \<longleftrightarrow> (\<exists>ps. (PMulti n # ps, e) \<in> set cs)"
  by (induction cs rule: multis.induct) auto

lemma leaf_Some: "leaf cs = Some e \<Longrightarrow> ([], e) \<in> set cs"
proof -
  assume "leaf cs = Some e"
  then obtain c rest where "filter (\<lambda>c. fst c = []) cs = c # rest" "snd c = e" by (auto simp: leaf_def split: list.splits)
  then have "c \<in> {c \<in> set cs. fst c = []}" by (metis list.set_intros(1) set_filter)
  then show ?thesis using \<open>snd c = e\<close> by (cases c) auto
qed

lemma leaf_None: "leaf cs = None \<longleftrightarrow> (\<forall>e. ([], e) \<notin> set cs)"
proof
  show "leaf cs = None \<Longrightarrow> \<forall>e. ([], e) \<notin> set cs" by (auto simp: leaf_def filter_empty_conv split: list.splits)
  show "\<forall>e. ([], e) \<notin> set cs \<Longrightarrow> leaf cs = None" using leaf_Some by (metis option.exhaust)
qed

lemma match_segs_sound:
  "match_segs cs segs ms = Some (e, ms') \<Longrightarrow> \<exists>ps b. (ps, e) \<in> set cs \<and> pat_match ps segs = Some b \<and> ms' = ms @ b"
proof (induction segs arbitrary: cs ms)
  case Nil
  then show ?case using leaf_Some [of cs e] by (intro exI [of _ "[]"]) auto
next
  case (Cons s ss)
  from Cons.prems consider (lit) "match_segs (lits s cs) ss ms = Some (e, ms')"
    | (wild) "match_segs (wilds cs) ss (ms @ [s]) = Some (e, ms')"
    | (multi) n cs' where "multis cs = (n, e) # cs'" "ms' = ms @ (if n = [] then [] else [pathUnescape (drop 1 (path_of (s # ss)))])"
    by (auto dest!: or_else_Some split: list.splits)
  then show ?case
  proof cases
    case lit
    then obtain ps b where "(PLit s # ps, e) \<in> set cs" "pat_match ps ss = Some b" "ms' = ms @ b"
      using Cons.IH [OF lit] by (auto simp: lits_iff)
    then show ?thesis by (intro exI [of _ "PLit s # ps"] exI [of _ b]) simp
  next
    case wild
    then obtain ps b n where "(PWild n # ps, e) \<in> set cs" "pat_match ps ss = Some b" "ms' = (ms @ [s]) @ b"
      using Cons.IH [OF wild] by (auto simp: wilds_iff)
    then show ?thesis by (intro exI [of _ "PWild n # ps"] exI [of _ "s # b"]) simp
  next
    case multi
    then obtain ps where "(PMulti n # ps, e) \<in> set cs" using multis_iff [of n e cs] by auto
    then show ?thesis using multi(2) by (intro exI [of _ "PMulti n # ps"]) auto
  qed
qed

lemma match_segs_complete: "(ps, e) \<in> set cs \<Longrightarrow> pat_match ps segs = Some b \<Longrightarrow> match_segs cs segs ms \<noteq> None"
proof (induction segs arbitrary: ps cs ms b)
  case Nil
  then have "ps = []" by (cases ps rule: list.exhaust; cases "hd ps") auto
  then show ?case using Nil.prems(1) leaf_None by fastforce
next
  case (Cons s ss)
  obtain p ps' where ps: "ps = p # ps'" using Cons.prems(2) by (cases ps) auto
  show ?case
  proof (cases p)
    case (PLit k)
    then have "match_segs (lits s cs) ss ms \<noteq> None"
      using Cons.IH [of ps' "lits s cs" b ms] Cons.prems ps by (simp add: lits_iff split: if_splits)
    then show ?thesis by auto
  next
    case (PWild n)
    then obtain b' where "pat_match ps' ss = Some b'" using Cons.prems(2) ps by auto
    then have "match_segs (wilds cs) ss (ms @ [s]) \<noteq> None"
      using Cons.IH [of ps' "wilds cs" b' "ms @ [s]"] Cons.prems(1) ps PWild by (auto simp: wilds_iff)
    then show ?thesis by (auto simp: or_else_def split: option.split)
  next
    case (PMulti n)
    then have "multis cs \<noteq> []" using multis_iff [of n e cs] Cons.prems(1) ps by auto
    then show ?thesis by (auto simp: or_else_def split: option.split list.split)
  qed
qed

text \<open>A path that exactly one registered pattern matches is dispatched to it, one that none matches to
  nothing.\<close>

lemma dispatch_unique:
  assumes "list_all plain_segment segs" and "(ps, e) \<in> set cs" and "pat_match ps segs = Some b"
    and "\<And>ps' e'. (ps', e') \<in> set cs \<Longrightarrow> pat_match ps' segs \<noteq> None \<Longrightarrow> ps' = ps \<and> e' = e"
  shows "matchPath cs (path_of segs) [] = Some (e, b)"
proof -
  obtain e' ms where m: "match_segs cs segs [] = Some (e', ms)"
    using match_segs_complete [OF assms(2,3), of "[]"] by auto
  obtain ps' b' where s: "(ps', e') \<in> set cs" "pat_match ps' segs = Some b'" "ms = b'" using match_segs_sound [OF m] by auto
  then have "ps' = ps" "e' = e" using assms(4) [OF s(1)] by simp_all
  then show ?thesis using m s assms(3) by (simp add: matchPath_segs [OF assms(1)])
qed

lemma dispatch_none:
  assumes "list_all plain_segment segs" and "\<And>ps e. (ps, e) \<in> set cs \<Longrightarrow> pat_match ps segs = None"
  shows "matchPath cs (path_of segs) [] = None"
proof (rule ccontr)
  assume "matchPath cs (path_of segs) [] \<noteq> None"
  then obtain e ms where m: "match_segs cs segs [] = Some (e, ms)" by (auto simp: matchPath_segs [OF assms(1)])
  show False using match_segs_sound [OF m] assms(2) by auto
qed

end
