(* ===== verification/Router.thy ===== *)
theory Router
  imports ServeMux Config
begin

text \<open>
  The routes of the main port, \<^verbatim>\<open>internal/server/router.go\<close>, over the multiplexer of ServeMux and the
  middleware. The state a request may change is the store of the rate limiter, the cell of the request (the
  route captured for the metrics and the name of its span) and the job queue. The deadline of \<^verbatim>\<open>Timeout\<close> is
  on the context only and does not change a response here.
\<close>

section \<open>Wiring\<close>

text \<open>What is outside: the Unicode tables, decoder texts and wildcard names, how a redirect is written, the
  token buckets, the client key of a request, the time of the request, the queue, and the order of a map.\<close>

record ('l, 'q) http_env =
  he_unicode :: unicode
  he_texts :: decoder_texts
  he_wname :: "string \<Rightarrow> bool"
  he_redirect :: "string \<Rightarrow> string \<Rightarrow> response"
  he_bucket :: "'l bucket_ops"
  he_key :: "wh_request \<Rightarrow> string"
  he_now :: time
  he_enq :: "'q enqueue_fn"
  he_ord :: "(string \<times> string) list \<Rightarrow> (string \<times> string) list"

record Handlers =
  hd_Docs :: docs_ops
  hd_Registry :: Registry
  hd_Search :: search_client
  hd_Webhook :: Webhook

record V1Chain =
  vc_Timeout :: duration
  vc_CORS :: CORSConfig
  vc_RateLimit :: RateLimitConfig

definition V1ChainFromConfig :: "ConfigServer \<Rightarrow> ConfigRateLimit \<Rightarrow> V1Chain" where
  "V1ChainFromConfig srv rl = \<lparr>vc_Timeout = 30 * second, vc_CORS = DefaultCORS (cs_CORSOrigins srv),
     vc_RateLimit = \<lparr>rl_RPS = cr_RPS rl, rl_Burst = cr_Burst rl, rl_TTL = cr_TTL rl, rl_Sweep = 0\<rparr>\<rparr>"

text \<open>What a request writes through the pointers on its context: the capture, and the name of the active
  span (\<open>None\<close> when there is no valid one).\<close>

record reqcell =
  rq_capture :: Route
  rq_span :: "string option"

definition withRoute :: "string \<Rightarrow> string \<Rightarrow> ('l \<times> reqcell \<times> 'q) handler \<Rightarrow> ('l \<times> reqcell \<times> 'q) handler" where
  "withRoute typeID pattern h r s =
     (case s of (l, cell, q) \<Rightarrow>
      case ctx_With (r_ctx (wh_req r)) typeID pattern (rq_capture cell) of (ctx, capture) \<Rightarrow>
        let span = map_option (\<lambda>_. r_Method (wh_req r) @ '' '' @ pattern) (rq_span cell)
        in h (r\<lparr>wh_req := (wh_req r)\<lparr>r_ctx := ctx\<rparr>\<rparr>) (l, \<lparr>rq_capture = capture, rq_span = span\<rparr>, q))"

text \<open>The methods the routes point to.\<close>

datatype endpoint = TypesList | DocsListAll | SearchQueryEp | DocsListByType | DocsGet | DocsLinks | DocsDiscussion
  | DocsRevisions | DocsAuthors

definition call :: "('l, 'q) http_env \<Rightarrow> Handlers \<Rightarrow> endpoint \<Rightarrow> 's handler" where
  "call E H ep r s =
     (let U = he_unicode E; X = he_texts E; reg = hd_Registry H; st = hd_Docs H; req = wh_req r in
      (case ep of
         TypesList \<Rightarrow> types_List reg
       | DocsListAll \<Rightarrow> docs_ListAll U X reg st req
       | SearchQueryEp \<Rightarrow> search_Query U X reg (hd_Search H) req
       | DocsListByType \<Rightarrow> docs_ListByType U X reg st req
       | DocsGet \<Rightarrow> docs_Get U st req
       | DocsLinks \<Rightarrow> docs_Links U st req
       | DocsDiscussion \<Rightarrow> docs_Discussion U st req
       | DocsRevisions \<Rightarrow> docs_Revisions U st req
       | DocsAuthors \<Rightarrow> docs_Authors U st req, s))"

definition cross_routes :: "(string \<times> string \<times> string \<times> endpoint) list" where
  "cross_routes =
     [(''GET /types'', [], ''/api/v1/types'', TypesList), (''GET /docs'', [], ''/api/v1/docs'', DocsListAll),
      (''GET /search'', [], ''/api/v1/search'', SearchQueryEp)]"

definition type_routes :: "string \<Rightarrow> (string \<times> string \<times> string \<times> endpoint) list" where
  "type_routes t =
     (let prefix = ''/'' @ t; patternBase = ''/api/v1/'' @ t in
      [(''GET '' @ prefix, t, patternBase, DocsListByType),
       (''GET '' @ prefix @ ''/{id}'', t, patternBase @ ''/{id}'', DocsGet),
       (''GET '' @ prefix @ ''/{id}/links'', t, patternBase @ ''/{id}/links'', DocsLinks),
       (''GET '' @ prefix @ ''/{id}/discussion'', t, patternBase @ ''/{id}/discussion'', DocsDiscussion),
       (''GET '' @ prefix @ ''/{id}/revisions'', t, patternBase @ ''/{id}/revisions'', DocsRevisions),
       (''GET '' @ prefix @ ''/{id}/authors'', t, patternBase @ ''/{id}/authors'', DocsAuthors)])"

definition v1_routes :: "Registry \<Rightarrow> (string \<times> string \<times> string \<times> endpoint) list" where
  "v1_routes reg = cross_routes @ concat (map (\<lambda>t. type_routes (dt_id t)) (RegList reg))"

definition v1_handlers :: "('l, 'q) http_env \<Rightarrow> Handlers \<Rightarrow> Registry \<Rightarrow> (string \<times> ('s \<times> reqcell \<times> 't) handler) list" where
  "v1_handlers E H reg = map (\<lambda>(pat, ty, label, ep). (pat, withRoute ty label (call E H ep))) (v1_routes reg)"

text \<open>The catch-all route; \<^verbatim>\<open>fallbackMux\<close> has it alone.\<close>

definition no_route :: "('l, 'q) http_env \<Rightarrow> 's handler" where
  "no_route E r s =
     (err_Write (he_unicode E) (wh_req r) (Errorf [Lit ''no route for '', Lit (r_Method (wh_req r)), Lit '' '',
        Lit (r_Path (wh_req r)), Lit '': '', Wrap (Sentinel ErrNotFound)]), s)"

definition v1chain :: "('l, 'q) http_env \<Rightarrow> V1Chain \<Rightarrow> ('l limiterStore \<times> reqcell \<times> 'q) middleware" where
  "v1chain E v1 = Chain [CORS (Some (vc_CORS v1)),
     RateLimit (he_unicode E) (he_bucket E) (vc_RateLimit v1) (he_key E) (he_now E), Auth]"

definition on_queue :: "'q handler \<Rightarrow> ('l \<times> 'c \<times> 'q) handler" where
  "on_queue h r s = (case h r (snd (snd s)) of (resp, q) \<Rightarrow> (resp, (fst s, fst (snd s), q)))"

definition main_handlers :: "('l, 'q) http_env \<Rightarrow> Handlers \<Rightarrow> V1Chain \<Rightarrow> string \<Rightarrow> ('l limiterStore \<times> reqcell \<times> 'q) handler mux
    \<Rightarrow> (string \<times> ('l limiterStore \<times> reqcell \<times> 'q) handler) list" where
  "main_handlers E H v1 hmacSecret v1mux =
     [(''/api/v1/'', StripPrefix ''/api/v1'' (v1chain E v1 (mux_ServeHTTP (he_redirect E) v1mux))),
      (''POST /api/v1/webhooks/github'',
       on_queue (VerifyGitHubHMAC (he_unicode E) hmacSecret (GitHub (he_unicode E) (he_enq E) (he_ord E) (hd_Webhook H)))),
      (''/'', no_route E)]"

text \<open>\<open>None\<close> is a panic of the registration.\<close>

definition BuildMainHandler :: "('l, 'q) http_env \<Rightarrow> Handlers \<Rightarrow> Registry \<Rightarrow> V1Chain \<Rightarrow> string \<Rightarrow> ('l limiterStore \<times> reqcell \<times> 'q) handler option" where
  "BuildMainHandler E H reg v1 hmacSecret =
     Option.bind (mux_register (he_wname E) (v1_handlers E H reg) []) (\<lambda>v1mux.
     Option.bind (mux_register (he_wname E) (main_handlers E H v1 hmacSecret v1mux) []) (\<lambda>main.
     Some (mux_ServeHTTP (he_redirect E) main)))"

definition fallbackMux :: "('l, 'q) http_env \<Rightarrow> 's handler option" where
  "fallbackMux E = map_option (mux_ServeHTTP (he_redirect E)) (mux_register (he_wname E) [(''/'', no_route E)] [])"

section \<open>Registration\<close>

definition parsed :: "(string \<Rightarrow> bool) \<Rightarrow> (string \<times> 'h) list \<Rightarrow> 'h mux" where
  "parsed wname rs = map (\<lambda>(s, h). (the (parsePattern wname s), h)) rs"

lemma mux_register_Some:
  assumes "list_all (\<lambda>(s, h). parsePattern wname s \<noteq> None) rs"
    and "sorted_wrt (\<lambda>e e'. \<not> conflictsWith (fst e') (fst e)) (mux @ parsed wname rs)"
  shows "mux_register wname rs mux = Some (mux @ parsed wname rs)"
  using assms
proof (induction rs arbitrary: mux)
  case Nil
  then show ?case by (simp add: parsed_def)
next
  case (Cons sh rs)
  obtain s h p where sh: "sh = (s, h)" "parsePattern wname s = Some p" using Cons.prems(1) by (cases sh) auto
  have "mux_Handle wname s h mux = Some (mux @ [(p, h)])"
    using Cons.prems(2) by (auto simp: mux_Handle_def sh parsed_def sorted_wrt_append list_ex_iff)
  moreover have "mux_register wname rs (mux @ [(p, h)]) = Some ((mux @ [(p, h)]) @ parsed wname rs)"
    using Cons.IH [of "mux @ [(p, h)]"] Cons.prems by (simp add: sh parsed_def)
  ultimately show ?case by (simp add: sh parsed_def)
qed

lemma mux_register_conflict:
  assumes "mux_register wname rs mux = Some mux'"
    and "sorted_wrt (\<lambda>e e'. \<not> conflictsWith (fst e') (fst e)) mux"
  shows "sorted_wrt (\<lambda>e e'. \<not> conflictsWith (fst e') (fst e)) mux'" and "mux' = mux @ parsed wname rs"
proof -
  have "sorted_wrt (\<lambda>e e'. \<not> conflictsWith (fst e') (fst e)) mux' \<and> mux' = mux @ parsed wname rs"
    using assms(2,1)
  proof (induction rs arbitrary: mux)
    case Nil
    then show ?case by (simp add: parsed_def)
  next
    case (Cons sh rs)
    obtain s h where sh: "sh = (s, h)" by (cases sh)
    then obtain p where p: "parsePattern wname s = Some p" "\<not> list_ex (\<lambda>e. conflictsWith p (fst e)) mux"
      "mux_register wname rs (mux @ [(p, h)]) = Some mux'"
      using Cons.prems(2) by (auto simp: mux_Handle_def bind_eq_Some_conv split: option.splits if_splits)
    have "sorted_wrt (\<lambda>e e'. \<not> conflictsWith (fst e') (fst e)) (mux @ [(p, h)])"
      using p(2) Cons.prems(1) by (auto simp: sorted_wrt_append list_ex_iff)
    then have "sorted_wrt (\<lambda>e e'. \<not> conflictsWith (fst e') (fst e)) mux' \<and> mux' = (mux @ [(p, h)]) @ parsed wname rs"
      by (rule Cons.IH [OF _ p(3)])
    moreover have "(mux @ [(p, h)]) @ parsed wname rs = mux @ parsed wname (sh # rs)" using p(1) by (simp add: sh parsed_def)
    ultimately show ?case by metis
  qed
  then show "sorted_wrt (\<lambda>e e'. \<not> conflictsWith (fst e') (fst e)) mux'" "mux' = mux @ parsed wname rs" by blast+
qed

text \<open>The routes with the segments their patterns stand for, when the ids of the types are plain.\<close>

definition sub_endpoints :: "(string \<times> endpoint) list" where
  "sub_endpoints = [(''links'', DocsLinks), (''discussion'', DocsDiscussion), (''revisions'', DocsRevisions), (''authors'', DocsAuthors)]"

definition cross_table :: "(segment list \<times> string \<times> string \<times> endpoint) list" where
  "cross_table = [([PLit ''types''], [], ''/api/v1/types'', TypesList), ([PLit ''docs''], [], ''/api/v1/docs'', DocsListAll),
     ([PLit ''search''], [], ''/api/v1/search'', SearchQueryEp)]"

definition type_table :: "string \<Rightarrow> (segment list \<times> string \<times> string \<times> endpoint) list" where
  "type_table t = ([PLit t], t, ''/api/v1/'' @ t, DocsListByType) # ([PLit t, PWild ''id''], t, ''/api/v1/'' @ t @ ''/{id}'', DocsGet)
     # map (\<lambda>(x, ep). ([PLit t, PWild ''id'', PLit x], t, ''/api/v1/'' @ t @ ''/{id}/'' @ x, ep)) sub_endpoints"

definition v1_table :: "string list \<Rightarrow> (segment list \<times> string \<times> string \<times> endpoint) list" where
  "v1_table ids = cross_table @ concat (map type_table ids)"

definition get_pattern :: "segment list \<Rightarrow> pattern" where
  "get_pattern segs = \<lparr>pt_method = ''GET'', pt_segs = segs\<rparr>"

lemma parse_get:
  assumes "parts \<noteq> []" and "list_all (\<lambda>s. s \<noteq> [] \<and> s \<noteq> ''.'' \<and> s \<noteq> ''..'' \<and> CHR ''/'' \<notin> set s) parts"
  shows "parsePattern wname (''GET '' @ path_of parts) =
     map_option (\<lambda>segs. \<lparr>pt_method = ''GET'', pt_segs = segs\<rparr>) (parse_segs wname [] parts)"
proof -
  obtain s ss where parts: "parts = s # ss" using assms(1) by (cases parts) auto
  have "split_method (''GET '' @ path_of parts) = (''GET'', path_of parts)"
    by (simp add: split_method_def blank_def parts)
  moreover have "Split (tl (path_of parts)) CHR ''/'' = parts"
    using Split_path_of [of parts] assms(2) by (simp add: parts list_all_iff)
  ultimately show ?thesis using cleanPath_path_of [OF assms]
    by (simp add: parsePattern_def token_char_def is_alpha_char_def is_upper_char_def parts)
qed

lemma plain_part: "plain_segment s \<Longrightarrow> s \<noteq> [] \<and> s \<noteq> ''.'' \<and> s \<noteq> ''..'' \<and> CHR ''/'' \<notin> set s"
  using plain_no_slash by (auto simp: plain_segment_def)

lemma plain_literal: "plain_segment s \<Longrightarrow> CHR ''{'' \<notin> set s \<and> pathUnescape s = s \<and> s \<noteq> []"
  using unreserved_ascii pathUnescape_plain by (auto simp: plain_segment_def list_all_iff)

lemma parse_plain:
  assumes "plain_segment s"
  shows "parse_segs wname seen (s # ps) = map_option ((#) (PLit s)) (parse_segs wname seen ps)"
  using plain_literal [OF assms] by simp

lemma parse_id: "wname ''id'' \<Longrightarrow> ''id'' \<notin> set seen \<Longrightarrow>
    parse_segs wname seen (''{id}'' # ps) = map_option ((#) (PWild ''id'')) (parse_segs wname (''id'' # seen) ps)"
  by (simp add: HasSuffix_def Let_def suffix_def)

declare parse_segs.simps(2) [simp del]

lemma unreserved_lower [simp]: "is_lower_char c \<Longrightarrow> unreserved c"
  by (simp add: unreserved_def is_alpha_char_def)

lemma plain_names [simp]: "plain_segment ''types''" "plain_segment ''docs''" "plain_segment ''search''"
    "plain_segment ''links''" "plain_segment ''discussion''" "plain_segment ''revisions''" "plain_segment ''authors''"
    "plain_segment ''api''" "plain_segment ''v1''" "plain_segment ''webhooks''" "plain_segment ''github''"
  by (simp_all add: plain_segment_def unreserved_def is_alpha_char_def is_lower_char_def is_upper_char_def is_digit_char_def)

lemma type_patterns:
  assumes "plain_segment t" and "wname ''id''"
  shows "map (\<lambda>(pat, x). (parsePattern wname pat, x)) (type_routes t) = map (\<lambda>(segs, x). (Some (get_pattern segs), x)) (type_table t)"
proof -
  have sub: "parsePattern wname (''GET /'' @ t @ ''/{id}/'' @ x) = Some (get_pattern [PLit t, PWild ''id'', PLit x])"
    if "plain_segment x" for x
    using parse_get [of "[t, ''{id}'', x]" wname] plain_part [OF assms(1)] plain_part [OF that]
    by (simp add: get_pattern_def parse_plain [OF assms(1)] parse_id [where wname = wname, OF assms(2)] parse_plain [OF that])
  have one: "parsePattern wname (''GET /'' @ t) = Some (get_pattern [PLit t])"
    using parse_get [of "[t]" wname] plain_part [OF assms(1)] by (simp add: get_pattern_def parse_plain [OF assms(1)])
  have two: "parsePattern wname (''GET /'' @ t @ ''/{id}'') = Some (get_pattern [PLit t, PWild ''id''])"
    using parse_get [of "[t, ''{id}'']" wname] plain_part [OF assms(1)]
    by (simp add: get_pattern_def parse_plain [OF assms(1)] parse_id [where wname = wname, OF assms(2)])
  show ?thesis using sub [of "''links''"] sub [of "''discussion''"] sub [of "''revisions''"] sub [of "''authors''"] one two
    by (simp add: type_routes_def type_table_def sub_endpoints_def Let_def)
qed

lemma cross_patterns:
  "map (\<lambda>(pat, x). (parsePattern wname pat, x)) cross_routes = map (\<lambda>(segs, x). (Some (get_pattern segs), x)) cross_table"
  using parse_get [of "[''types'']" wname] parse_get [of "[''docs'']" wname] parse_get [of "[''search'']" wname]
  by (simp add: cross_routes_def cross_table_def get_pattern_def parse_plain)

lemma v1_patterns:
  assumes "list_all (\<lambda>t. plain_segment (dt_id t)) (RegList reg)" and "wname ''id''"
  shows "map (\<lambda>(pat, x). (parsePattern wname pat, x)) (v1_routes reg) =
    map (\<lambda>(segs, x). (Some (get_pattern segs), x)) (v1_table (map dt_id (RegList reg)))"
proof -
  have "map (\<lambda>(pat, x). (parsePattern wname pat, x)) (concat (map (\<lambda>t. type_routes (dt_id t)) ts)) =
    map (\<lambda>(segs, x). (Some (get_pattern segs), x)) (concat (map type_table (map dt_id ts)))"
    if "list_all (\<lambda>t. plain_segment (dt_id t)) ts" for ts
    using that by (induction ts) (simp_all add: type_patterns [where wname = wname, OF _ assms(2)])
  then show ?thesis using assms(1) by (simp add: v1_routes_def v1_table_def cross_patterns)
qed

section \<open>Conflicts\<close>

definition no_clash :: "segment list \<times> 'a \<Rightarrow> segment list \<times> 'a \<Rightarrow> bool" where
  "no_clash x y = (comparePaths (fst y) (fst x) \<notin> {Equivalent, Overlaps})"

lemma clash_get: "conflictsWith (get_pattern (fst y)) (get_pattern (fst x)) = (\<not> no_clash x y)"
  by (auto simp: conflictsWith_def no_clash_def get_pattern_def compareMethods_def Let_def)

lemma sorted_wrt_concat:
  assumes "distinct ts" and "\<And>t. t \<in> set ts \<Longrightarrow> sorted_wrt R (f t)"
    and "\<And>t t' x y. t \<in> set ts \<Longrightarrow> t' \<in> set ts \<Longrightarrow> t \<noteq> t' \<Longrightarrow> x \<in> set (f t) \<Longrightarrow> y \<in> set (f t') \<Longrightarrow> R x y"
  shows "sorted_wrt R (concat (map f ts))"
  using assms
proof (induction ts)
  case (Cons t ts)
  have "sorted_wrt R (concat (map f ts))"
  proof (rule Cons.IH)
    show "R x y" if "t1 \<in> set ts" "t2 \<in> set ts" "t1 \<noteq> t2" "x \<in> set (f t1)" "y \<in> set (f t2)" for t1 t2 x y
      by (rule Cons.prems(3) [OF _ _ that(3-5)]) (use that in simp_all)
  qed (use Cons.prems in simp_all)
  moreover have "R x y" if "x \<in> set (f t)" "t' \<in> set ts" "y \<in> set (f t')" for x y t'
    by (rule Cons.prems(3) [OF _ _ _ that(1,3)]) (use that Cons.prems(1) in auto)
  ultimately show ?case using Cons.prems(2) [of t] by (auto simp: sorted_wrt_append)
qed simp

lemma heads_differ: "a \<noteq> b \<Longrightarrow> no_clash (PLit a # ss, x) (PLit b # ts, y)"
  by (simp add: no_clash_def comparePaths_def)

lemma type_table_head: "x \<in> set (type_table t) \<Longrightarrow> \<exists>ss y. x = (PLit t # ss, y)"
  by (auto simp: type_table_def)

lemma type_table_sorted: "sorted_wrt no_clash (type_table t)"
  by (simp add: type_table_def sub_endpoints_def no_clash_def comparePaths_def ends_multi_def Let_def)

abbreviation reserved :: "string set" where
  "reserved \<equiv> {''types'', ''docs'', ''search''}"

lemma cross_table_head: "x \<in> set cross_table \<Longrightarrow> \<exists>a y. a \<in> reserved \<and> x = ([PLit a], y)"
  by (auto simp: cross_table_def)

lemma v1_table_sorted:
  assumes "distinct ids" and "set ids \<inter> reserved = {}"
  shows "sorted_wrt no_clash (v1_table ids)"
proof -
  have "sorted_wrt no_clash (concat (map type_table ids))"
  proof (rule sorted_wrt_concat [OF assms(1) type_table_sorted])
    show "no_clash x y" if "t \<noteq> t'" "x \<in> set (type_table t)" "y \<in> set (type_table t')" for t t' x y
      using type_table_head [OF that(2)] type_table_head [OF that(3)] heads_differ [OF that(1)] by auto
  qed
  moreover have "no_clash x y" if x: "x \<in> set cross_table" and t: "t \<in> set ids" and y: "y \<in> set (type_table t)" for t x y
  proof -
    obtain a b ss z where "a \<in> reserved" "x = ([PLit a], b)" "y = (PLit t # ss, z)"
      using cross_table_head [OF x] type_table_head [OF y] by blast
    moreover from this(1) have "a \<noteq> t" using t assms(2) by blast
    ultimately show ?thesis using heads_differ by simp
  qed
  moreover have "sorted_wrt no_clash cross_table" by (simp add: cross_table_def heads_differ)
  ultimately show ?thesis by (auto simp: v1_table_def sorted_wrt_append)
qed

definition v1_mux :: "('l, 'q) http_env \<Rightarrow> Handlers \<Rightarrow> string list \<Rightarrow> ('s \<times> reqcell \<times> 't) handler mux" where
  "v1_mux E H ids = map (\<lambda>(segs, ty, label, ep). (get_pattern segs, withRoute ty label (call E H ep))) (v1_table ids)"

lemma v1_parsed:
  assumes "list_all (\<lambda>t. plain_segment (dt_id t)) (RegList reg)" and "he_wname E ''id''"
  shows "list_all (\<lambda>(s, h). parsePattern (he_wname E) s \<noteq> None) (v1_handlers E H reg)
    \<and> parsed (he_wname E) (v1_handlers E H reg) = v1_mux E H (map dt_id (RegList reg))"
proof -
  let ?f = "\<lambda>(o', ty, label, ep). (the o', withRoute ty label (call E H ep))"
  note v = v1_patterns [where wname = "he_wname E", OF assms]
  have "\<exists>p. parsePattern (he_wname E) pat = Some p" if "(pat, x) \<in> set (v1_routes reg)" for pat x
  proof -
    have "(parsePattern (he_wname E) pat, x) \<in> set (map (\<lambda>(pat, x). (parsePattern (he_wname E) pat, x)) (v1_routes reg))"
      using that by force
    then show ?thesis unfolding v by auto
  qed
  then have "list_all (\<lambda>(s, h). parsePattern (he_wname E) s \<noteq> None) (v1_handlers E H reg)"
    by (fastforce simp: v1_handlers_def list_all_iff)
  moreover have "parsed (he_wname E) (v1_handlers E H reg) = v1_mux E H (map dt_id (RegList reg))"
    using arg_cong [OF v, of "map ?f"]
    by (simp add: parsed_def v1_handlers_def v1_mux_def comp_def case_prod_unfold)
  ultimately show ?thesis by simp
qed

lemma v1_register:
  assumes "list_all (\<lambda>t. plain_segment (dt_id t)) (RegList reg)" and "he_wname E ''id''"
    and "distinct (map dt_id (RegList reg))" and "dt_id ` set (RegList reg) \<inter> reserved = {}"
  shows "mux_register (he_wname E) (v1_handlers E H reg) [] = Some (v1_mux E H (map dt_id (RegList reg)))" (is "mux_register _ ?h [] = Some ?m")
proof -
  have "sorted_wrt (\<lambda>e e'. \<not> conflictsWith (fst e') (fst e)) ?m"
    using v1_table_sorted [OF assms(3)] assms(4)
    by (simp add: v1_mux_def sorted_wrt_map case_prod_unfold clash_get)
  moreover have "list_all (\<lambda>(s, h). parsePattern (he_wname E) s \<noteq> None) ?h \<and> parsed (he_wname E) ?h = ?m"
    by (rule v1_parsed [OF assms(1,2)])
  ultimately show ?thesis using mux_register_Some [of "he_wname E" ?h "[]"] by simp
qed

section \<open>Dispatch\<close>

text \<open>The routes below \<^verbatim>\<open>/api/v1\<close>: the type, the label, the method and the document id for a list of
  segments.\<close>

fun route_of :: "string list \<Rightarrow> string list \<Rightarrow> (string \<times> string \<times> endpoint \<times> string) option" where
  "route_of ids [x] =
     (if x = ''types'' then Some ([], ''/api/v1/types'', TypesList, [])
      else if x = ''docs'' then Some ([], ''/api/v1/docs'', DocsListAll, [])
      else if x = ''search'' then Some ([], ''/api/v1/search'', SearchQueryEp, [])
      else if x \<in> set ids then Some (x, ''/api/v1/'' @ x, DocsListByType, []) else None)"
| "route_of ids [t, i] = (if t \<in> set ids then Some (t, ''/api/v1/'' @ t @ ''/{id}'', DocsGet, i) else None)"
| "route_of ids [t, i, x] =
     (if t \<in> set ids
      then map_option (\<lambda>ep. (t, ''/api/v1/'' @ t @ ''/{id}/'' @ x, ep, i)) (map_of sub_endpoints x) else None)"
| "route_of ids _ = None"

fun shape :: "string list \<Rightarrow> segment list" where
  "shape [t, i] = [PLit t, PWild ''id'']"
| "shape [t, i, x] = [PLit t, PWild ''id'', PLit x]"
| "shape xs = map PLit xs"

lemma pat_match_lits:
  "pat_match [PLit a] segs = (if segs = [a] then Some [] else None)"
  "pat_match [PLit a, PWild n] segs = (case segs of [t, i] \<Rightarrow> if a = t then Some [i] else None | _ \<Rightarrow> None)"
  "pat_match [PLit a, PWild n, PLit b] segs =
     (case segs of [t, i, x] \<Rightarrow> if a = t \<and> b = x then Some [i] else None | _ \<Rightarrow> None)"
proof -
  have n: "pat_match [] xs = (if xs = [] then Some [] else None)" for xs by (cases xs) simp_all
  show "pat_match [PLit a] segs = (if segs = [a] then Some [] else None)" by (cases segs) (auto simp: n)
  show "pat_match [PLit a, PWild n] segs = (case segs of [t, i] \<Rightarrow> if a = t then Some [i] else None | _ \<Rightarrow> None)"
    by (cases segs; cases "tl segs") (auto simp: n split: list.split)
  show "pat_match [PLit a, PWild n, PLit b] segs =
     (case segs of [t, i, x] \<Rightarrow> if a = t \<and> b = x then Some [i] else None | _ \<Rightarrow> None)"
    by (cases segs; cases "tl segs"; cases "tl (tl segs)") (auto simp: n split: list.split)
qed

lemma table_cases:
  assumes "(ps, ty, l, ep) \<in> set (v1_table ids)"
  obtains (types) "ps = [PLit ''types'']" "ty = []" "l = ''/api/v1/types''" "ep = TypesList"
    | (docs) "ps = [PLit ''docs'']" "ty = []" "l = ''/api/v1/docs''" "ep = DocsListAll"
    | (search) "ps = [PLit ''search'']" "ty = []" "l = ''/api/v1/search''" "ep = SearchQueryEp"
    | (list) "ty \<in> set ids" "ps = [PLit ty]" "l = ''/api/v1/'' @ ty" "ep = DocsListByType"
    | (get) "ty \<in> set ids" "ps = [PLit ty, PWild ''id'']" "l = ''/api/v1/'' @ ty @ ''/{id}''" "ep = DocsGet"
    | (sub) x where "ty \<in> set ids" "ps = [PLit ty, PWild ''id'', PLit x]" "l = ''/api/v1/'' @ ty @ ''/{id}/'' @ x" "map_of sub_endpoints x = Some ep"
proof -
  have d: "(x, ep) \<in> set sub_endpoints \<Longrightarrow> map_of sub_endpoints x = Some ep" for x
    by (rule map_of_is_SomeI) (simp_all add: sub_endpoints_def)
  from assms consider "(ps, ty, l, ep) \<in> set cross_table" | t where "t \<in> set ids" "(ps, ty, l, ep) \<in> set (type_table t)"
    by (auto simp: v1_table_def)
  then show ?thesis
  proof cases
    case 1
    then show ?thesis using types docs search by (auto simp: cross_table_def)
  next
    case 2
    then show ?thesis using list get sub d by (auto simp: type_table_def)
  qed
qed

lemma table_match:
  assumes "(ps, ty, l, ep) \<in> set (v1_table ids)" and "pat_match ps segs = Some b" and "set ids \<inter> reserved = {}"
  shows "route_of ids segs = Some (ty, l, ep, path_value ''id'' ps b) \<and> ps = shape segs"
  using assms(1)
proof (cases rule: table_cases)
  case list
  then have "ty \<noteq> ''types''" "ty \<noteq> ''docs''" "ty \<noteq> ''search''" using assms(3) by blast+
  then show ?thesis using list assms(2) by (simp add: pat_match_lits path_value_def split: if_splits)
next
  case get
  then show ?thesis using assms(2) by (auto simp: pat_match_lits path_value_def split: if_splits list.splits)
next
  case (sub x)
  then show ?thesis using assms(2) by (auto simp: pat_match_lits path_value_def split: if_splits list.splits)
qed (use assms(2) in \<open>auto simp: pat_match_lits path_value_def split: if_splits\<close>)

lemma table_complete:
  assumes "route_of ids segs = Some (ty, l, ep, i)"
  shows "\<exists>ps b. (ps, ty, l, ep) \<in> set (v1_table ids) \<and> pat_match ps segs = Some b"
  using assms
proof (induction ids segs rule: route_of.induct)
  case (1 ids x)
  then show ?case
    by (auto simp: v1_table_def cross_table_def type_table_def pat_match_lits split: if_splits intro!: exI [of _ "[PLit x]"])
next
  case (2 ids t i)
  then show ?case
    by (auto simp: v1_table_def type_table_def split: if_splits intro!: exI [of _ "[PLit t, PWild ''id'']"])
next
  case (3 ids t i x)
  then obtain ep' where e: "t \<in> set ids" "map_of sub_endpoints x = Some ep'" "ty = t" "l = ''/api/v1/'' @ t @ ''/{id}/'' @ x" "ep = ep'"
    by (auto split: if_splits)
  then have "(x, ep) \<in> set sub_endpoints" by (auto dest: map_of_SomeD)
  then have "([PLit t, PWild ''id'', PLit x], ty, l, ep) \<in> set (v1_table ids)"
    using e by (force simp: v1_table_def type_table_def)
  then show ?case by (intro exI [of _ "[PLit t, PWild ''id'', PLit x]"]) simp
qed simp_all

lemma matchPath_mem: "matchPath cs path ms = Some (e, ms') \<Longrightarrow> \<exists>ps. (ps, e) \<in> set cs"
proof (induction cs path ms rule: matchPath.induct)
  case (1 cs path ms)
  show ?case
  proof (cases "path = []")
    case True
    then show ?thesis using 1(3) leaf_Some [of cs e] by (subst (asm) matchPath.simps) auto
  next
    case False
    let ?s = "firstSegment path"
    from 1(3) False consider (lit) "matchPath (findChild (fst ?s) cs) (snd ?s) ms = Some (e, ms')"
      | (wild) "fst ?s \<noteq> ''/''" "matchPath (findChild (fst ?s) cs) (snd ?s) ms = None" "matchPath (wilds cs) (snd ?s) (ms @ [fst ?s]) = Some (e, ms')"
      | (multi) n where "(n, e) \<in> set (multis cs)"
      by (subst (asm) matchPath.simps) (auto split: option.splits if_splits list.splits)
    then show ?thesis
    proof cases
      case lit
      then show ?thesis using 1(1) [OF False] by (auto simp: findChild_def wilds_iff lits_iff split: if_splits)
    next
      case wild
      then show ?thesis using 1(2) [OF False wild(2,1)] by (auto simp: wilds_iff)
    next
      case multi
      then show ?thesis using multis_iff by fast
    qed
  qed
qed

lemma matchPath_Nil [simp]: "matchPath [] path ms = None" (is "?m = None")
proof (cases ?m)
  case (Some x)
  then show ?thesis using matchPath_mem [of "[]" path ms "fst x" "snd x"] by simp
qed

lemma firstSegment_slash:
  assumes "plain_segment s"
  shows "firstSegment (path_of (s # ss) @ ''/'') = (s, path_of ss @ ''/'')"
proof -
  have n: "CHR ''/'' \<notin> set s" by (rule plain_no_slash [OF assms])
  have "takeWhile (\<lambda>c. c \<noteq> CHR ''/'') (s @ path_of ss @ ''/'') = s" "dropWhile (\<lambda>c. c \<noteq> CHR ''/'') (s @ path_of ss @ ''/'') = path_of ss @ ''/''"
    using n by (cases ss; auto simp: takeWhile_append dropWhile_append)+
  then show ?thesis by (simp add: firstSegment_def pathUnescape_plain [OF assms])
qed

text \<open>No pattern of literals and single wildcards matches a path with a trailing slash.\<close>

definition no_tail :: "(segment list \<times> 'e) list \<Rightarrow> bool" where
  "no_tail cs = (\<forall>(ps, e) \<in> set cs. \<forall>p \<in> set ps. p \<noteq> PLit ''/'' \<and> \<not> is_multi p)"

lemma no_tail_children: "no_tail cs \<Longrightarrow> no_tail (lits k cs) \<and> no_tail (wilds cs) \<and> multis cs = [] \<and> lits ''/'' cs = []"
proof -
  assume n: "no_tail cs"
  have "no_tail (lits k cs)" "no_tail (wilds cs)" using n by (auto simp: no_tail_def lits_iff wilds_iff) force+
  moreover have "multis cs = []"
  proof (rule ccontr)
    assume "multis cs \<noteq> []"
    then obtain m e where "(m, e) \<in> set (multis cs)" by (cases "multis cs") auto
    then show False using n by (force simp: no_tail_def multis_iff)
  qed
  moreover have "lits ''/'' cs = []"
  proof (rule ccontr)
    assume "lits ''/'' cs \<noteq> []"
    then obtain ps e where "(ps, e) \<in> set (lits ''/'' cs)" by (cases "lits ''/'' cs") auto
    then show False using n by (force simp: no_tail_def lits_iff)
  qed
  ultimately show ?thesis by simp
qed

lemma no_tail_match: "no_tail cs \<Longrightarrow> list_all plain_segment segs \<Longrightarrow> matchPath cs (path_of segs @ ''/'') ms = None"
proof (induction segs arbitrary: cs ms)
  case Nil
  then show ?case using no_tail_children [of cs] by (subst matchPath.simps) (simp add: firstSegment_def findChild_def)
next
  case (Cons s ss)
  then have p: "plain_segment s" "list_all plain_segment ss" by simp_all
  note c = no_tail_children [OF Cons.prems(1)]
  have s: "s \<noteq> ''/''" "s \<noteq> []" using plain_not_slash [OF p(1)] by simp_all
  have ih: "matchPath (lits s cs) (path_of ss @ ''/'') ms = None" "matchPath (wilds cs) (path_of ss @ ''/'') ms' = None" for ms'
    using Cons.IH [OF _ p(2)] c by simp_all
  have ne: "path_of (s # ss) @ ''/'' \<noteq> []" by simp
  show ?case
    by (subst matchPath.simps, unfold firstSegment_slash [OF p(1)] fst_conv snd_conv)
       (use c s ih in \<open>simp add: findChild_def\<close>)
qed

section \<open>The versioned routes\<close>

lemma v1_node: "method_node (v1_mux E H ids) m =
    (if m = ''GET'' then map (\<lambda>(segs, ty, l, ep). (segs, get_pattern segs, withRoute ty l (call E H ep))) (v1_table ids) else [])"
  by (auto simp: method_node_def v1_mux_def get_pattern_def case_prod_unfold filter_map comp_def intro!: filter_False)

lemma table_plain: "(ps, ty, l, ep) \<in> set (v1_table ids) \<Longrightarrow> list_all plain_segment ids \<Longrightarrow> \<forall>p \<in> set ps. p \<noteq> PLit ''/'' \<and> \<not> is_multi p"
  by (erule table_cases) (auto simp: list_all_iff sub_endpoints_def plain_not_slash split: if_splits dest: plain_not_slash)

definition v1_serve :: "('l, 'q) http_env \<Rightarrow> Handlers \<Rightarrow> string list \<Rightarrow> string list \<Rightarrow> ('s \<times> reqcell \<times> 't) handler" where
  "v1_serve E H ids segs r s =
     (case route_of ids segs of
        None \<Rightarrow> (NotFound, s)
      | Some (ty, l, ep, i) \<Rightarrow>
          if r_Method (wh_req r) \<in> {''GET'', ''HEAD''}
          then withRoute ty l (call E H ep) (r\<lparr>wh_req := (wh_req r)\<lparr>r_PathID := i\<rparr>\<rparr>) s
          else (method_error [''GET'', ''HEAD''], s))"

lemma v1_get_node:
  assumes "list_all plain_segment ids" and "list_all plain_segment segs" and "set ids \<inter> reserved = {}"
    and cs: "cs = method_node (v1_mux E H ids) ''GET''"
  shows "no_tail cs"
    and "route_of ids segs = None \<Longrightarrow> matchPath cs (path_of segs) [] = None"
    and "route_of ids segs = Some (ty, l, ep, i) \<Longrightarrow> \<exists>b. matchPath cs (path_of segs) [] =
          Some ((get_pattern (shape segs), withRoute ty l (call E H ep)), b) \<and> path_value ''id'' (shape segs) b = i"
proof -
  have mem: "(ps, e) \<in> set cs \<longleftrightarrow> (\<exists>ty l ep. (ps, ty, l, ep) \<in> set (v1_table ids) \<and> e = (get_pattern ps, withRoute ty l (call E H ep)))" for ps e
    by (force simp: cs v1_node)
  show "no_tail cs" unfolding no_tail_def using mem table_plain [OF _ assms(1)] by fastforce
  show "matchPath cs (path_of segs) [] = None" if "route_of ids segs = None"
  proof (rule dispatch_none [OF assms(2)])
    show "pat_match ps segs = None" if "(ps, e) \<in> set cs" for ps e
      using that mem table_match [OF _ _ assms(3)] \<open>route_of ids segs = None\<close> by (metis option.distinct(1) option.exhaust)
  qed
  show "\<exists>b. matchPath cs (path_of segs) [] =
          Some ((get_pattern (shape segs), withRoute ty l (call E H ep)), b) \<and> path_value ''id'' (shape segs) b = i"
    if r: "route_of ids segs = Some (ty, l, ep, i)"
  proof -
    obtain ps b where p: "(ps, ty, l, ep) \<in> set (v1_table ids)" "pat_match ps segs = Some b" using table_complete [OF r] by blast
    have s: "ps = shape segs" "path_value ''id'' ps b = i" using table_match [OF p assms(3)] r by simp_all
    have "matchPath cs (path_of segs) [] = Some ((get_pattern ps, withRoute ty l (call E H ep)), b)"
    proof (rule dispatch_unique [OF assms(2) _ p(2)])
      show "(ps, get_pattern ps, withRoute ty l (call E H ep)) \<in> set cs" using p(1) mem by blast
      show "ps' = ps \<and> e' = (get_pattern ps, withRoute ty l (call E H ep))"
        if m: "(ps', e') \<in> set cs" "pat_match ps' segs \<noteq> None" for ps' e'
      proof -
        obtain ty' l' ep' b' where "(ps', ty', l', ep') \<in> set (v1_table ids)" "e' = (get_pattern ps', withRoute ty' l' (call E H ep'))"
          "pat_match ps' segs = Some b'" using m mem by auto
        then show ?thesis using table_match [OF _ _ assms(3)] r s(1) by fastforce
      qed
    qed
    then show ?thesis using s by auto
  qed
qed

lemma plain_path:
  assumes "segs \<noteq> []" and "list_all plain_segment segs"
  shows "EscapedPath (path_of segs) [] = path_of segs" "cleanPath (path_of segs) = path_of segs" "\<not> ends_slash (path_of segs)"
proof -
  have l: "list_all (\<lambda>s. s \<noteq> [] \<and> s \<noteq> ''.'' \<and> s \<noteq> ''..'' \<and> CHR ''/'' \<notin> set s) segs"
    using assms(2) plain_part by (auto simp: list_all_iff)
  have "list_all path_char (path_of segs)" using assms(2) by (auto simp: list_all_iff plain_segment_def path_char_def)
  moreover have "path_of segs \<noteq> ''*''" using assms(1) by (cases segs) auto
  ultimately show "EscapedPath (path_of segs) [] = path_of segs" by (simp add: EscapedPath_def PathEscape_id)
  show "cleanPath (path_of segs) = path_of segs" by (rule cleanPath_path_of [OF assms(1) l])
  have "path_of segs = path_of (butlast segs) @ CHR ''/'' # last segs"
    using arg_cong [OF append_butlast_last_id [OF assms(1)], of path_of] by simp
  moreover have "last segs \<noteq> []" "CHR ''/'' \<notin> set (last segs)" using l assms(1) by (auto simp: list_all_iff)
  moreover from this have "last (last segs) \<noteq> CHR ''/''" using last_in_set [of "last segs"] by metis
  ultimately show "\<not> ends_slash (path_of segs)" by (auto simp: ends_slash_def)
qed

lemma sorted_methods: "set ms = {''GET''} \<Longrightarrow> sort (remdups (ms @ [''HEAD''])) = [''GET'', ''HEAD'']"
proof -
  assume "set ms = {''GET''}"
  then have "sort (remdups (ms @ [''HEAD''])) = sorted_list_of_set {''GET'', ''HEAD''}"
    by (simp flip: sorted_list_of_set_sort_remdups)
  then show ?thesis by simp
qed

lemma v1_methods:
  assumes "segs \<noteq> []" and "list_all plain_segment ids" and "list_all plain_segment segs" and "set ids \<inter> reserved = {}"
  shows "matchingMethods (v1_mux E H ids) (path_of segs) = (if route_of ids segs = None then [] else [''GET'', ''HEAD''])"
    (is "matchingMethods ?mux ?path = _")
proof -
  note n = v1_get_node [where E = E and H = H, OF assms(2-4) refl]
  have o: "method_node ?mux m = []" if "m \<noteq> ''GET''" for m using that by (simp add: v1_node)
  have t: "matchPath (method_node ?mux ''GET'') (?path @ ''/'') [] = None" by (rule no_tail_match [OF n(1) assms(3)])
  have all: "set (map (pt_method \<circ> fst) ?mux) = {''GET''}"
    by (auto simp: v1_mux_def get_pattern_def v1_table_def cross_table_def)
  have none: "methods_of ?mux path' = []" if "matchPath (method_node ?mux ''GET'') path' [] = None" for path'
  proof -
    have "matchPath (method_node ?mux m) path' [] = None" for m using that o by (cases "m = ''GET''") simp_all
    then show ?thesis by (simp add: methods_of_def)
  qed
  have "methods_of ?mux (?path @ ''/'') = []" by (rule none [OF t])
  moreover have "methods_of ?mux ?path = []" if "route_of ids segs = None"
    by (rule none [OF n(2) [OF that]])
  moreover have "set (methods_of ?mux ?path) = {''GET''}" if r: "route_of ids segs \<noteq> None"
  proof -
    obtain ty l ep i where "route_of ids segs = Some (ty, l, ep, i)" using r by (metis option.exhaust prod_cases4)
    then have "matchPath (method_node ?mux ''GET'') ?path [] \<noteq> None" using n(3) by fastforce
    then show ?thesis using all by (auto simp: methods_of_def)
  qed
  ultimately show ?thesis using sorted_methods by (auto simp: matchingMethods_def Let_def plain_path(3) [OF assms(1,3)])
qed

lemma v1_dispatch:
  assumes "segs \<noteq> []" and "list_all plain_segment ids" and "list_all plain_segment segs" and "set ids \<inter> reserved = {}"
    and "r_Path (wh_req r) = path_of segs" and "r_RawPath (wh_req r) = []" and "r_RequestURI (wh_req r) \<noteq> ''*''"
  shows "mux_ServeHTTP red (v1_mux E H ids) r s = v1_serve E H ids segs r s" (is "mux_ServeHTTP _ ?mux _ _ = _")
proof -
  let ?path = "path_of segs" and ?m = "r_Method (wh_req r)"
  note n = v1_get_node [where E = E and H = H, OF assms(2-4) refl] and p = plain_path [OF assms(1,3)]
  have o: "method_node ?mux m = []" if "m \<noteq> ''GET''" for m using that by (simp add: v1_node)
  have t: "matchPath (method_node ?mux ''GET'') (?path @ ''/'') [] = None" by (rule no_tail_match [OF n(1) assms(3)])
  have match: "mux_match ?mux m ?path = (if m \<in> {''GET'', ''HEAD''} then matchPath (method_node ?mux ''GET'') ?path [] else None)" for m
    by (simp add: mux_match_def o or_else_def split: option.split)
  have "mux_match ?mux m (?path @ ''/'') = None" for m
    using t o by (cases "m = ''GET''") (simp_all add: mux_match_def)
  then have "\<not> slash_redirects ?mux ?m ?path" by (simp add: slash_redirects_def exactMatch_def)
  then have f: "findHandler ?mux (wh_req r) =
      (case mux_match ?mux ?m ?path of Some (e, ms) \<Rightarrow> Found e ms
       | None \<Rightarrow> if route_of ids segs = None then NoRoute else MethodNotAllowed [''GET'', ''HEAD''])"
    by (simp add: findHandler_def assms(5,6) p v1_methods [OF assms(1-4)] Let_def split: option.split)
  show ?thesis
  proof (cases "route_of ids segs")
    case None
    have "matchPath (method_node ?mux ''GET'') ?path [] = None" by (rule n(2) [OF None])
    then show ?thesis using None assms(7) by (simp add: mux_ServeHTTP_def f match v1_serve_def)
  next
    case (Some x)
    obtain ty l ep i where x: "x = (ty, l, ep, i)" by (cases x)
    obtain b where b: "matchPath (method_node ?mux ''GET'') ?path [] = Some ((get_pattern (shape segs), withRoute ty l (call E H ep)), b)"
      "path_value ''id'' (shape segs) b = i" using n(3) Some x by blast
    show ?thesis using Some x b assms(7)
      by (auto simp: mux_ServeHTTP_def f match v1_serve_def get_pattern_def)
  qed
qed

section \<open>The main port\<close>

definition main_mux :: "('l, 'q) http_env \<Rightarrow> Handlers \<Rightarrow> V1Chain \<Rightarrow> string \<Rightarrow> ('l limiterStore \<times> reqcell \<times> 'q) handler mux
    \<Rightarrow> ('l limiterStore \<times> reqcell \<times> 'q) handler mux" where
  "main_mux E H v1 hmacSecret v1mux =
     zip [\<lparr>pt_method = [], pt_segs = [PLit ''api'', PLit ''v1'', PMulti []]\<rparr>,
          \<lparr>pt_method = ''POST'', pt_segs = map PLit [''api'', ''v1'', ''webhooks'', ''github'']\<rparr>,
          \<lparr>pt_method = [], pt_segs = [PMulti []]\<rparr>] (map snd (main_handlers E H v1 hmacSecret v1mux))"

lemma main_patterns:
  "parsePattern wname ''/api/v1/'' = Some \<lparr>pt_method = [], pt_segs = [PLit ''api'', PLit ''v1'', PMulti []]\<rparr>"
  "parsePattern wname ''POST /api/v1/webhooks/github'' = Some \<lparr>pt_method = ''POST'', pt_segs = map PLit [''api'', ''v1'', ''webhooks'', ''github'']\<rparr>"
  "parsePattern wname ''/'' = Some \<lparr>pt_method = [], pt_segs = [PMulti []]\<rparr>"
  by (simp_all add: parsePattern_def split_method_def blank_def parse_segs.simps(2) pathUnescape_def token_char_def
      is_alpha_char_def is_upper_char_def cleanPath_def path_Clean_def)

lemma main_register: "mux_register wname (main_handlers E H v1 sec v1mux) [] = Some (main_mux E H v1 sec v1mux)"
  by (simp add: main_handlers_def main_mux_def mux_Handle_def main_patterns conflictsWith_def compareMethods_def comparePaths_def
      ends_multi_def Let_def)

lemma v1chain_cong: "(\<And>s. h r s = h' r s) \<Longrightarrow> v1chain E v1 h r s = v1chain E v1 h' r s"
proof -
  assume a: "\<And>s. h r s = h' r s"
  have "Auth h r s = Auth h' r s" for s by (simp add: Auth_def a)
  then have "RateLimit (he_unicode E) (he_bucket E) (vc_RateLimit v1) (he_key E) (he_now E) (Auth h) r s =
      RateLimit (he_unicode E) (he_bucket E) (vc_RateLimit v1) (he_key E) (he_now E) (Auth h') r s"
    by (simp add: RateLimit_def passThrough_def split: prod.split decision.split)
  then show ?thesis by (simp add: v1chain_def CORS_def Let_def)
qed

lemma match_segs_Nil [simp]: "match_segs [] segs ms = None"
  by (induction segs arbitrary: ms) (simp_all add: leaf_def)

lemma StripPrefix_plain:
  assumes "r_RawPath (wh_req r) = []" and "length (TrimPrefix (r_Path (wh_req r)) pre) < length (r_Path (wh_req r))"
  shows "StripPrefix pre h r s = h (r\<lparr>wh_req := (wh_req r)\<lparr>r_Path := TrimPrefix (r_Path (wh_req r)) pre\<rparr>\<rparr>) s"
proof -
  have "TrimPrefix [] pre = []" by (simp add: TrimPrefix_def)
  moreover obtain m u p rq fq i c where "wh_req r = \<lparr>r_Method = m, r_RequestURI = u, r_Path = p, r_RawPath = [], r_RawQuery = rq,
      r_ForceQuery = fq, r_PathID = i, r_ctx = c\<rparr>" using assms(1) by (cases "wh_req r") simp
  ultimately show ?thesis using assms(2) by (simp add: StripPrefix_def Let_def)
qed

lemma slashes_plain: "list_all plain_segment segs \<Longrightarrow> length (filter (\<lambda>c. c = CHR ''/'') (path_of segs)) = length segs"
proof (induction segs)
  case (Cons s segs)
  then have "filter (\<lambda>c. c = CHR ''/'') s = []" using plain_no_slash [of s] by (auto simp: filter_empty_conv)
  then show ?case using Cons by simp
qed simp

lemma main_entries:
  "main_mux E H v1 sec v1mux ! 0 = (\<lparr>pt_method = [], pt_segs = [PLit ''api'', PLit ''v1'', PMulti []]\<rparr>,
     StripPrefix ''/api/v1'' (v1chain E v1 (mux_ServeHTTP (he_redirect E) v1mux)))"
  "main_mux E H v1 sec v1mux ! 1 = (\<lparr>pt_method = ''POST'', pt_segs = map PLit [''api'', ''v1'', ''webhooks'', ''github'']\<rparr>,
     on_queue (VerifyGitHubHMAC (he_unicode E) sec (GitHub (he_unicode E) (he_enq E) (he_ord E) (hd_Webhook H))))"
  "pt_segs (fst (main_mux E H v1 sec v1mux ! 2)) = [PMulti []]"
  by (simp_all add: main_mux_def main_handlers_def)

lemma main_node: "method_node (main_mux E H v1 sec v1mux) m =
   (if m = ''POST'' then [(map PLit [''api'', ''v1'', ''webhooks'', ''github''], main_mux E H v1 sec v1mux ! 1)]
    else if m = [] then [([PLit ''api'', PLit ''v1'', PMulti []], main_mux E H v1 sec v1mux ! 0), ([PMulti []], main_mux E H v1 sec v1mux ! 2)]
    else [])"
  by (simp add: method_node_def main_mux_def main_handlers_def)

lemma main_node_none: "m \<noteq> ''POST'' \<Longrightarrow> m \<noteq> [] \<Longrightarrow> matchPath (method_node (main_mux E H v1 sec v1mux) m) path [] = None"
  by (simp add: main_node)

lemma main_match:
  assumes "segs \<noteq> []" and "list_all plain_segment segs" and path: "path = path_of (''api'' # ''v1'' # segs)"
  shows "mux_match (main_mux E H v1 sec v1mux) m path =
    Some (main_mux E H v1 sec v1mux ! (if m = ''POST'' \<and> segs = [''webhooks'', ''github''] then 1 else 0), [])"
    (is "mux_match ?mux m path = _")
proof -
  have pl: "list_all plain_segment (''api'' # ''v1'' # segs)" using assms(2) by simp
  have post: "matchPath (method_node ?mux ''POST'') path [] = (if segs = [''webhooks'', ''github''] then Some (?mux ! 1, []) else None)"
    unfolding path matchPath_segs [OF pl] main_node using assms(1)
    by (cases segs; cases "tl segs"; cases "tl (tl segs)") (auto simp: leaf_def)
  have any: "matchPath (method_node ?mux []) path [] = Some (?mux ! 0, [])"
    unfolding path matchPath_segs [OF pl] main_node using assms(1) by (cases segs) auto
  show ?thesis by (cases "m = ''POST''"; cases "m = []") (simp_all add: mux_match_def post any main_node_none)
qed

lemma main_no_redirect:
  assumes "segs \<noteq> []" and "list_all plain_segment segs" and path: "path = path_of (''api'' # ''v1'' # segs)"
  shows "\<not> slash_redirects (main_mux E H v1 sec v1mux) m path" (is "\<not> slash_redirects ?mux m path")
proof -
  have pl: "list_all plain_segment (''api'' # ''v1'' # segs)" using assms(2) by simp
  have "no_tail (method_node ?mux ''POST'')" by (simp add: main_node no_tail_def)
  then have "matchPath (method_node ?mux ''POST'') (path @ ''/'') [] = None" unfolding path by (rule no_tail_match [OF _ pl])
  then have e: "mux_match ?mux m (path @ ''/'') = matchPath (method_node ?mux []) (path @ ''/'') []"
    by (cases "m = ''POST''"; cases "m = []") (simp_all add: mux_match_def main_node_none or_else_def split: option.split)
  have "\<exists>ms. matchPath (method_node ?mux []) (path @ ''/'') [] \<in> {None, Some (?mux ! 0, ms), Some (?mux ! 2, ms)}"
    using matchPath_mem [of "method_node ?mux []" "path @ ''/''" "[]"]
    by (cases "matchPath (method_node ?mux []) (path @ ''/'') []") (fastforce simp: main_node)+
  moreover have "length (filter (\<lambda>c. c = CHR ''/'') (path @ ''/'')) > 3"
    using slashes_plain [OF pl] assms(1) unfolding path by (cases segs) auto
  moreover have "pt_segs (fst (?mux ! 0)) = [PLit ''api'', PLit ''v1'', PMulti []]" by (simp add: main_entries del: One_nat_def)
  ultimately have "\<not> exactMatch (mux_match ?mux m (path @ ''/'')) (path @ ''/'')"
    using main_entries(3) [of E H v1 sec v1mux] unfolding e
    by (cases "?mux ! 0"; cases "?mux ! 2") (auto simp: exactMatch_def ends_multi_def ends_slash_def)
  then show ?thesis by (simp add: slash_redirects_def)
qed

lemma main_dispatch:
  assumes "segs \<noteq> []" and "list_all plain_segment segs"
    and "r_Path (wh_req r) = path_of (''api'' # ''v1'' # segs)" and "r_RawPath (wh_req r) = []" and "r_RequestURI (wh_req r) \<noteq> ''*''"
  shows "mux_ServeHTTP red (main_mux E H v1 sec v1mux) r s =
    (if r_Method (wh_req r) = ''POST'' \<and> segs = [''webhooks'', ''github'']
     then on_queue (VerifyGitHubHMAC (he_unicode E) sec (GitHub (he_unicode E) (he_enq E) (he_ord E) (hd_Webhook H)))
            (r\<lparr>wh_req := (wh_req r)\<lparr>r_PathID := []\<rparr>\<rparr>) s
     else v1chain E v1 (mux_ServeHTTP (he_redirect E) v1mux)
            (r\<lparr>wh_req := (wh_req r)\<lparr>r_PathID := [], r_Path := path_of segs\<rparr>\<rparr>) s)"
    (is "mux_ServeHTTP red ?mux r s = _")
proof -
  define path where "path = path_of (''api'' # ''v1'' # segs)"
  have p: "EscapedPath path [] = path" "cleanPath path = path"
    unfolding path_def by (rule plain_path; use assms(2) in simp)+
  have f: "findHandler ?mux (wh_req r) =
      Found (?mux ! (if r_Method (wh_req r) = ''POST'' \<and> segs = [''webhooks'', ''github''] then 1 else 0)) []"
    unfolding findHandler_def assms(3,4) [folded path_def]
    by (simp add: p main_match [OF assms(1,2) path_def] main_no_redirect [OF assms(1,2) path_def] Let_def)
  have "TrimPrefix path ''/api/v1'' = path_of segs" "length (path_of segs) < length path" by (simp_all add: TrimPrefix_def path_def)
  then show ?thesis using assms(5)
    by (simp add: assms(3,4) [folded path_def] mux_ServeHTTP_def f path_value_def main_entries [unfolded One_nat_def] StripPrefix_plain)
qed

section \<open>The surface of the API\<close>

text \<open>A registry whose type ids can stand in a path.\<close>

definition plain_types :: "Registry \<Rightarrow> bool" where
  "plain_types reg = list_all (\<lambda>t. plain_segment (dt_id t)) (RegList reg)"

abbreviation type_ids :: "Registry \<Rightarrow> string list" where
  "type_ids reg \<equiv> map dt_id (RegList reg)"

lemma registry_ids_distinct: "NewRegistry U types = Inr reg \<Longrightarrow> distinct (type_ids reg)"
  using NewRegistry_wf by (fastforce simp: reg_wf_def types_ok_def RegList_def)

lemma routed:
  assumes "NewRegistry U types = Inr reg" and "plain_types reg" and "set (type_ids reg) \<inter> reserved = {}" and "he_wname E ''id''"
    and "segs \<noteq> []" and "list_all plain_segment segs"
    and "r_Path (wh_req r) = path_of (''api'' # ''v1'' # segs)" and "r_RawPath (wh_req r) = []" and "r_RequestURI (wh_req r) \<noteq> ''*''"
  shows "\<exists>h. BuildMainHandler E H reg v1 secret = Some h \<and> h r s =
    (if r_Method (wh_req r) = ''POST'' \<and> segs = [''webhooks'', ''github'']
     then on_queue (VerifyGitHubHMAC (he_unicode E) secret (GitHub (he_unicode E) (he_enq E) (he_ord E) (hd_Webhook H)))
            (r\<lparr>wh_req := (wh_req r)\<lparr>r_PathID := []\<rparr>\<rparr>) s
     else v1chain E v1 (v1_serve E H (type_ids reg) segs) (r\<lparr>wh_req := (wh_req r)\<lparr>r_PathID := [], r_Path := path_of segs\<rparr>\<rparr>) s)"
proof -
  have pl: "list_all plain_segment (type_ids reg)" using assms(2) by (simp add: plain_types_def list_all_iff)
  have reg: "mux_register (he_wname E) (v1_handlers E H reg) [] = Some (v1_mux E H (type_ids reg))"
    using v1_register [OF assms(2) [unfolded plain_types_def] assms(4) registry_ids_distinct [OF assms(1)]] assms(3) by simp
  have "BuildMainHandler E H reg v1 secret = Some (mux_ServeHTTP (he_redirect E) (main_mux E H v1 secret (v1_mux E H (type_ids reg))))"
    by (simp add: BuildMainHandler_def reg main_register)
  moreover have "v1chain E v1 (mux_ServeHTTP (he_redirect E) (v1_mux E H (type_ids reg))) r' s = v1chain E v1 (v1_serve E H (type_ids reg) segs) r' s"
    if "r' = r\<lparr>wh_req := (wh_req r)\<lparr>r_PathID := [], r_Path := path_of segs\<rparr>\<rparr>" for r'
    by (rule v1chain_cong, rule v1_dispatch [OF assms(5) pl assms(6,3)]) (use that assms(8,9) in simp_all)
  ultimately show ?thesis by (simp add: main_dispatch [OF assms(5-9)])
qed

text \<open>An environment for evaluation: an unlimited token bucket and a queue that acknowledges.\<close>

definition sample_env :: "(unit, jobs \<times> nat) http_env" where
  "sample_env = \<lparr>he_unicode = ascii_only, he_texts = no_texts, he_wname = (\<lambda>s. s = ''id''),
     he_redirect = (\<lambda>path q. \<lparr>rs_status = 307, rs_headers = [(''Location'', path)], rs_body = BText []\<rparr>),
     he_bucket = \<lparr>bk_new = (), bk_reserve = (\<lambda>now l. (l, True, 0)), bk_cancel = (\<lambda>now l. l)\<rparr>,
     he_key = (\<lambda>r. ''client''), he_now = 0, he_enq = (\<lambda>kind key body t q. (q, None)), he_ord = (\<lambda>xs. xs)\<rparr>"

definition sample_handlers :: Handlers where
  "sample_handlers = \<lparr>hd_Docs = mem_ops sample_store, hd_Registry = registry_of ascii_only default_types,
     hd_Search = NoopClient, hd_Webhook = \<lparr>wb_sources = [], wb_queue = True\<rparr>\<rparr>"

definition sample_chain :: V1Chain where
  "sample_chain = \<lparr>vc_Timeout = 0, vc_CORS = DefaultCORS [], vc_RateLimit = \<lparr>rl_RPS = 10, rl_Burst = 20, rl_TTL = 0, rl_Sweep = 0\<rparr>\<rparr>"

definition no_cell :: reqcell where
  "no_cell = \<lparr>rq_capture = zero_route, rq_span = None\<rparr>"

definition get_request :: "string list \<Rightarrow> wh_request" where
  "get_request segs = \<lparr>wh_req = \<lparr>r_Method = ''GET'', r_RequestURI = path_of segs, r_Path = path_of segs, r_RawPath = [], r_RawQuery = [],
     r_ForceQuery = False, r_PathID = [], r_ctx = \<lparr>cx_route = None, cx_capture = False, cx_id = None\<rparr>\<rparr>,
     wh_header = (\<lambda>k. []), wh_body = ([], None)\<rparr>"

lemma default_plain: "plain_types (registry_of ascii_only default_types)"
  "set (type_ids (registry_of ascii_only default_types)) \<inter> reserved = {}"
  by (simp_all add: plain_types_def RegList_def registry_of_def default_types_def plain_segment_def unreserved_def is_alpha_char_def
      is_lower_char_def)

text \<open>C36: The routers together serve exactly the documented table. For a registry of types with plain,
  unreserved ids, a request whose path is \<^verbatim>\<open>/api/v1\<close> followed by plain segments is handled as the table
  says, whatever its method: POST to the webhook path goes to the signature check and the webhook handler,
  past the rate limiter; every other request goes through CORS and the rate limiter and is answered by
  the handler of the one matching route, with the type, the route label and the document id of the path,
  if its method is GET or HEAD, with 405 and \<^verbatim>\<open>Allow: GET, HEAD\<close> if the method is another, and with a plain 404
  if no route matches.\<close>

theorem route_table:
  assumes "NewRegistry U types = Inr reg" and "plain_types reg" and "set (type_ids reg) \<inter> reserved = {}" and "he_wname E ''id''"
    and "segs \<noteq> []" and "list_all plain_segment segs"
    and "r_Path (wh_req r) = path_of (''api'' # ''v1'' # segs)" and "r_RawPath (wh_req r) = []" and "r_RequestURI (wh_req r) \<noteq> ''*''"
  shows "\<exists>h. BuildMainHandler E H reg v1 secret = Some h \<and> h r s =
    (if r_Method (wh_req r) = ''POST'' \<and> segs = [''webhooks'', ''github'']
     then on_queue (VerifyGitHubHMAC (he_unicode E) secret (GitHub (he_unicode E) (he_enq E) (he_ord E) (hd_Webhook H)))
            (r\<lparr>wh_req := (wh_req r)\<lparr>r_PathID := []\<rparr>\<rparr>) s
     else v1chain E v1 (v1_serve E H (type_ids reg) segs) (r\<lparr>wh_req := (wh_req r)\<lparr>r_PathID := [], r_Path := path_of segs\<rparr>\<rparr>) s)"
  by (rule routed [OF assms])

theorem route_table_witness:
  "\<exists>h. BuildMainHandler sample_env sample_handlers (registry_of ascii_only default_types) sample_chain ''key'' = Some h
    \<and> h (get_request [''api'', ''v1'', ''unknown'']) (Map.empty, no_cell, ([], 0)) = (NotFound, (Map.empty(''client'' \<mapsto> ((), 0)), no_cell, ([], 0)))"
proof -
  let ?segs = "[''unknown'']" and ?r = "get_request [''api'', ''v1'', ''unknown'']"
  have p: "list_all plain_segment ?segs"
    by (simp add: plain_segment_def unreserved_def is_alpha_char_def is_lower_char_def)
  have w: "he_wname sample_env ''id''" by (simp add: sample_env_def)
  show ?thesis
    using route_table [where r = ?r and segs = ?segs and H = sample_handlers and secret = "''key''" and s = "(Map.empty, no_cell, ([], 0))" and ?v1.0 = sample_chain,
        OF default_registry default_plain w _ p]
    by (simp add: get_request_def v1chain_def CORS_def RateLimit_def admit_def forKey_def Auth_def sample_env_def sample_chain_def v1_serve_def
        DefaultCORS_def RegList_def registry_of_def default_types_def Let_def)
qed

lemma main_builds_iff:
  assumes "NewRegistry U types = Inr reg" and "plain_types reg" and "he_wname E ''id''"
  shows "BuildMainHandler E H reg v1 secret \<noteq> None \<longleftrightarrow> set (type_ids reg) \<inter> reserved = {}"
proof
  assume "set (type_ids reg) \<inter> reserved = {}"
  then show "BuildMainHandler E H reg v1 secret \<noteq> None"
    by (simp add: BuildMainHandler_def main_register
        v1_register [OF assms(2) [unfolded plain_types_def] assms(3) registry_ids_distinct [OF assms(1)]])
next
  assume "BuildMainHandler E H reg v1 secret \<noteq> None"
  then obtain mux where m: "mux_register (he_wname E) (v1_handlers E H reg :: (string \<times> ('a limiterStore \<times> reqcell \<times> 'b) handler) list) [] = Some mux"
    by (auto simp: BuildMainHandler_def bind_eq_Some_conv)
  have "mux = v1_mux E H (type_ids reg)"
    using mux_register_conflict(2) [OF m] by (simp add: v1_parsed [OF assms(2) [unfolded plain_types_def] assms(3)])
  then have "sorted_wrt (\<lambda>e e'. \<not> conflictsWith (fst e') (fst e)) (v1_mux E H (type_ids reg) :: ('a limiterStore \<times> reqcell \<times> 'b) handler mux)"
    using mux_register_conflict(1) [OF m] by simp
  then have srt: "sorted_wrt no_clash (v1_table (type_ids reg))"
    by (simp add: v1_mux_def sorted_wrt_map case_prod_unfold clash_get)
  show "set (type_ids reg) \<inter> reserved = {}"
  proof (rule ccontr)
    assume "set (type_ids reg) \<inter> reserved \<noteq> {}"
    then obtain t where t: "t \<in> set (type_ids reg)" "t \<in> reserved" by blast
    obtain x where x: "([PLit t], x) \<in> set cross_table" using t(2) by (auto simp: cross_table_def)
    have "([PLit t], t, ''/api/v1/'' @ t, DocsListByType) \<in> set (concat (map type_table (type_ids reg)))"
      using t(1) by (auto simp: type_table_def)
    then have "no_clash ([PLit t], x) ([PLit t], t, ''/api/v1/'' @ t, DocsListByType)"
      using srt x unfolding v1_table_def sorted_wrt_append by blast
    then show False by (simp add: no_clash_def comparePaths_def)
  qed
qed

text \<open>A single type that is called like a cross-type route.\<close>

definition docs_types :: "ConfigDocumentType list" where
  "docs_types = [\<lparr>ct_id = ''docs'', ct_name = ''Docs'', ct_prefix = ''DOC'', ct_lifecycle = []\<rparr>]"

definition docs_registry :: Registry where
  "docs_registry = registry_of ascii_only [\<lparr>dt_id = ''docs'', dt_name = ''Docs'', dt_prefix = ''DOC'', dt_lifecycle = []\<rparr>]"

lemma docs_registry_built: "NewRegistry ascii_only docs_types = Inr docs_registry"
proof -
  let ?t = "\<lparr>dt_id = ''docs'', dt_name = ''Docs'', dt_prefix = ''DOC'', dt_lifecycle = []\<rparr>"
  have "map (validate ascii_only) docs_types = map Inr [?t]" "types_ok ascii_only [?t]" by code_simp+
  moreover have "docs_types \<noteq> []" by (simp add: docs_types_def)
  ultimately show ?thesis unfolding NewRegistry_iff docs_registry_def by blast
qed

lemma docs_plain: "plain_types docs_registry" "set (type_ids docs_registry) \<inter> reserved \<noteq> {}"
  by (simp_all add: plain_types_def docs_registry_def RegList_def registry_of_def)

text \<open>The registration of the routes panics exactly on the type ids that are taken: for a registry of
  types with plain ids the main handler is built if and only if no type is called \<^verbatim>\<open>types\<close>, \<^verbatim>\<open>docs\<close> or
  \<^verbatim>\<open>search\<close>. The registry itself accepts such a type, so the process dies at start-up.\<close>

theorem router_builds_iff:
  assumes "NewRegistry U types = Inr reg" and "plain_types reg" and "he_wname E ''id''"
  shows "BuildMainHandler E H reg v1 secret \<noteq> None \<longleftrightarrow> set (type_ids reg) \<inter> reserved = {}"
  by (rule main_builds_iff [OF assms])

theorem router_builds_iff_witness:
  "BuildMainHandler sample_env sample_handlers (registry_of ascii_only default_types) sample_chain ''key'' \<noteq> None
   \<and> BuildMainHandler sample_env sample_handlers docs_registry sample_chain ''key'' = None"
proof -
  have w: "he_wname sample_env ''id''" by (simp add: sample_env_def)
  show ?thesis
    using router_builds_iff [OF docs_registry_built docs_plain(1) w, of sample_handlers sample_chain "''key''"] docs_plain(2)
      router_builds_iff [OF default_registry default_plain(1) w, of sample_handlers sample_chain "''key''"] default_plain(2)
    by blast
qed

lemma admitted:
  assumes "wh_header r ''Origin'' = []" and "snd (admit (he_bucket E) (he_now E) (he_key E r) (fst s)) = Allowed"
  shows "\<exists>l. v1chain E v1 h r s = h r (l, snd s)"
proof -
  obtain l where "admit (he_bucket E) (he_now E) (he_key E r) (fst s) = (l, Allowed)" using assms(2) by (metis prod.collapse)
  then have "RateLimit (he_unicode E) (he_bucket E) (vc_RateLimit v1) (he_key E) (he_now E) (Auth h) r s \<in> {h r s, h r (l, snd s)}"
    by (cases s) (simp add: RateLimit_def passThrough_def Auth_def)
  then show ?thesis using assms(1) by (cases s) (auto simp: v1chain_def CORS_def)
qed

text \<open>C37: A document is served under its URL: when the rate limiter lets the request through, GET of
  \<^verbatim>\<open>/api/v1/<type>/<id>\<close> for a registered type answers 200 with the document whose id is the type's and
  the path's combined, as the store has it, and leaves the job queue alone; when the store fails, the
  status is that of its error, and the problem document names as its instance the path without
  \<^verbatim>\<open>/api/v1\<close>.\<close>

theorem get_document:
  assumes "NewRegistry U types = Inr reg" and "plain_types reg" and "set (type_ids reg) \<inter> reserved = {}" and "he_wname E ''id''"
    and "t \<in> set (type_ids reg)" and "plain_segment i"
    and "r_Path (wh_req r) = path_of [''api'', ''v1'', t, i]" and "r_RawPath (wh_req r) = []" and "r_RequestURI (wh_req r) \<noteq> ''*''"
    and "r_Method (wh_req r) = ''GET''" and "wh_header r ''Origin'' = []" and "r_RawQuery (wh_req r) = []" and "\<not> r_ForceQuery (wh_req r)"
    and "snd (admit (he_bucket E) (he_now E) (he_key E (r\<lparr>wh_req := (wh_req r)\<lparr>r_PathID := [], r_Path := path_of [t, i]\<rparr>\<rparr>)) (fst s)) = Allowed"
  shows "\<exists>h resp l c. BuildMainHandler E H reg v1 secret = Some h \<and> h r s = (resp, (l, c, snd (snd s)))
    \<and> (case op_Get (hd_Docs H) (Canonical (he_unicode E) t i) of
         Inr doc \<Rightarrow> rs_status resp = 200 \<and> rs_body resp = BDoc doc
       | Inl e \<Rightarrow> rs_status resp = cl_status (classify e) \<and> (\<exists>p. rs_body resp = BProblem p \<and> p_instance p = path_of [t, i]))"
proof -
  have pt: "plain_segment t" using assms(2,5) by (auto simp: plain_types_def list_all_iff)
  then have pl: "list_all plain_segment [t, i]" using assms(6) by simp
  let ?r = "r\<lparr>wh_req := (wh_req r)\<lparr>r_PathID := [], r_Path := path_of [t, i]\<rparr>\<rparr>"
  let ?c = "ctx_With (r_ctx (wh_req r)) t (''/api/v1/'' @ t @ ''/{id}'') (rq_capture (fst (snd s)))"
  let ?q = "(wh_req r)\<lparr>r_Path := path_of [t, i], r_PathID := i, r_ctx := fst ?c\<rparr>"
  obtain h where h: "BuildMainHandler E H reg v1 secret = Some h"
    "h r s = v1chain E v1 (v1_serve E H (type_ids reg) [t, i]) ?r s"
    using routed [OF assms(1-4) _ pl _ assms(8,9), of H v1 secret s] assms(7,10) by auto
  have rt: "route_of (type_ids reg) [t, i] = Some (t, ''/api/v1/'' @ t @ ''/{id}'', DocsGet, i)" using assms(5) by simp
  have "wh_header ?r ''Origin'' = []" using assms(11) by simp
  then obtain l where l: "h r s = v1_serve E H (type_ids reg) [t, i] ?r (l, snd s)"
    using admitted [OF _ assms(14), where ?v1.0 = v1 and h = "v1_serve E H (type_ids reg) [t, i]"] h(2) by auto
  have ty: "route_type ?q = t" by (simp add: route_type_def ctx_From_def ctx_With_def Let_def)
  have "\<exists>c. h r s = (docs_Get (he_unicode E) (hd_Docs H) ?q, (l, c, snd (snd s)))"
    unfolding l v1_serve_def rt by (simp add: assms(10) withRoute_def call_def Let_def case_prod_unfold)
  then obtain c where c: "h r s = (docs_Get (he_unicode E) (hd_Docs H) ?q, (l, c, snd (snd s)))" by blast
  have "r_URLRequestURI ?q = path_of [t, i]"
    using plain_path(1) [OF _ pl] assms(8,12,13) by (simp add: r_URLRequestURI_def Let_def)
  then show ?thesis using h(1) ty c
    by (auto simp: docs_Get_def reply_def svc_Get_def render_JSON_def err_Write_def Let_def split: sum.split)
qed

theorem get_document_witness:
  "\<exists>h resp l c. BuildMainHandler sample_env sample_handlers (registry_of ascii_only default_types) sample_chain ''key'' = Some h
    \<and> h (get_request [''api'', ''v1'', ''rfc'', ''0001'']) (Map.empty, no_cell, ([], 0)) = (resp, (l, c, ([], 0)))
    \<and> rs_status resp = 200 \<and> rs_body resp = BDoc (sample_doc ''RFC-0001'' ''rfc'' 10)"
proof -
  let ?r = "get_request [''api'', ''v1'', ''rfc'', ''0001'']"
  have w: "he_wname sample_env ''id''" by (simp add: sample_env_def)
  have t: "''rfc'' \<in> set (type_ids (registry_of ascii_only default_types))" by (simp add: RegList_def registry_of_def default_types_def)
  have i: "plain_segment ''0001''" by (simp add: plain_segment_def unreserved_def is_digit_char_def)
  have g: "op_Get (hd_Docs sample_handlers) (Canonical (he_unicode sample_env) ''rfc'' ''0001'') = Inr (sample_doc ''RFC-0001'' ''rfc'' 10)"
    by (simp add: sample_handlers_def sample_env_def mem_ops_def) code_simp
  have a: "snd (admit (he_bucket sample_env) (he_now sample_env) k l) = Allowed" for k l
    by (simp add: sample_env_def admit_def forKey_def Let_def)
  show ?thesis
    using get_document [where r = ?r and H = sample_handlers and secret = "''key''" and s = "(Map.empty, no_cell, ([], 0))" and ?v1.0 = sample_chain,
        OF default_registry default_plain w t i] a
    by (simp add: g get_request_def)
qed

end
