(* ===== verification/Server.thy ===== *)
theory Server
  imports Router Collectors
begin

text \<open>
  The two servers, \<^verbatim>\<open>internal/server/server.go\<close> and \<^verbatim>\<open>admin.go\<close>, and what a request leaves behind in them:
  the access log (\<^verbatim>\<open>logger.go\<close>), the request metrics (\<^verbatim>\<open>metrics.go\<close>) and the spans (\<^verbatim>\<open>otel.go\<close>). The routes
  are those of Router; the collectors those of Collectors. \<^verbatim>\<open>otelhttp\<close> starts a span with the formatted name
  and ends it when the handler returns; whether it has a valid one, with its ids, is an argument, and so are
  the Prometheus and pprof handlers of the admin port.
\<close>

section \<open>Observing a request\<close>

text \<open>What the process has written so far: access-log records (message and attributes), calls on the
  collectors, names of ended spans.\<close>

record obs_log =
  ol_entries :: "(string \<times> (string \<times> string) list) list"
  ol_calls :: metric_log
  ol_spans :: "string list"

text \<open>The trace and span id of the active span.\<close>

type_synonym span_ids = "(string \<times> string) option"

text \<open>The attributes of a finished request, with its size and duration as printed; the route is read from
  the context of the request the middleware itself was given.\<close>

definition log_attrs :: "span_ids \<Rightarrow> request \<Rightarrow> int \<Rightarrow> string \<Rightarrow> string \<Rightarrow> (string \<times> string) list" where
  "log_attrs ids r status bytes dur =
     [(''http.request.method'', r_Method r), (''url.path'', r_Path r), (''http.response.status_code'', Itoa status),
      (''http.response.body.size'', bytes), (''http.server.duration'', dur), (''request_id'', ctx_ID (r_ctx r))]
     @ (case ctx_From (r_ctx r) of (route, ok) \<Rightarrow>
          if ok then (''http.route'', rt_Pattern route)
            # (if rt_TypeID route \<noteq> [] then [(''rfc_api.document_type'', rt_TypeID route)] else [])
          else [])
     @ (case ids of Some (t, s) \<Rightarrow> [(''trace_id'', t), (''span_id'', s)] | None \<Rightarrow> [])"

text \<open>A panic passes \<^verbatim>\<open>Logger\<close> before it has logged.\<close>

definition Logger :: "span_ids \<Rightarrow> (response \<Rightarrow> string) \<Rightarrow> string \<Rightarrow> (obs_log \<times> 's) phandler \<Rightarrow> (obs_log \<times> 's) phandler" where
  "Logger ids sz dur nxt r st =
     (case nxt r st of
        (Replied resp, (ol, s)) \<Rightarrow>
          (Replied resp, (ol\<lparr>ol_entries := ol_entries ol @
             [(r_Method (wh_req r) @ '' '' @ r_Path (wh_req r) @ '' '' @ Itoa (rs_status resp),
               log_attrs ids (wh_req r) (rs_status resp) (sz resp) dur)]\<rparr>, s))
      | (Panicking v hs, st') \<Rightarrow> (Panicking v hs, st'))"

text \<open>The in-flight gauge goes down in a \<^verbatim>\<open>defer\<close>, after a panic too.\<close>

definition MetricsMw :: "Metrics option \<Rightarrow> duration \<Rightarrow> (obs_log \<times> reqcell \<times> 's) phandler \<Rightarrow> (obs_log \<times> reqcell \<times> 's) phandler" where
  "MetricsMw om elapsed nxt r st =
     (case om of
        None \<Rightarrow> nxt r st
      | Some m \<Rightarrow>
         (case st of (ol, cell, s) \<Rightarrow>
          case ctx_WithCapture (r_ctx (wh_req r)) of (ctx, capture) \<Rightarrow>
          case nxt (r\<lparr>wh_req := (wh_req r)\<lparr>r_ctx := ctx\<rparr>\<rparr>)
                 (ol\<lparr>ol_calls := ol_calls ol @ [MInc (m_InFlight m) []]\<rparr>, cell\<lparr>rq_capture := capture\<rparr>, s) of
            (Replied resp, (ol', cell', s')) \<Rightarrow>
              let route = rt_Pattern (rq_capture cell') in
              (Replied resp, (ol'\<lparr>ol_calls := ol_calls ol' @
                 [MInc (m_RequestsTotal m) [r_Method (wh_req r), route, Itoa (rs_status resp)],
                  MObserve (m_RequestDuration m) [r_Method (wh_req r), route] elapsed,
                  MDec (m_InFlight m) []]\<rparr>, cell', s'))
          | (Panicking v hs, (ol', cell', s')) \<Rightarrow>
              (Panicking v hs, (ol'\<lparr>ol_calls := ol_calls ol' @ [MDec (m_InFlight m) []]\<rparr>, cell', s'))))"

text \<open>The span of a request, named by the formatter until a route renames it.\<close>

definition OTel :: "span_ids \<Rightarrow> (obs_log \<times> reqcell \<times> 's) handler \<Rightarrow> (obs_log \<times> 's) handler" where
  "OTel ids nxt r st =
     (case nxt r (fst st, \<lparr>rq_capture = zero_route, rq_span = map_option (\<lambda>_. ''rfc-api:'' @ r_Method (wh_req r)) ids\<rparr>, snd st) of
        (resp, (ol, cell, s)) \<Rightarrow>
          (resp, (ol\<lparr>ol_spans := ol_spans ol @ (case rq_span cell of None \<Rightarrow> [] | Some n \<Rightarrow> [n])\<rparr>, s)))"

section \<open>The main server\<close>

record server_deps =
  sd_Config :: ConfigServer
  sd_RateLimit :: ConfigRateLimit
  sd_Registry :: "Registry option"
  sd_Handlers :: Handlers
  sd_WebhookSecret :: string
  sd_Metrics :: "Metrics option"

text \<open>The routes as the innermost handler of the chain; they do not panic.\<close>

definition on_main :: "('l \<times> reqcell \<times> 'q) handler \<Rightarrow> (obs_log \<times> reqcell \<times> 'l \<times> 'q) phandler" where
  "on_main h r st =
     (case st of (ol, cell, l, q) \<Rightarrow>
      case h r (l, cell, q) of (resp, (l', cell', q')) \<Rightarrow> (Replied resp, (ol, cell', l', q')))"

text \<open>What a request meets: the ids of its span, the random bytes of its id, and how size and duration print.\<close>

record req_env =
  re_ids :: span_ids
  re_rnd :: "string \<times> bool"
  re_size :: "response \<Rightarrow> string"
  re_ms :: string
  re_elapsed :: duration

definition main_chain :: "unicode \<Rightarrow> req_env \<Rightarrow> Metrics option \<Rightarrow> (obs_log \<times> reqcell \<times> 's) phandler \<Rightarrow> (obs_log \<times> 's) handler" where
  "main_chain U R om h =
     OTel (re_ids R) (Recover U (RequestID (map_option fst (re_ids R)) (re_rnd R)
       (Logger (re_ids R) (re_size R) (re_ms R) (MetricsMw om (re_elapsed R) h))))"

definition server_New :: "('l, 'q) http_env \<Rightarrow> req_env \<Rightarrow> server_deps \<Rightarrow> (obs_log \<times> 'l limiterStore \<times> 'q) handler option" where
  "server_New E R deps =
     map_option (\<lambda>h. main_chain (he_unicode E) R (sd_Metrics deps) (on_main h))
       (case sd_Registry deps of
          None \<Rightarrow> fallbackMux E
        | Some reg \<Rightarrow> BuildMainHandler E (sd_Handlers deps) reg (V1ChainFromConfig (sd_Config deps) (sd_RateLimit deps)) (sd_WebhookSecret deps))"

section \<open>The admin server\<close>

text \<open>What is outside: the wildcard names and redirects of the multiplexer, the Prometheus handler over the
  registry, the pprof handlers.\<close>

record 's admin_env =
  ae_unicode :: unicode
  ae_wname :: "string \<Rightarrow> bool"
  ae_redirect :: "string \<Rightarrow> string \<Rightarrow> response"
  ae_prom :: "registry \<Rightarrow> 's handler"
  ae_pprof :: "string \<Rightarrow> 's handler"

definition Metrics_Handler :: "'s admin_env \<Rightarrow> Metrics \<Rightarrow> 's handler" where
  "Metrics_Handler A m = ae_prom A (m_Registry m)"

definition registerPprof :: "'s admin_env \<Rightarrow> (string \<times> 's handler) list" where
  "registerPprof A = [(''GET /debug/pprof/'', ae_pprof A ''index''), (''GET /debug/pprof/cmdline'', ae_pprof A ''cmdline''),
     (''GET /debug/pprof/profile'', ae_pprof A ''profile''), (''GET /debug/pprof/symbol'', ae_pprof A ''symbol''),
     (''GET /debug/pprof/trace'', ae_pprof A ''trace'')]"

text \<open>A probe is its name and what it answers in a state of the world.\<close>

type_synonym 's probe = "string \<times> ('s \<Rightarrow> goerr option)"

definition admin_handlers :: "'s admin_env \<Rightarrow> ConfigAdmin \<Rightarrow> 's probe list \<Rightarrow> Metrics \<Rightarrow> (string \<times> 's handler) list" where
  "admin_handlers A cfg probes m =
     [(''GET /healthz'', \<lambda>r s. (HealthLive, s)),
      (''GET /readyz'', \<lambda>r s. (HealthReady (ae_unicode A) (map (\<lambda>(name, check). (name, check s)) probes), s)),
      (''GET /metrics'', Metrics_Handler A m)]
     @ (if ca_PprofEnabled cfg then registerPprof A else [])"

definition on_admin :: "'s handler \<Rightarrow> (obs_log \<times> reqcell \<times> 's) phandler" where
  "on_admin h r st =
     (case st of (ol, cell, s) \<Rightarrow> case h r s of (resp, s') \<Rightarrow> (Replied resp, (ol, cell, s')))"

definition NewAdmin :: "'s admin_env \<Rightarrow> req_env \<Rightarrow> ConfigAdmin \<Rightarrow> 's probe list \<Rightarrow> Metrics \<Rightarrow> (obs_log \<times> 's) handler option" where
  "NewAdmin A R cfg probes m =
     map_option (\<lambda>mux. OTel (re_ids R) (Recover (ae_unicode A) (RequestID (map_option fst (re_ids R)) (re_rnd R)
         (Logger (re_ids R) (re_size R) (re_ms R) (on_admin (mux_ServeHTTP (ae_redirect A) mux))))))
       (mux_register (ae_wname A) (admin_handlers A cfg probes m) [])"

section \<open>What every handler keeps\<close>

text \<open>The pattern a multiplexer dispatches to is one of its own, and has the method of the request.\<close>

definition serves_method :: "string \<Rightarrow> string \<Rightarrow> bool" where
  "serves_method pm m = (pm \<in> {[], m} \<or> (m = ''HEAD'' \<and> pm = ''GET''))"

lemma mux_match_mem:
  assumes "mux_match mux m path = Some (e, ms)"
  shows "e \<in> set mux \<and> serves_method (pt_method (fst e)) m"
proof -
  have "e \<in> set mux \<and> pt_method (fst e) = m'" if "matchPath (method_node mux m') path [] = Some (e, ms)" for m'
    using matchPath_mem [OF that] by (auto simp: method_node_def)
  then show ?thesis
    using assms by (auto simp: mux_match_def or_else_def serves_method_def split: option.splits if_splits)
qed

lemma findHandler_mem: "findHandler mux r = Found e ms \<Longrightarrow> e \<in> set mux \<and> serves_method (pt_method (fst e)) (r_Method r)"
  by (auto simp: findHandler_def Let_def split: if_splits option.splits dest!: mux_match_mem)

lemma registered_mem:
  assumes "mux_register wname rs [] = Some mux" and "(p, h) \<in> set mux"
  shows "\<exists>pat. (pat, h) \<in> set rs \<and> p = the (parsePattern wname pat)"
  using mux_register_conflict(2) [OF assms(1)] assms(2) by (auto simp: parsed_def)

text \<open>
  A property of the state that the requests in \<open>good\<close> keep, whichever handler they reach. Which requests
  are good does not depend on the path, which the multiplexers change.
\<close>

locale request_invariant =
  fixes good :: "wh_request \<Rightarrow> bool" and I :: "'s \<Rightarrow> bool"
  assumes good_cong: "good r \<Longrightarrow> r_Method (wh_req r') = r_Method (wh_req r) \<Longrightarrow> r_ctx (wh_req r') = r_ctx (wh_req r) \<Longrightarrow>
      wh_header r' = wh_header r \<Longrightarrow> wh_body r' = wh_body r \<Longrightarrow> good r'"
begin

definition keeps :: "'s handler \<Rightarrow> bool" where
  "keeps h \<longleftrightarrow> (\<forall>r s. good r \<longrightarrow> I s \<longrightarrow> I (snd (h r s)))"

lemma keepsD: "keeps h \<Longrightarrow> good r \<Longrightarrow> I s \<Longrightarrow> I (snd (h r s))"
  by (simp add: keeps_def)

lemma keeps_mux:
  assumes "\<And>p h r s. (p, h) \<in> set mux \<Longrightarrow> good r \<Longrightarrow> serves_method (pt_method p) (r_Method (wh_req r)) \<Longrightarrow> I s \<Longrightarrow> I (snd (h r s))"
  shows "keeps (mux_ServeHTTP red mux)"
  unfolding keeps_def
proof (intro allI impI)
  fix r s
  assume g: "good r" and i: "I s"
  show "I (snd (mux_ServeHTTP red mux r s))"
  proof (cases "findHandler mux (wh_req r)")
    case (Found e ms)
    obtain p h where e: "e = (p, h)" by (cases e)
    let ?r = "r\<lparr>wh_req := (wh_req r)\<lparr>r_PathID := path_value ''id'' (pt_segs p) ms\<rparr>\<rparr>"
    have "good ?r" by (rule good_cong [OF g]) simp_all
    moreover have "(p, h) \<in> set mux" "serves_method (pt_method p) (r_Method (wh_req ?r))"
      using findHandler_mem [OF Found] e by simp_all
    ultimately have "I (snd (h ?r s))" by (intro assms i)
    then show ?thesis using i by (simp add: mux_ServeHTTP_def Found e)
  qed (use i in \<open>simp_all add: mux_ServeHTTP_def\<close>)
qed

lemma keeps_strip:
  assumes "keeps h"
  shows "keeps (StripPrefix pre h)"
  unfolding keeps_def
proof (intro allI impI)
  fix r s
  assume g: "good r" and i: "I s"
  have "good (r\<lparr>wh_req := (wh_req r)\<lparr>r_Path := p, r_RawPath := rp\<rparr>\<rparr>)" for p rp by (rule good_cong [OF g]) simp_all
  then show "I (snd (StripPrefix pre h r s))" using keepsD [OF assms] i by (simp add: StripPrefix_def Let_def)
qed

lemma keeps_cors: "keeps h \<Longrightarrow> keeps (CORS cfg h)"
  unfolding keeps_def by (auto simp: CORS_def passThrough_def Let_def split: option.split prod.split) (metis snd_conv)

lemma keeps_no_route: "keeps (no_route E)"
  by (simp add: keeps_def no_route_def)

end

text \<open>Below the rate limiter, a property that does not depend on the token buckets.\<close>

locale limited_invariant = request_invariant good I
  for good :: "wh_request \<Rightarrow> bool" and I :: "'l limiterStore \<times> reqcell \<times> 'q \<Rightarrow> bool" +
  assumes any_limiter: "I (l, x) \<Longrightarrow> I (l', x)"
begin

lemma keeps_rate: "keeps h \<Longrightarrow> keeps (RateLimit U B cfg key now h)"
  unfolding keeps_def
  by (auto simp: RateLimit_def passThrough_def split: prod.split decision.split intro: any_limiter) (blast intro: any_limiter)

lemma keeps_v1chain: "keeps h \<Longrightarrow> keeps (v1chain E v1 h)"
  by (simp add: v1chain_def Auth_def [abs_def] keeps_rate keeps_cors)

lemma keeps_main:
  assumes "BuildMainHandler E H reg v1 secret = Some h"
    and "\<And>pat ty l ep. (pat, ty, l, ep) \<in> set (v1_routes reg) \<Longrightarrow> keeps (withRoute ty l (call E H ep))"
    and "\<And>r s. good r \<Longrightarrow> r_Method (wh_req r) = ''POST'' \<Longrightarrow> I s \<Longrightarrow>
      I (snd (on_queue (VerifyGitHubHMAC (he_unicode E) secret (GitHub (he_unicode E) (he_enq E) (he_ord E) (hd_Webhook H))) r s))"
  shows "keeps h"
proof -
  obtain v1mux main where v1: "mux_register (he_wname E) (v1_handlers E H reg) [] = Some v1mux"
    and main: "mux_register (he_wname E) (main_handlers E H v1 secret v1mux) [] = Some main"
    and h: "h = mux_ServeHTTP (he_redirect E) main"
    using assms(1) by (auto simp: BuildMainHandler_def bind_eq_Some_conv)
  have "keeps (mux_ServeHTTP (he_redirect E) v1mux)"
  proof (rule keeps_mux)
    fix p g r s
    assume m: "(p, g) \<in> set v1mux" and "good r" "I s"
    obtain pat where "(pat, g) \<in> set (v1_handlers E H reg)" using registered_mem [OF v1 m] by blast
    then obtain ty l ep where "(pat, ty, l, ep) \<in> set (v1_routes reg)" "g = withRoute ty l (call E H ep)"
      by (auto simp: v1_handlers_def)
    then show "I (snd (g r s))" using keepsD [OF assms(2)] \<open>good r\<close> \<open>I s\<close> by blast
  qed
  then have api: "keeps (StripPrefix ''/api/v1'' (v1chain E v1 (mux_ServeHTTP (he_redirect E) v1mux)))"
    by (intro keeps_strip keeps_v1chain)
  show ?thesis unfolding h
  proof (rule keeps_mux)
    fix p g r s
    assume m: "(p, g) \<in> set main" and g: "good r" and sm: "serves_method (pt_method p) (r_Method (wh_req r))" and i: "I s"
    obtain pat where "(pat, g) \<in> set (main_handlers E H v1 secret v1mux)" "p = the (parsePattern (he_wname E) pat)"
      using registered_mem [OF main m] by blast
    then consider "g = StripPrefix ''/api/v1'' (v1chain E v1 (mux_ServeHTTP (he_redirect E) v1mux))"
      | "g = on_queue (VerifyGitHubHMAC (he_unicode E) secret (GitHub (he_unicode E) (he_enq E) (he_ord E) (hd_Webhook H)))" "pt_method p = ''POST''"
      | "g = no_route E"
      by (auto simp: main_handlers_def main_patterns)
    then show "I (snd (g r s))"
    proof cases
      case 1
      then show ?thesis using keepsD [OF api g i] by simp
    next
      case 2
      then have "r_Method (wh_req r) = ''POST''" using sm by (auto simp: serves_method_def)
      then show ?thesis using assms(3) [OF g _ i] 2 by simp
    next
      case 3
      then show ?thesis using keepsD [OF keeps_no_route g i] by simp
    qed
  qed
qed

lemma keeps_fallback: "fallbackMux E = Some h \<Longrightarrow> keeps h"
proof -
  assume "fallbackMux E = Some h"
  then obtain mux where m: "mux_register (he_wname E) [(''/'', no_route E)] [] = Some mux" "h = mux_ServeHTTP (he_redirect E) mux"
    by (auto simp: fallbackMux_def)
  show ?thesis unfolding m(2)
    by (rule keeps_mux) (use registered_mem [OF m(1)] keepsD [OF keeps_no_route] in fastforce)
qed

end

section \<open>The label of a request\<close>

text \<open>The label of every route, and the cell of a request in its course: as it was made, or as a route left
  it, with the capture and the name of the span.\<close>

definition route_labels :: "Registry \<Rightarrow> string list" where
  "route_labels reg = map (\<lambda>(pat, ty, label, ep). label) (v1_routes reg)"

definition observed_cell :: "string set \<Rightarrow> string \<Rightarrow> string option \<Rightarrow> reqcell \<Rightarrow> bool" where
  "observed_cell labels meth sp cell \<longleftrightarrow>
     (cell = \<lparr>rq_capture = zero_route, rq_span = sp\<rparr>
      \<or> (\<exists>ty l. l \<in> labels \<and> cell = \<lparr>rq_capture = \<lparr>rt_TypeID = ty, rt_Pattern = l\<rparr>, rq_span = map_option (\<lambda>_. meth @ '' '' @ l) sp\<rparr>))"

interpretation cells: limited_invariant "\<lambda>r. r_Method (wh_req r) = meth \<and> cx_capture (r_ctx (wh_req r))"
    "\<lambda>s. observed_cell labels meth sp (fst (snd s))" for meth labels sp
  by unfold_locales auto

interpretation unsigned: limited_invariant "\<lambda>r. \<not> (r_Method (wh_req r) = ''POST'' \<and> signed secret r)" "\<lambda>s. snd (snd s) = q" for secret q
  by unfold_locales (auto simp: signed_def)

lemma call_state: "snd (call E H ep r s) = s"
  by (simp add: call_def Let_def)

lemma withRoute_cell: "l \<in> labels \<Longrightarrow> cells.keeps meth labels sp (withRoute ty l (call E H ep))"
  unfolding cells.keeps_def
  by (auto simp: withRoute_def ctx_With_def Let_def call_state observed_cell_def option.map_comp comp_def split: prod.split)

lemma on_queue_cell: "fst (snd (snd (on_queue h r s))) = fst (snd s)"
  by (simp add: on_queue_def split: prod.split)

lemma main_cells:
  assumes "BuildMainHandler E H reg v1 secret = Some h"
  shows "cells.keeps meth (set (route_labels reg)) sp h"
proof (rule cells.keeps_main [OF assms])
  show "cells.keeps meth (set (route_labels reg)) sp (withRoute ty l (call E H ep))" if "(pat, ty, l, ep) \<in> set (v1_routes reg)" for pat ty l ep
    using that by (intro withRoute_cell) (force simp: route_labels_def)
qed (simp add: on_queue_cell)

lemma main_unsigned:
  assumes "BuildMainHandler E H reg v1 secret = Some h"
  shows "unsigned.keeps secret q h"
proof (rule unsigned.keeps_main [OF assms])
  show "unsigned.keeps secret q (withRoute ty l (call E H ep))" for ty l ep
    unfolding unsigned.keeps_def by (auto simp: withRoute_def Let_def call_state split: prod.split)
  show "snd (snd (snd (on_queue (VerifyGitHubHMAC (he_unicode E) secret (GitHub (he_unicode E) (he_enq E) (he_ord E) (hd_Webhook H))) r s))) = q"
    if "\<not> (r_Method (wh_req r) = ''POST'' \<and> signed secret r)" "r_Method (wh_req r) = ''POST''" "snd (snd s) = q" for r s
    using that unsigned_rejected [of secret r "he_unicode E" "GitHub (he_unicode E) (he_enq E) (he_ord E) (hd_Webhook H)" q]
    by (auto simp: on_queue_def)
qed

definition server_labels :: "server_deps \<Rightarrow> string set" where
  "server_labels deps = (case sd_Registry deps of None \<Rightarrow> {} | Some reg \<Rightarrow> set (route_labels reg))"

lemma server_parts:
  assumes "server_New E R deps = Some srv"
  shows "\<exists>h. srv = main_chain (he_unicode E) R (sd_Metrics deps) (on_main h)
    \<and> (\<forall>meth sp. cells.keeps meth (server_labels deps) sp h) \<and> (\<forall>q. unsigned.keeps (sd_WebhookSecret deps) q h)"
proof (cases "sd_Registry deps")
  case None
  then obtain h where h: "fallbackMux E = Some h" "srv = main_chain (he_unicode E) R (sd_Metrics deps) (on_main h)"
    using assms by (auto simp: server_New_def)
  show ?thesis using h(2) cells.keeps_fallback [OF h(1)] unsigned.keeps_fallback [OF h(1)] by (intro exI [of _ h]) simp
next
  case (Some reg)
  then obtain h where h: "BuildMainHandler E (sd_Handlers deps) reg (V1ChainFromConfig (sd_Config deps) (sd_RateLimit deps)) (sd_WebhookSecret deps) = Some h"
      "srv = main_chain (he_unicode E) R (sd_Metrics deps) (on_main h)"
    using assms by (auto simp: server_New_def)
  have "server_labels deps = set (route_labels reg)" by (simp add: server_labels_def Some)
  then show ?thesis using h(2) main_cells [OF h(1)] main_unsigned [OF h(1)] by (intro exI [of _ h]) simp
qed

text \<open>The request as the routes get it: with its id, and with a capture when there are metrics.\<close>

definition inner_request :: "req_env \<Rightarrow> bool \<Rightarrow> wh_request \<Rightarrow> wh_request" where
  "inner_request R metered r =
     r\<lparr>wh_req := (wh_req r)\<lparr>r_ctx := (r_ctx (wh_req r))\<lparr>cx_id := Some (resolveRequestID (map_option fst (re_ids R)) (re_rnd R) r),
       cx_capture := metered \<or> cx_capture (r_ctx (wh_req r))\<rparr>\<rparr>\<rparr>"

definition first_cell :: "req_env \<Rightarrow> wh_request \<Rightarrow> reqcell" where
  "first_cell R r = \<lparr>rq_capture = zero_route, rq_span = map_option (\<lambda>_. ''rfc-api:'' @ r_Method (wh_req r)) (re_ids R)\<rparr>"

lemma put_header_status [simp]: "rs_status (put_header k v resp) = rs_status resp"
  by (simp add: put_header_def)

lemma main_chain_metered:
  assumes "h (inner_request R True r) (l, first_cell R r, q) = (resp, (l', cell, q'))"
  shows "\<exists>entry. main_chain U R (Some m) (on_main h) r (ol, l, q) =
    (put_header ''X-Request-ID'' (resolveRequestID (map_option fst (re_ids R)) (re_rnd R) r) resp,
     (\<lparr>ol_entries = ol_entries ol @ [entry],
        ol_calls = ol_calls ol @ [MInc (m_InFlight m) [],
          MInc (m_RequestsTotal m) [r_Method (wh_req r), rt_Pattern (rq_capture cell), Itoa (rs_status resp)],
          MObserve (m_RequestDuration m) [r_Method (wh_req r), rt_Pattern (rq_capture cell)] (re_elapsed R),
          MDec (m_InFlight m) []],
        ol_spans = ol_spans ol @ (case rq_span cell of None \<Rightarrow> [] | Some n \<Rightarrow> [n])\<rparr>, l', q'))"
proof -
  let ?i = "resolveRequestID (map_option fst (re_ids R)) (re_rnd R) r"
  have "h (r\<lparr>wh_req := (wh_req r)\<lparr>r_ctx := (r_ctx (wh_req r))\<lparr>cx_id := Some ?i, cx_capture := True\<rparr>\<rparr>\<rparr>)
      (l, \<lparr>rq_capture = zero_route, rq_span = map_option (\<lambda>_. ''rfc-api:'' @ r_Method (wh_req r)) (re_ids R)\<rparr>, q) = (resp, (l', cell, q'))"
    using assms by (simp add: inner_request_def first_cell_def)
  then show ?thesis
    by (cases ol) (simp add: main_chain_def OTel_def Recover_def RequestID_def Logger_def MetricsMw_def on_main_def ctx_WithCapture_def ctx_WithID_def
        Let_def)
qed

lemma main_chain_state:
  "snd (snd (main_chain U R om (on_main h) r (ol, l, q))) =
     (case h (inner_request R (om \<noteq> None) r) (l, first_cell R r, q) of (resp, (l', cell, q')) \<Rightarrow> (l', q'))"
proof -
  have c: "(r_ctx (wh_req r))\<lparr>cx_id := i, cx_capture := cx_capture (r_ctx (wh_req r))\<rparr> = (r_ctx (wh_req r))\<lparr>cx_id := i\<rparr>" for i
    by (cases "r_ctx (wh_req r)") simp
  show ?thesis
    by (cases om) (simp_all add: main_chain_def OTel_def Recover_def RequestID_def Logger_def MetricsMw_def on_main_def
        ctx_WithCapture_def ctx_WithID_def inner_request_def first_cell_def c Let_def split: prod.split)
qed

section \<open>Properties of the server\<close>

text \<open>C38: Every answered request is observed once, under a bounded set of labels. Whatever the request (any
  method, path, headers), the server with metrics raises and lowers the in-flight gauge, counts the request
  and observes its duration exactly once, with the method, the status it answered and as the route the
  empty string or the label of a registered route, never the path; it writes exactly one access-log record,
  and when there is a span it ends named by method and route label, the same label, or by the method alone
  when no route matched.\<close>

theorem request_observed:
  assumes "server_New E R deps = Some srv" and "sd_Metrics deps = Some m" and "srv r (ol, l, q) = (resp, (ol', l', q'))"
  shows "\<exists>route entry. route \<in> insert [] (server_labels deps)
    \<and> ol_calls ol' = ol_calls ol @ [MInc (m_InFlight m) [],
        MInc (m_RequestsTotal m) [r_Method (wh_req r), route, Itoa (rs_status resp)],
        MObserve (m_RequestDuration m) [r_Method (wh_req r), route] (re_elapsed R), MDec (m_InFlight m) []]
    \<and> ol_entries ol' = ol_entries ol @ [entry]
    \<and> ol_spans ol' = ol_spans ol @ (if re_ids R = None then []
        else [if route = [] then ''rfc-api:'' @ r_Method (wh_req r) else r_Method (wh_req r) @ '' '' @ route])"
proof -
  obtain h where h: "srv = main_chain (he_unicode E) R (sd_Metrics deps) (on_main h)"
    "\<forall>meth sp. cells.keeps meth (server_labels deps) sp h" using server_parts [OF assms(1)] by blast
  obtain resp0 l0 cell q0 where a: "h (inner_request R True r) (l, first_cell R r, q) = (resp0, (l0, cell, q0))"
    by (metis prod_cases4)
  have "observed_cell (server_labels deps) (r_Method (wh_req r)) (rq_span (first_cell R r)) (fst (snd (l, first_cell R r, q)))"
    by (simp add: observed_cell_def first_cell_def)
  then have c: "observed_cell (server_labels deps) (r_Method (wh_req r)) (rq_span (first_cell R r)) cell"
    using cells.keepsD [OF h(2) [rule_format], where r = "inner_request R True r" and s = "(l, first_cell R r, q)"] a
    by (simp add: inner_request_def)
  obtain entry where e: "srv r (ol, l, q) =
    (put_header ''X-Request-ID'' (resolveRequestID (map_option fst (re_ids R)) (re_rnd R) r) resp0,
     (\<lparr>ol_entries = ol_entries ol @ [entry],
        ol_calls = ol_calls ol @ [MInc (m_InFlight m) [],
          MInc (m_RequestsTotal m) [r_Method (wh_req r), rt_Pattern (rq_capture cell), Itoa (rs_status resp0)],
          MObserve (m_RequestDuration m) [r_Method (wh_req r), rt_Pattern (rq_capture cell)] (re_elapsed R),
          MDec (m_InFlight m) []],
        ol_spans = ol_spans ol @ (case rq_span cell of None \<Rightarrow> [] | Some n \<Rightarrow> [n])\<rparr>, l0, q0))"
    unfolding h(1) assms(2) using main_chain_metered [where h = h, OF a] by blast
  have nil: "[] \<notin> server_labels deps"
    by (auto simp: server_labels_def route_labels_def v1_routes_def cross_routes_def type_routes_def Let_def split: option.splits)
  show ?thesis
    using assms(3) e c nil
    by (intro exI [of _ "rt_Pattern (rq_capture cell)"] exI [of _ entry])
       (auto simp: observed_cell_def first_cell_def zero_route_def split: option.split)
qed

text \<open>A server over the in-memory store with the default types, and a request without a span.\<close>

definition sample_server :: server_deps where
  "sample_server = \<lparr>sd_Config = \<lparr>cs_Listen = [], cs_ReadTimeout = 0, cs_WriteTimeout = 0, cs_CORSOrigins = []\<rparr>,
     sd_RateLimit = \<lparr>cr_RPS = 10, cr_Burst = 20, cr_TTL = 0\<rparr>, sd_Registry = Some (registry_of ascii_only default_types),
     sd_Handlers = sample_handlers, sd_WebhookSecret = ''key'', sd_Metrics = Some unregistered\<rparr>"

definition sample_req_env :: req_env where
  "sample_req_env = \<lparr>re_ids = None, re_rnd = (''r'', False), re_size = (\<lambda>_. ''0''), re_ms = ''0.1'', re_elapsed = 100000\<rparr>"

definition empty_log :: obs_log where
  "empty_log = \<lparr>ol_entries = [], ol_calls = [], ol_spans = []\<rparr>"

lemma sample_builds_with: "\<exists>srv. server_New sample_env sample_req_env (sample_server\<lparr>sd_Handlers := H, sd_Metrics := om\<rparr>) = Some srv"
proof -
  have w: "he_wname sample_env ''id''" by (simp add: sample_env_def)
  show ?thesis
    using routed [where r = "get_request [''api'', ''v1'', ''docs'']" and segs = "[''docs'']" and s = "(Map.empty, no_cell, ([], 0))"
        and H = H and secret = "''key''"
        and ?v1.0 = "V1ChainFromConfig (sd_Config sample_server) (sd_RateLimit sample_server)", OF default_registry default_plain w]
    by (auto simp: server_New_def sample_server_def get_request_def)
qed

lemma sample_builds: "\<exists>srv. server_New sample_env sample_req_env sample_server = Some srv"
  using sample_builds_with [where H = sample_handlers and om = "Some unregistered"] by (simp add: sample_server_def)

theorem request_observed_witness:
  "\<exists>srv resp ol st. server_New sample_env sample_req_env sample_server = Some srv
    \<and> srv (get_request [''nowhere'']) (empty_log, Map.empty, ([], 0)) = (resp, ol, st)
    \<and> length (ol_entries ol) = 1 \<and> gauge (m_InFlight unregistered) (ol_calls ol) = 0"
proof -
  obtain srv where srv: "server_New sample_env sample_req_env sample_server = Some srv" using sample_builds by blast
  obtain resp ol l q where e: "srv (get_request [''nowhere'']) (empty_log, Map.empty, ([], 0)) = (resp, (ol, l, q))" by (metis prod_cases4)
  have m: "sd_Metrics sample_server = Some unregistered" by (simp add: sample_server_def)
  show ?thesis using request_observed [OF srv m e] srv e by (auto simp: empty_log_def)
qed

text \<open>A request of the route table, as its handler gets it.\<close>

definition routed_request :: "req_env \<Rightarrow> string list \<Rightarrow> string \<Rightarrow> string \<Rightarrow> string \<Rightarrow> wh_request \<Rightarrow> wh_request" where
  "routed_request R segs ty label i r =
     (let r' = inner_request R True r in
      r'\<lparr>wh_req := (wh_req r')\<lparr>r_Path := path_of segs, r_PathID := i,
        r_ctx := (r_ctx (wh_req r'))\<lparr>cx_route := Some \<lparr>rt_TypeID = ty, rt_Pattern = label\<rparr>\<rparr>\<rparr>\<rparr>)"

lemma call_answer: "call E H ep r s = (fst (call E H ep r ()), s)"
  by (simp add: call_def Let_def)

lemma served:
  assumes "NewRegistry U types = Inr reg" and "plain_types reg" and "set (type_ids reg) \<inter> reserved = {}" and "he_wname E ''id''"
    and "server_New E R deps = Some srv" and "sd_Registry deps = Some reg" and "sd_Metrics deps = Some m"
    and "segs \<noteq> []" and "list_all plain_segment segs" and "route_of (type_ids reg) segs = Some (ty, label, ep, i)"
    and "r_Path (wh_req r) = path_of (''api'' # ''v1'' # segs)" and "r_RawPath (wh_req r) = []" and "r_RequestURI (wh_req r) \<noteq> ''*''"
    and "r_Method (wh_req r) \<in> {''GET'', ''HEAD''}" and "wh_header r ''Origin'' = []"
    and "\<And>r'. snd (admit (he_bucket E) (he_now E) (he_key E r') l) = Allowed"
  shows "\<exists>ol' l'. srv r (ol, l, q) =
      (put_header ''X-Request-ID'' (resolveRequestID (map_option fst (re_ids R)) (re_rnd R) r)
         (fst (call E (sd_Handlers deps) ep (routed_request R segs ty label i r) ())), (ol', l', q))
    \<and> ol_calls ol' = ol_calls ol @ [MInc (m_InFlight m) [],
        MInc (m_RequestsTotal m) [r_Method (wh_req r), label,
          Itoa (rs_status (fst (call E (sd_Handlers deps) ep (routed_request R segs ty label i r) ())))],
        MObserve (m_RequestDuration m) [r_Method (wh_req r), label] (re_elapsed R), MDec (m_InFlight m) []]"
proof -
  let ?r = "inner_request R True r" and ?v1 = "V1ChainFromConfig (sd_Config deps) (sd_RateLimit deps)"
  let ?r' = "?r\<lparr>wh_req := (wh_req ?r)\<lparr>r_PathID := [], r_Path := path_of segs\<rparr>\<rparr>"
  have i: "r_Path (wh_req ?r) = path_of (''api'' # ''v1'' # segs)" "r_RawPath (wh_req ?r) = []" "r_RequestURI (wh_req ?r) \<noteq> ''*''"
    "r_Method (wh_req ?r) = r_Method (wh_req r)" "wh_header ?r = wh_header r" "cx_capture (r_ctx (wh_req ?r))"
    using assms(11-13) by (simp_all add: inner_request_def)
  obtain h where h: "BuildMainHandler E (sd_Handlers deps) reg ?v1 (sd_WebhookSecret deps) = Some h"
    "h ?r (l, first_cell R r, q) = v1chain E ?v1 (v1_serve E (sd_Handlers deps) (type_ids reg) segs) ?r' (l, first_cell R r, q)"
    using routed [OF assms(1-4,8,9) i(1-3), of "sd_Handlers deps" ?v1 "sd_WebhookSecret deps" "(l, first_cell R r, q)"] assms(14) i(4) by auto
  have "wh_header ?r' ''Origin'' = []" using assms(15) i(5) by simp
  then obtain l' where l': "h ?r (l, first_cell R r, q) = v1_serve E (sd_Handlers deps) (type_ids reg) segs ?r' (l', first_cell R r, q)"
    using admitted [of ?r' E "(l, first_cell R r, q)" ?v1 "v1_serve E (sd_Handlers deps) (type_ids reg) segs"] assms(16) h(2) by auto
  have "r_Method (wh_req ?r') \<in> {''GET'', ''HEAD''}" "cx_capture (r_ctx (wh_req ?r'))" using assms(14) i(4,6) by simp_all
  then have "\<exists>sp. h ?r (l, first_cell R r, q) = (fst (call E (sd_Handlers deps) ep (routed_request R segs ty label i r) ()),
      (l', \<lparr>rq_capture = \<lparr>rt_TypeID = ty, rt_Pattern = label\<rparr>, rq_span = sp\<rparr>, q))"
    unfolding l' v1_serve_def assms(10) routed_request_def Let_def
    by (simp add: withRoute_def ctx_With_def call_answer [of E "sd_Handlers deps" ep _ "(_, _)"] Let_def)
  then obtain sp where a: "h ?r (l, first_cell R r, q) = (fst (call E (sd_Handlers deps) ep (routed_request R segs ty label i r) ()),
      (l', \<lparr>rq_capture = \<lparr>rt_TypeID = ty, rt_Pattern = label\<rparr>, rq_span = sp\<rparr>, q))"
    by blast
  have "srv = main_chain (he_unicode E) R (Some m) (on_main h)" using assms(5-7) h(1) by (simp add: server_New_def)
  then show ?thesis using main_chain_metered [where h = h, OF a, of "he_unicode E" m ol] by auto
qed



text \<open>C16: Only authentic webhook deliveries queue jobs. Whatever request the server gets, the job queue
  is as before, or the method is POST and the request carries the HMAC-SHA256 of its body under the
  configured, non-empty secret; every read, every unsigned or wrongly signed request, to any path, leaves
  the queue alone.\<close>

theorem server_signature_gate:
  assumes "server_New E R deps = Some srv" and "srv r (ol, l, q) = (resp, (ol', l', q'))"
  shows "q' = q \<or> r_Method (wh_req r) = ''POST'' \<and> signed (sd_WebhookSecret deps) r"
proof (rule disjCI)
  assume n: "\<not> (r_Method (wh_req r) = ''POST'' \<and> signed (sd_WebhookSecret deps) r)"
  obtain h where h: "srv = main_chain (he_unicode E) R (sd_Metrics deps) (on_main h)"
    "\<forall>q. unsigned.keeps (sd_WebhookSecret deps) q h" using server_parts [OF assms(1)] by blast
  let ?r = "inner_request R (sd_Metrics deps \<noteq> None) r"
  have "\<not> (r_Method (wh_req ?r) = ''POST'' \<and> signed (sd_WebhookSecret deps) ?r)" using n by (simp add: inner_request_def signed_def)
  then have "snd (snd (snd (h ?r (l, first_cell R r, q)))) = q"
    using unsigned.keepsD [OF h(2) [rule_format], where r = ?r and s = "(l, first_cell R r, q)"] by simp
  then show "q' = q" using assms(2) main_chain_state [of "he_unicode E" R "sd_Metrics deps" h r ol l q]
    by (simp add: h(1) case_prod_unfold)
qed

theorem server_signature_gate_witness:
  "\<exists>srv resp ol l. server_New sample_env sample_req_env sample_server = Some srv
    \<and> srv (get_request [''api'', ''v1'', ''webhooks'', ''github'']) (empty_log, Map.empty, ([], 0)) = (resp, (ol, l, ([], 0)))"
proof -
  let ?r = "get_request [''api'', ''v1'', ''webhooks'', ''github'']"
  obtain srv where srv: "server_New sample_env sample_req_env sample_server = Some srv" using sample_builds by blast
  obtain resp ol l q where e: "srv ?r (empty_log, Map.empty, ([], 0)) = (resp, (ol, l, q))" by (metis prod_cases4)
  show ?thesis using server_signature_gate [OF srv e] srv e by (auto simp: get_request_def)
qed

text \<open>A request whose handler panics is answered with 500, and the gauge goes back, but it is neither counted
  nor logged: both would happen after the handler returns. The response has the request id as a header, the
  problem document does not name it: \<^verbatim>\<open>Recover\<close> writes it with the request it was given, above \<^verbatim>\<open>RequestID\<close>.\<close>

lemma panic_unobserved:
  assumes "\<And>r st. h r st = (Panicking v [], st)"
  shows "\<exists>resp ol' p. main_chain U R (Some m) h r (ol, s) = (resp, (ol', s)) \<and> rs_status resp = 500
    \<and> ol_calls ol' = ol_calls ol @ [MInc (m_InFlight m) [], MDec (m_InFlight m) []] \<and> ol_entries ol' = ol_entries ol
    \<and> get_header ''X-Request-ID'' resp = Some (resolveRequestID (map_option fst (re_ids R)) (re_rnd R) r)
    \<and> rs_body resp = BProblem p \<and> p_request_id p = ctx_ID (r_ctx (wh_req r))"
  by (simp add: main_chain_def OTel_def Recover_def RequestID_def Logger_def MetricsMw_def ctx_WithCapture_def assms
      err_Write_def classify_def put_header_def get_header_def Let_def)

text \<open>The access log never names the route of a request: the router puts it on the context of the request
  it passes on, and \<^verbatim>\<open>Logger\<close> reads the context of its own request.\<close>

lemma log_has_no_route:
  assumes "cx_route (r_ctx (wh_req r)) = None" and "h r st = (Replied resp, (ol, s))"
  shows "\<exists>ol'. Logger ids sz dur h r st = (Replied resp, (ol', s)) \<and> ''http.route'' \<notin> fst ` set (snd (last (ol_entries ol')))"
  using assms by (cases ids) (auto simp: Logger_def log_attrs_def ctx_From_def)

section \<open>The admin port\<close>

lemma admin_patterns:
  "parsePattern wname ''GET /healthz'' = Some (get_pattern [PLit ''healthz''])"
  "parsePattern wname ''GET /readyz'' = Some (get_pattern [PLit ''readyz''])"
  "parsePattern wname ''GET /metrics'' = Some (get_pattern [PLit ''metrics''])"
  "parsePattern wname ''GET /debug/pprof/'' = Some (get_pattern [PLit ''debug'', PLit ''pprof'', PMulti []])"
  "parsePattern wname ''GET /debug/pprof/cmdline'' = Some (get_pattern [PLit ''debug'', PLit ''pprof'', PLit ''cmdline''])"
  "parsePattern wname ''GET /debug/pprof/profile'' = Some (get_pattern [PLit ''debug'', PLit ''pprof'', PLit ''profile''])"
  "parsePattern wname ''GET /debug/pprof/symbol'' = Some (get_pattern [PLit ''debug'', PLit ''pprof'', PLit ''symbol''])"
  "parsePattern wname ''GET /debug/pprof/trace'' = Some (get_pattern [PLit ''debug'', PLit ''pprof'', PLit ''trace''])"
  by (simp_all add: parsePattern_def split_method_def blank_def parse_segs.simps(2) pathUnescape_def token_char_def
      is_alpha_char_def is_upper_char_def cleanPath_def path_Clean_def get_pattern_def)

text \<open>The registration never panics, and the profiling routes are there exactly when they are enabled.\<close>

definition admin_mux :: "'s admin_env \<Rightarrow> ConfigAdmin \<Rightarrow> 's probe list \<Rightarrow> Metrics \<Rightarrow> 's handler mux" where
  "admin_mux A cfg probes m =
     zip (map get_pattern ([[PLit ''healthz''], [PLit ''readyz''], [PLit ''metrics'']]
       @ (if ca_PprofEnabled cfg then [PLit ''debug'', PLit ''pprof'', PMulti []]
            # map (\<lambda>x. [PLit ''debug'', PLit ''pprof'', PLit x]) [''cmdline'', ''profile'', ''symbol'', ''trace''] else [])))
       (map snd (admin_handlers A cfg probes m))"

lemma admin_register: "mux_register (ae_wname A) (admin_handlers A cfg probes m) [] = Some (admin_mux A cfg probes m)"
  by (simp add: admin_handlers_def admin_mux_def registerPprof_def mux_Handle_def admin_patterns conflictsWith_def get_pattern_def
      compareMethods_def comparePaths_def ends_multi_def Let_def)

lemma plain_admin [simp]: "plain_segment ''healthz''" "plain_segment ''readyz''"
  by (simp_all add: plain_segment_def unreserved_def is_alpha_char_def is_lower_char_def is_upper_char_def is_digit_char_def)

lemma admin_found:
  assumes "x \<in> {''healthz'', ''readyz''}" and "r_Path (wh_req r) = path_of [x]" and "r_RawPath (wh_req r) = []"
    and "r_RequestURI (wh_req r) \<noteq> ''*''" and "r_Method (wh_req r) = ''GET''"
  shows "mux_ServeHTTP red (admin_mux A cfg probes m) r s =
    (if x = ''healthz'' then HealthLive else HealthReady (ae_unicode A) (map (\<lambda>(name, check). (name, check s)) probes), s)"
proof -
  let ?mux = "admin_mux A cfg probes m" and ?h = "\<lambda>r s. (HealthLive, s)"
    and ?rd = "\<lambda>r s. (HealthReady (ae_unicode A) (map (\<lambda>(name, check). (name, check s)) probes), s)"
  have pl: "list_all plain_segment [x]" using assms(1) by auto
  define path where "path = path_of [x]"
  have p: "EscapedPath path [] = path" "cleanPath path = path" unfolding path_def by (rule plain_path [OF _ pl], simp)+
  have "matchPath (method_node ?mux ''GET'') path [] =
      Some ((get_pattern [PLit x], if x = ''healthz'' then ?h else ?rd), [])"
    unfolding path_def matchPath_segs [OF pl] using assms(1)
    by (auto simp: method_node_def admin_mux_def admin_handlers_def registerPprof_def get_pattern_def leaf_def)
  then have "mux_match ?mux ''GET'' path = Some ((get_pattern [PLit x], if x = ''healthz'' then ?h else ?rd), [])"
    by (simp add: mux_match_def or_else_def)
  then have "findHandler ?mux (wh_req r) = Found (get_pattern [PLit x], if x = ''healthz'' then ?h else ?rd) []"
    by (simp add: findHandler_def assms(2) [folded path_def] assms(3,5) p slash_redirects_def exactMatch_def get_pattern_def ends_multi_def Let_def)
  then show ?thesis using assms(4) by (simp add: mux_ServeHTTP_def)
qed

text \<open>The probes of the admin port: \<^verbatim>\<open>/healthz\<close> answers 200 whatever the state, \<^verbatim>\<open>/readyz\<close> 200 when every probe
  passes in the current state and 503 naming the failing ones otherwise, and both leave the state alone.\<close>

lemma admin_health:
  assumes "NewAdmin A R cfg probes m = Some srv" and "r_RawPath (wh_req r) = []"
    and "r_RequestURI (wh_req r) \<noteq> ''*''" and "r_Method (wh_req r) = ''GET''"
  shows "r_Path (wh_req r) = ''/healthz'' \<Longrightarrow> rs_status (fst (srv r (ol, s))) = 200 \<and> snd (snd (srv r (ol, s))) = s"
    and "r_Path (wh_req r) = ''/readyz'' \<Longrightarrow>
      rs_status (fst (srv r (ol, s))) = (if \<forall>(name, check) \<in> set probes. check s = None then 200 else 503)
      \<and> failing_probes (fst (srv r (ol, s))) = map fst (filter (\<lambda>(name, check). check s \<noteq> None) probes)
      \<and> snd (snd (srv r (ol, s))) = s"
proof -
  let ?r = "r\<lparr>wh_req := (wh_req r)\<lparr>r_ctx := ctx_WithID (r_ctx (wh_req r)) (resolveRequestID (map_option fst (re_ids R)) (re_rnd R) r)\<rparr>\<rparr>"
  have put: "failing_probes (put_header k v resp) = failing_probes resp" for k v resp
    by (simp add: failing_probes_def put_header_def)
  have srv: "rs_status (fst (srv r (ol, s))) = rs_status resp \<and> failing_probes (fst (srv r (ol, s))) = failing_probes resp
      \<and> snd (snd (srv r (ol, s))) = s"
    if "mux_ServeHTTP (ae_redirect A) (admin_mux A cfg probes m) ?r s = (resp, s)" for resp
    using assms(1) that
    by (auto simp: NewAdmin_def admin_register OTel_def Recover_def RequestID_def Logger_def on_admin_def put Let_def)
  show "rs_status (fst (srv r (ol, s))) = 200 \<and> snd (snd (srv r (ol, s))) = s" if "r_Path (wh_req r) = ''/healthz''"
    using srv [OF admin_found [of "''healthz''" ?r, THEN trans]] that assms(2-4) by (simp add: HealthLive_def)
  have "(\<forall>(name, check) \<in> set probes. check s = None) \<longleftrightarrow> list_all (\<lambda>p. snd p = None) (map (\<lambda>(name, check). (name, check s)) probes)"
    by (auto simp: list_all_iff)
  moreover have "map fst (filter (\<lambda>p. snd p \<noteq> None) (map (\<lambda>(name, check). (name, check s)) probes)) =
      map fst (filter (\<lambda>(name, check). check s \<noteq> None) probes)"
    by (induction probes) auto
  ultimately show "rs_status (fst (srv r (ol, s))) = (if \<forall>(name, check) \<in> set probes. check s = None then 200 else 503)
      \<and> failing_probes (fst (srv r (ol, s))) = map fst (filter (\<lambda>(name, check). check s \<noteq> None) probes)
      \<and> snd (snd (srv r (ol, s))) = s" if "r_Path (wh_req r) = ''/readyz''"
    using srv [OF admin_found [of "''readyz''" ?r, THEN trans]] that assms(2-4) by (simp add: ready_report)
qed

end
