(* ===== verification/Tracing.thy ===== *)
theory Tracing
  imports Config
begin

text \<open>
  Tracing, \<^verbatim>\<open>internal/obs/tracing.go\<close>: the tracer provider of a process, from the OpenTelemetry configuration
  to the shutdown hook. The OpenTelemetry libraries are the functions of a record; what the process installs
  globally is a state.
\<close>

definition ServiceName :: string where
  "ServiceName = ''rfc-api''"

section \<open>The endpoint\<close>

fun strip_loop :: "string list \<Rightarrow> string \<Rightarrow> string" where
  "strip_loop [] endpoint = endpoint"
| "strip_loop (pre # pres) endpoint =
     (if length endpoint > length pre \<and> take (length pre) endpoint = pre then drop (length pre) endpoint
      else strip_loop pres endpoint)"

definition stripScheme :: "string \<Rightarrow> string" where
  "stripScheme endpoint = strip_loop [''http://'', ''https://''] endpoint"

section \<open>The provider\<close>

text \<open>
  The libraries: an exporter for an endpoint (without transport security), the resource merged from the
  defaults with the service's name and version, a provider over both with a sampling ratio, the no-op
  provider, and how each shuts down, on a state of their own.
\<close>

record ('x, 'r, 't, 'w) otel =
  ot_exporter :: "string \<Rightarrow> 'x result"
  ot_resource :: "string \<Rightarrow> string \<Rightarrow> 'r result"
  ot_provider :: "'x \<Rightarrow> 'r \<Rightarrow> float64 \<Rightarrow> duration \<Rightarrow> 't"
  ot_noop :: 't
  ot_sdk_shutdown :: "'t \<Rightarrow> 'w \<Rightarrow> 'w \<times> goerr option"
  ot_exp_shutdown :: "'x \<Rightarrow> 'w \<Rightarrow> 'w \<times> goerr option"

text \<open>What is installed globally: the provider and the propagators.\<close>

datatype propagator = TraceContext | Baggage

record 't otel_global =
  og_provider :: "'t option"
  og_propagators :: "propagator list"

record ('t, 'w) TracerProvider =
  tp_tp :: 't
  tp_shutdown :: "'w \<Rightarrow> 'w \<times> goerr option"

definition sdk_shutdown :: "('x, 'r, 't, 'w) otel \<Rightarrow> 't \<Rightarrow> 'x \<Rightarrow> 'w \<Rightarrow> 'w \<times> goerr option" where
  "sdk_shutdown L tp ex w =
     (case ot_sdk_shutdown L tp w of
        (w', Some e) \<Rightarrow> (w', Some (Errorf [Lit ''sdk tracer shutdown: '', Wrap e]))
      | (w', None) \<Rightarrow>
         (case ot_exp_shutdown L ex w' of
            (w'', Some e) \<Rightarrow> (w'', Some (Errorf [Lit ''exporter shutdown: '', Wrap e]))
          | (w'', None) \<Rightarrow> (w'', None)))"

definition NewTracerProvider :: "('x, 'r, 't, 'w) otel \<Rightarrow> ConfigOTel \<Rightarrow> string \<Rightarrow> string \<Rightarrow> 't otel_global
    \<Rightarrow> 't otel_global \<times> ('t, 'w) TracerProvider result" where
  "NewTracerProvider L cfg version commit g =
     (if co_OTLPEndpoint cfg = []
      then (g\<lparr>og_provider := Some (ot_noop L)\<rparr>, Inr \<lparr>tp_tp = ot_noop L, tp_shutdown = (\<lambda>w. (w, None))\<rparr>)
      else (case ot_exporter L (stripScheme (co_OTLPEndpoint cfg)) of
              Inl e \<Rightarrow> (g, Inl (Errorf [Lit ''build OTLP gRPC exporter: '', Wrap e]))
            | Inr ex \<Rightarrow>
               (case ot_resource L ServiceName version of
                  Inl e \<Rightarrow> (g, Inl (Errorf [Lit ''merge OTel resource: '', Wrap e]))
                | Inr res \<Rightarrow>
                   let tp = ot_provider L ex res (co_TraceSampleRatio cfg) (5 * second)
                   in (g\<lparr>og_provider := Some tp, og_propagators := [TraceContext, Baggage]\<rparr>,
                       Inr \<lparr>tp_tp = tp, tp_shutdown = sdk_shutdown L tp ex\<rparr>))))"

definition tp_Provider :: "('t, 'w) TracerProvider \<Rightarrow> 't" where
  "tp_Provider p = tp_tp p"

definition tp_Shutdown :: "('t, 'w) TracerProvider \<Rightarrow> 'w \<Rightarrow> 'w \<times> goerr option" where
  "tp_Shutdown p w = tp_shutdown p w"

section \<open>What it guarantees\<close>

lemma strip_http: "rest \<noteq> [] \<Longrightarrow> stripScheme (''http://'' @ rest) = rest"
  and strip_https: "rest \<noteq> [] \<Longrightarrow> stripScheme (''https://'' @ rest) = rest"
  by (simp_all add: stripScheme_def)

text \<open>An endpoint without one of the two schemes is passed on as it is.\<close>

lemma strip_none: "(\<And>pre. pre \<in> set pres \<Longrightarrow> \<not> HasPrefix endpoint pre) \<Longrightarrow> strip_loop pres endpoint = endpoint"
  by (induction pres) (auto simp: HasPrefix_def, metis take_is_prefix)

lemma strip_bare:
  assumes "\<not> HasPrefix endpoint ''http://''" and "\<not> HasPrefix endpoint ''https://''"
  shows "stripScheme endpoint = endpoint"
  unfolding stripScheme_def by (rule strip_none) (use assms in auto)

text \<open>Without an endpoint the provider is the no-op one and its shutdown does nothing, however the libraries
  behave.\<close>

lemma tracing_off:
  assumes "co_OTLPEndpoint cfg = []"
  shows "\<exists>p. NewTracerProvider L cfg version commit g = (g\<lparr>og_provider := Some (ot_noop L)\<rparr>, Inr p)
    \<and> tp_Provider p = ot_noop L \<and> tp_Shutdown p w = (w, None)"
  using assms by (simp add: NewTracerProvider_def tp_Provider_def tp_Shutdown_def)

text \<open>The provider a process hands to its servers is the one it has installed globally, and a failed
  construction installs nothing.\<close>

lemma tracer_installed:
  assumes "NewTracerProvider L cfg version commit g = (g', res)"
  shows "case res of Inl e \<Rightarrow> g' = g | Inr p \<Rightarrow> og_provider g' = Some (tp_Provider p)"
  using assms by (auto simp: NewTracerProvider_def tp_Provider_def Let_def split: if_splits sum.splits)

text \<open>The scheme has no effect: an \<^verbatim>\<open>https\<close> endpoint is exported to exactly like the \<^verbatim>\<open>http\<close> one, that is,
  without transport security; the commit has no effect either.\<close>

lemma https_as_http:
  assumes "rest \<noteq> []"
  shows "NewTracerProvider L (cfg\<lparr>co_OTLPEndpoint := ''https://'' @ rest\<rparr>) version commit g =
    NewTracerProvider L (cfg\<lparr>co_OTLPEndpoint := ''http://'' @ rest\<rparr>) version commit' g"
  using strip_http [OF assms] strip_https [OF assms] by (simp add: NewTracerProvider_def split: sum.split)

text \<open>When the provider fails to flush, the exporter is not shut down.\<close>

lemma shutdown_stops_at_sdk:
  assumes "ot_sdk_shutdown L tp w = (w', Some e)"
  shows "sdk_shutdown L tp ex w = (w', Some (Errorf [Lit ''sdk tracer shutdown: '', Wrap e]))"
  using assms by (simp add: sdk_shutdown_def)

end
