(* ===== verification/Cli.thy ===== *)
theory Cli
  imports WorkerSystem Server Tracing
begin

text \<open>
  The command line, \<^verbatim>\<open>cmd/rfc-api\<close>: dispatch and exit codes, the flags of the subcommands, and the
  subcommands themselves as sequences of fallible steps (\<^verbatim>\<open>serve\<close>, \<^verbatim>\<open>work\<close>, \<^verbatim>\<open>migrate\<close>, \<^verbatim>\<open>reindex\<close>),
  with the life cycle of the two HTTP servers, the connection pool and the migrator. The libraries below
  (pgx, golang-migrate, OpenTelemetry, net/http) and the outcome of a running process are arguments. A panic
  while a process is being built ends it.
\<close>

section \<open>Logging options\<close>

datatype Level = LevelDebug | LevelInfo | LevelWarn | LevelError

definition parseLevel :: "unicode \<Rightarrow> string \<Rightarrow> Level" where
  "parseLevel U s =
     (let l = ToLower U s in
      if l = ''debug'' then LevelDebug
      else if l = ''warn'' \<or> l = ''warning'' then LevelWarn
      else if l = ''error'' then LevelError
      else LevelInfo)"

datatype log_handler = TextHandler Level | JSONHandler Level

definition buildLogger :: "unicode \<Rightarrow> ConfigLog \<Rightarrow> log_handler" where
  "buildLogger U cfg =
     (if ToLower U (cl_Format cfg) = ''text'' then TextHandler (parseLevel U (cl_Level cfg))
      else JSONHandler (parseLevel U (cl_Level cfg)))"

section \<open>Connections\<close>

record pool_config =
  pc_MaxConns :: int
  pc_MinConns :: int
  pc_MaxConnIdleTime :: duration
  pc_HealthCheckPeriod :: duration

text \<open>Pgxpool: parsing the URL, opening the pool, pinging it.\<close>

record pgx =
  px_parse :: "string \<Rightarrow> goerr option"
  px_new :: "string \<Rightarrow> pool_config \<Rightarrow> goerr option"
  px_ping :: "goerr option"

definition default_pool :: pool_config where
  "default_pool = \<lparr>pc_MaxConns = 25, pc_MinConns = 5, pc_MaxConnIdleTime = 5 * minute, pc_HealthCheckPeriod = 30 * second\<rparr>"

definition NewPool :: "pgx \<Rightarrow> string \<Rightarrow> pool_config result" where
  "NewPool L databaseURL =
     (case px_parse L databaseURL of
        Some e \<Rightarrow> Inl (Errorf [Lit ''parse database url: '', Wrap e])
      | None \<Rightarrow>
         (case px_new L databaseURL default_pool of
            Some e \<Rightarrow> Inl (Errorf [Lit ''create pool: '', Wrap e])
          | None \<Rightarrow>
             (case px_ping L of
                Some e \<Rightarrow> Inl (Errorf [Lit ''ping database: '', Wrap e])
              | None \<Rightarrow> Inr default_pool)))"

definition pg_Probe_Check :: "goerr option \<Rightarrow> goerr option" where
  "pg_Probe_Check ping = (case ping of Some e \<Rightarrow> Some (Errorf [Lit ''ping: '', Wrap e]) | None \<Rightarrow> None)"

definition NewReadClient :: "ConfigMeili \<Rightarrow> (string \<times> string) result" where
  "NewReadClient m = newClient (cm_URL m) (ReadKey m) ''read''"

definition NewWriteClient :: "ConfigMeili \<Rightarrow> (string \<times> string) result" where
  "NewWriteClient m = newClient (cm_URL m) (WriteSecret m) ''write''"

section \<open>Servers\<close>

text \<open>How serving ends: \<^verbatim>\<open>ListenAndServe\<close> returns (\<open>None\<close> for \<^verbatim>\<open>ErrServerClosed\<close>), or the context is
  cancelled and \<^verbatim>\<open>Shutdown\<close> returns.\<close>

datatype server_end = ListenEnds "goerr option" | ContextDone "goerr option"

definition shutdown_budget :: "time \<Rightarrow> time option \<Rightarrow> duration" where
  "shutdown_budget now deadline = (case deadline of Some d \<Rightarrow> d - now | None \<Rightarrow> 20 * second)"

definition server_Start :: "string \<Rightarrow> server_end \<Rightarrow> goerr option" where
  "server_Start name ev =
     (case ev of
        ListenEnds None \<Rightarrow> None
      | ListenEnds (Some e) \<Rightarrow> Some (Errorf [Lit name, Lit '' listen: '', Wrap e])
      | ContextDone None \<Rightarrow> None
      | ContextDone (Some e) \<Rightarrow> Some (Errorf [Lit name, Lit '' shutdown: '', Wrap e]))"

text \<open>\<^verbatim>\<open>errgroup.Wait\<close>: the first error of the goroutines, here in the order in which they end.\<close>

fun eg_Wait :: "goerr option list \<Rightarrow> goerr option" where
  "eg_Wait [] = None"
| "eg_Wait (e # es) = (case e of Some x \<Rightarrow> Some x | None \<Rightarrow> eg_Wait es)"

definition wrap_opt :: "string \<Rightarrow> goerr option \<Rightarrow> goerr option" where
  "wrap_opt what e = map_option (\<lambda>x. Errorf [Lit what, Wrap x]) e"

section \<open>Commands\<close>

definition DefaultFilePath :: string where
  "DefaultFilePath = ''/etc/rfc-api/config.yaml''"

text \<open>How a command ends: it returns, or the process dies of a panic, with what it is about.\<close>

datatype process_end = Exits "goerr option" | Dies string

text \<open>The version and commit set at build time.\<close>

definition version :: string where "version = ''dev''"
definition commit :: string where "commit = ''unknown''"

text \<open>What a serving process meets: the libraries, the stores of its handlers, the answers of the database
  (in a state \<open>'p\<close>) and of the search server (in a state \<open>'i\<close>) to a ping, the ends of its servers in
  order of time (\<open>True\<close> for the main one), and the error of the signal context when they have ended.\<close>

record ('x, 'r, 't, 'w, 'l, 'q, 'p, 'i) serve_env =
  se_otel :: "('x, 'r, 't, 'w) otel"
  se_global :: "'t otel_global"
  se_pgx :: pgx
  se_takes :: "registry \<Rightarrow> collector \<Rightarrow> bool"
  se_http :: "('l, 'q) http_env"
  se_docs :: docs_ops
  se_search :: "string \<times> string \<Rightarrow> search_client"
  se_request :: req_env
  se_admin :: "('p \<times> 'i) admin_env"
  se_ping :: "'p \<Rightarrow> goerr option"
  se_meili :: "'i meili"
  se_ends :: "Config \<Rightarrow> (bool \<times> server_end) list"
  se_ctx :: "goerr option"

text \<open>The wiring of the main server.\<close>

definition serve_deps :: "('x, 'r, 't, 'w, 'l, 'q, 'p, 'i) serve_env \<Rightarrow> Config \<Rightarrow> Registry \<Rightarrow> string \<times> string \<Rightarrow> Metrics \<Rightarrow> server_deps" where
  "serve_deps D cfg reg client metrics =
     \<lparr>sd_Config = c_Server cfg, sd_RateLimit = c_RateLimit cfg, sd_Registry = Some reg,
      sd_Handlers = \<lparr>hd_Docs = se_docs D, hd_Registry = reg, hd_Search = se_search D client,
        hd_Webhook = \<lparr>wb_sources = ck_SourceRepos (c_Worker cfg), wb_queue = True\<rparr>\<rparr>,
      sd_WebhookSecret = cw_Secret (c_Webhook cfg), sd_Metrics = Some metrics\<rparr>"

text \<open>The probes of its admin port.\<close>

definition serve_probes :: "('x, 'r, 't, 'w, 'l, 'q, 'p, 'i) serve_env \<Rightarrow> ('p \<times> 'i) probe list" where
  "serve_probes D =
     [(fst AlwaysReady, \<lambda>s. snd AlwaysReady),
      (''postgres'', \<lambda>s. pg_Probe_Check (se_ping D (fst s))),
      (''meilisearch'', \<lambda>s. Probe_Check (se_meili D) (snd s))]"

definition serve_result :: "goerr option \<Rightarrow> goerr option \<Rightarrow> goerr option" where
  "serve_result waitErr ctxErr =
     (case waitErr of
        Some e \<Rightarrow>
          if error_is e ContextCanceled then ctxErr
          else if error_is e ContextDeadlineExceeded then Some (Errorf [Wrap (Sentinel ErrShutdownTimedOut), Lit '': '', Wrap e])
          else Some e
      | None \<Rightarrow> ctxErr)"

definition serve_goroutine :: "bool \<times> server_end \<Rightarrow> goerr option" where
  "serve_goroutine p =
     (if fst p then wrap_opt ''main server: '' (server_Start ''main'' (snd p))
      else wrap_opt ''admin server: '' (server_Start ''admin'' (snd p)))"

definition runServe :: "unicode \<Rightarrow> process \<Rightarrow> ('x, 'r, 't, 'w, 'l, 'q, 'p, 'i) serve_env \<Rightarrow> string list \<Rightarrow> process_end" where
  "runServe U P D args =
     (case Load U P args DefaultFilePath of
        Inl e \<Rightarrow> Exits (Some (Errorf [Lit ''load config: '', Wrap e]))
      | Inr cfg \<Rightarrow>
       (case snd (NewTracerProvider (se_otel D) (c_OTel cfg) version commit (se_global D)) of
          Inl e \<Rightarrow> Exits (Some (Errorf [Lit ''build tracer provider: '', Wrap e]))
        | Inr tp \<Rightarrow>
         (case NewPool (se_pgx D) (cd_URL (c_Database cfg)) of
            Inl e \<Rightarrow> Exits (Some (Errorf [Lit ''open postgres pool: '', Wrap e]))
          | Inr pool \<Rightarrow>
           (case NewRegistry U (c_DocumentTypes cfg) of
              Inl e \<Rightarrow> Exits (Some (Errorf [Lit ''build document-type registry: '', Wrap e]))
            | Inr reg \<Rightarrow>
             (case NewReadClient (c_Meili cfg) of
                Inl e \<Rightarrow> Exits (Some (Errorf [Lit ''build meilisearch read client: '', Wrap e]))
              | Inr client \<Rightarrow>
               (case NewMetrics (se_takes D) of
                  None \<Rightarrow> Dies ''register collectors''
                | Some metrics \<Rightarrow>
                 (case NewAdmin (se_admin D) (se_request D) (c_Admin cfg) (serve_probes D) metrics of
                    None \<Rightarrow> Dies ''register admin routes''
                  | Some admin \<Rightarrow>
                   (case server_New (se_http D) (se_request D) (serve_deps D cfg reg client metrics) of
                      None \<Rightarrow> Dies ''register routes''
                    | Some main \<Rightarrow> Exits (serve_result (eg_Wait (map serve_goroutine (se_ends D cfg))) (se_ctx D))))))))))"

text \<open>
  The goroutines of \<^verbatim>\<open>Worker.Run\<close>, each with what it meets, and what it returns, \<open>None\<close> while it is running.
  \<^verbatim>\<open>Run\<close> waits for all of them, here in the order in which they end; a worker without sources has the admin
  server only.
\<close>

datatype ('d, 'q) worker_goroutine =
    AdminLoop server_end
  | ScannerLoop time "('d, 'q) scan_ops" "('d, 'q) sevent list" "'d \<times> 'q"
  | ProcessorLoop "string result" int string "levent list" jobs

fun goroutine_end :: "unicode \<Rightarrow> 'a Worker \<Rightarrow> ('d, 'q) worker_goroutine \<Rightarrow> goerr option option" where
  "goroutine_end U w (AdminLoop ev) = Some (wrap_opt ''worker admin server: '' (server_Start ''admin'' ev))"
| "goroutine_end U w (ScannerLoop now S es st) =
     (case runScanner w of Inl e \<Rightarrow> Some (Some e) | Inr s \<Rightarrow> snd (scanner_Run U s now S es st))"
| "goroutine_end U w (ProcessorLoop host pid uuid es js) =
     (case runProcessor host pid uuid w of Inl e \<Rightarrow> Some (Some e) | Inr l \<Rightarrow> map_option snd (leaser_Run l es (idle js)))"

fun is_admin :: "('d, 'q) worker_goroutine \<Rightarrow> bool" where
  "is_admin (AdminLoop ev) = True"
| "is_admin g = False"

definition Worker_Run :: "unicode \<Rightarrow> ('d, 'q) worker_goroutine list \<Rightarrow> goerr option \<Rightarrow> 'a Worker \<Rightarrow> goerr option option" where
  "Worker_Run U gs ctxErr w =
     (let ends = map (goroutine_end U w) (if wk_disabled w then filter is_admin gs else gs)
      in if None \<in> set ends then None else Some (Run_result (eg_Wait (map the ends)) ctxErr))"

text \<open>The \<^verbatim>\<open>work\<close> command; the ends of the goroutines of \<^verbatim>\<open>Worker.Run\<close> are an argument.\<close>

record ('x, 'r, 't, 'w, 'a, 'i) work_env =
  we_otel :: "('x, 'r, 't, 'w) otel"
  we_global :: "'t otel_global"
  we_pgx :: pgx
  we_takes :: "registry \<Rightarrow> collector \<Rightarrow> bool"
  we_meili :: "'i meili"
  we_github :: "'a github_new"
  we_parsers :: ParserRegistry
  we_ends :: "'a Worker \<Rightarrow> goerr option list"
  we_ctx :: "goerr option"

definition work_result :: "goerr option \<Rightarrow> goerr option \<Rightarrow> goerr option" where
  "work_result waitErr ctxErr =
     (case Run_result waitErr ctxErr of
        Some e \<Rightarrow> if error_is e ContextCanceled then ctxErr else Some (Errorf [Lit ''worker: '', Wrap e])
      | None \<Rightarrow> ctxErr)"

definition runWork :: "unicode \<Rightarrow> process \<Rightarrow> ('x, 'r, 't, 'w, 'a, 'i) work_env \<Rightarrow> string list \<Rightarrow> 'i \<Rightarrow> 'i \<times> process_end" where
  "runWork U P D args ix =
     (case parse_flags [] args () of
        Inl e \<Rightarrow> (ix, Exits (Some (Errorf [Lit ''parse work flags: '', Wrap e])))
      | Inr (_, rest) \<Rightarrow>
       (case Load U P rest DefaultFilePath of
          Inl e \<Rightarrow> (ix, Exits (Some (Errorf [Lit ''load config: '', Wrap e])))
        | Inr cfg \<Rightarrow>
         (case snd (NewTracerProvider (we_otel D) (c_OTel cfg) version commit (we_global D)) of
            Inl e \<Rightarrow> (ix, Exits (Some (Errorf [Lit ''build tracer provider: '', Wrap e])))
          | Inr tp \<Rightarrow>
           (case NewPool (we_pgx D) (cd_URL (c_Database cfg)) of
              Inl e \<Rightarrow> (ix, Exits (Some (Errorf [Lit ''open postgres pool: '', Wrap e])))
            | Inr pool \<Rightarrow>
             (case NewRegistry U (c_DocumentTypes cfg) of
                Inl e \<Rightarrow> (ix, Exits (Some (Errorf [Lit ''build document-type registry: '', Wrap e])))
              | Inr reg \<Rightarrow>
               (case NewWriteClient (c_Meili cfg) of
                  Inl e \<Rightarrow> (ix, Exits (Some (Errorf [Lit ''build meilisearch write client: '', Wrap e])))
                | Inr client \<Rightarrow>
                   let ix' = fst (ApplySettings (we_meili D) ix) in
                   (case NewMetrics (we_takes D) of
                      None \<Rightarrow> (ix', Dies ''register collectors'')
                    | Some metrics \<Rightarrow>
                     (case NewWorker (we_github D) (Some \<lparr>wd_Config = c_Worker cfg, wd_Registry = Some reg, wd_Pool = True,
                             wd_Store = True, wd_Parsers = Some (we_parsers D), wd_Indexer = True, wd_Metrics = metrics\<rparr>) of
                        Inl e \<Rightarrow> (ix', Exits (Some (Errorf [Lit ''build worker: '', Wrap e])))
                      | Inr w \<Rightarrow> (ix', Exits (work_result (eg_Wait (we_ends D w)) (we_ctx D)))))))))))"

text \<open>Golang-migrate: opening the embedded sources and the database, and applying the migrations.\<close>

datatype migrate_up = Applied | ErrNoChange | MigrateFailed goerr

record migrate_lib =
  mg_source :: "goerr option"
  mg_database :: "string \<Rightarrow> goerr option"
  mg_up :: "string \<Rightarrow> migrate_up"

definition NewMigrator :: "migrate_lib \<Rightarrow> string \<Rightarrow> goerr option" where
  "NewMigrator M databaseURL =
     (case mg_source M of
        Some e \<Rightarrow> Some (Errorf [Lit ''open embedded migrations: '', Wrap e])
      | None \<Rightarrow> (case mg_database M databaseURL of
                   Some e \<Rightarrow> Some (Errorf [Lit ''open database: '', Wrap e]) | None \<Rightarrow> None))"

definition runMigrate :: "unicode \<Rightarrow> process \<Rightarrow> migrate_lib \<Rightarrow> string list \<Rightarrow> goerr option" where
  "runMigrate U P M args =
     (case parse_flags [] args () of
        Inl e \<Rightarrow> Some (Errorf [Lit ''parse flags: '', Wrap e])
      | Inr (_, rest) \<Rightarrow>
       (case Load U P rest DefaultFilePath of
          Inl e \<Rightarrow> Some (Errorf [Lit ''load config: '', Wrap e])
        | Inr cfg \<Rightarrow>
         (case NewMigrator M (cd_URL (c_Database cfg)) of
            Some e \<Rightarrow> Some (Errorf [Lit ''construct migrator: '', Wrap e])
          | None \<Rightarrow>
             (case mg_up M (cd_URL (c_Database cfg)) of
                Applied \<Rightarrow> None
              | ErrNoChange \<Rightarrow> None
              | MigrateFailed e \<Rightarrow> Some (Errorf [Lit ''migrate up: '', Wrap e])))))"

text \<open>The part of a database URL after the first \<^verbatim>\<open>@\<close> that has two characters after it, up to a slash or
  a question mark.\<close>

fun maskedHost :: "string \<Rightarrow> string" where
  "maskedHost [] = []"
| "maskedHost (c # cs) =
     (if length cs < 2 then []
      else if c = CHR ''@'' then takeWhile (\<lambda>x. x \<noteq> CHR ''/'' \<and> x \<noteq> CHR ''?'') cs
      else maskedHost cs)"

section \<open>Reindex\<close>

record reindex_options =
  ro_dryRun :: bool
  ro_checkDrift :: bool

definition reindex_flags :: "reindex_options FlagSet" where
  "reindex_flags = [(''dry-run'', BoolVar (\<lambda>b c. c\<lparr>ro_dryRun := b\<rparr>)), (''check-drift'', BoolVar (\<lambda>b c. c\<lparr>ro_checkDrift := b\<rparr>))]"

text \<open>The loop over the documents, with the numbers of enqueued and skipped ones.\<close>

fun reindex_loop :: "'q enqueue_fn \<Rightarrow> DocumentID list \<Rightarrow> 'q \<Rightarrow> nat \<Rightarrow> nat \<Rightarrow> 'q \<times> nat \<times> nat" where
  "reindex_loop enq [] q enqueued skipped = (q, enqueued, skipped)"
| "reindex_loop enq (i # is) q enqueued skipped =
     (case enq ''reindex'' (''doc:'' @ i) (reindex_payload i) 0 q of
        (q', Some e) \<Rightarrow> reindex_loop enq is q' enqueued (Suc skipped)
      | (q', None) \<Rightarrow> reindex_loop enq is q' (Suc enqueued) skipped)"

text \<open>The report: its rows, and the error that makes the command fail.\<close>

definition printDriftReport :: "unicode \<Rightarrow> (string \<Rightarrow> (int \<times> int) result) \<Rightarrow> PgEnv \<Rightarrow> Config \<Rightarrow> DB \<Rightarrow> DriftReport list \<times> goerr option" where
  "printDriftReport U srch env cfg db =
     (case CountByType env db of
        Inl e \<Rightarrow> ([], Some (Errorf [Lit ''postgres count: '', Wrap e]))
      | Inr pgCounts \<Rightarrow>
       (case NewRegistry U (c_DocumentTypes cfg) of
          Inl e \<Rightarrow> ([], Some (Errorf [Lit ''build registry: '', Wrap e]))
        | Inr reg \<Rightarrow>
         (case NewReadClient (c_Meili cfg) of
            Inl e \<Rightarrow> ([], Some (Errorf [Lit ''build meilisearch client: '', Wrap e]))
          | Inr client \<Rightarrow>
           (case DistinctParentsByType U srch (map dt_id (RegList reg)) [] of
              Inl e \<Rightarrow> ([], Some (Errorf [Lit ''meilisearch count: '', Wrap e]))
            | Inr meiliCounts \<Rightarrow>
                let report = CompareDrift pgCounts meiliCounts;
                    maxAbs = fold (\<lambda>r m. if \<bar>dr_Delta r\<bar> > m then \<bar>dr_Delta r\<bar> else m) report 0
                in (report, if maxAbs > 0
                      then Some (Errorf [Lit ''drift detected (max abs delta '', Dec maxAbs, Lit '') -- run `make reindex`''])
                      else None)))))"

text \<open>The command: the printed ids, the queue, and the error.\<close>

definition runReindex :: "unicode \<Rightarrow> process \<Rightarrow> pgx \<Rightarrow> (string \<Rightarrow> (int \<times> int) result) \<Rightarrow> PgEnv \<Rightarrow> 'q enqueue_fn \<Rightarrow> DB \<Rightarrow> string list \<Rightarrow> 'q
    \<Rightarrow> DocumentID list \<times> 'q \<times> goerr option" where
  "runReindex U P L srch env enq db args q =
     (case parse_flags reindex_flags args \<lparr>ro_dryRun = False, ro_checkDrift = False\<rparr> of
        Inl e \<Rightarrow> ([], q, Some (Errorf [Lit ''parse reindex flags: '', Wrap e]))
      | Inr (opts, rest) \<Rightarrow>
       (case Load U P rest DefaultFilePath of
          Inl e \<Rightarrow> ([], q, Some (Errorf [Lit ''load config: '', Wrap e]))
        | Inr cfg \<Rightarrow>
         (case NewPool L (cd_URL (c_Database cfg)) of
            Inl e \<Rightarrow> ([], q, Some (Errorf [Lit ''open postgres pool: '', Wrap e]))
          | Inr pool \<Rightarrow>
             if ro_checkDrift opts then ([], q, snd (printDriftReport U srch env cfg db))
             else (case AllIDs env db of
                Inl e \<Rightarrow> ([], q, Some (Errorf [Lit ''enumerate documents: '', Wrap e]))
              | Inr ids \<Rightarrow>
                  if ro_dryRun opts then (ids, q, None)
                  else ([], fst (reindex_loop enq ids q 0 0), None)))))"

section \<open>Dispatch and exit codes\<close>

definition exitCodeFor :: "goerr option \<Rightarrow> int" where
  "exitCodeFor err =
     (case err of
        None \<Rightarrow> 0
      | Some e \<Rightarrow> if error_is e ContextCanceled then 0 else if error_is e ErrShutdownTimedOut then 2 else 1)"

text \<open>The status of a process; that of one that dies of a panic is the Go runtime's.\<close>

fun exit_status :: "process_end \<Rightarrow> int" where
  "exit_status (Exits err) = exitCodeFor err"
| "exit_status (Dies what) = 2"

text \<open>The subcommands, each as a function of its arguments.\<close>

record commands =
  cmd_serve :: "string list \<Rightarrow> process_end"
  cmd_work :: "string list \<Rightarrow> process_end"
  cmd_migrate :: "string list \<Rightarrow> goerr option"
  cmd_reindex :: "string list \<Rightarrow> goerr option"

definition cli_run :: "commands \<Rightarrow> string list \<Rightarrow> int" where
  "cli_run C args =
     (case args of
        [] \<Rightarrow> 0
      | cmd # rest \<Rightarrow>
          if cmd \<in> {''help'', ''-h'', ''--help''} then 0
          else if cmd \<in> {''version'', ''-v'', ''--version''} then 0
          else if cmd = ''serve'' then exit_status (cmd_serve C rest)
          else if cmd = ''work'' then exit_status (cmd_work C rest)
          else if cmd = ''migrate'' then exitCodeFor (cmd_migrate C rest)
          else if cmd = ''reindex'' then exitCodeFor (cmd_reindex C rest)
          else 1)"

section \<open>Reindexing everything\<close>

context enqueuer
begin

lemma reindex_loop_only:
  "has (fst (reindex_loop enq is q m n)) k d \<Longrightarrow> has q k d \<or> (k = ''reindex'' \<and> d \<in> (@) ''doc:'' ` set is)"
proof (induction "is" arbitrary: q m n)
  case (Cons i "is")
  obtain q' e where e: "enq ''reindex'' (''doc:'' @ i) (reindex_payload i) 0 q = (q', e)" by (rule prod.exhaust)
  then show ?case using Cons enq_only [OF e, of k d] by (cases e) (auto simp: e)
qed simp

lemma reindex_loop_keeps: "has q k d \<Longrightarrow> has (fst (reindex_loop enq is q m n)) k d"
proof (induction "is" arbitrary: q m n)
  case (Cons i "is")
  obtain q' e where e: "enq ''reindex'' (''doc:'' @ i) (reindex_payload i) 0 q = (q', e)" by (rule prod.exhaust)
  then show ?case using Cons enq_keeps [OF e Cons.prems] by (cases e) (auto simp: e)
qed simp

lemma reindex_loop_has:
  assumes "\<And>i q. snd (enq ''reindex'' (''doc:'' @ i) (reindex_payload i) 0 q) = None" and "i \<in> set is"
  shows "has (fst (reindex_loop enq is q m n)) ''reindex'' (''doc:'' @ i)"
  using assms(2)
proof (induction "is" arbitrary: q m n)
  case (Cons j "is")
  obtain q' where e: "enq ''reindex'' (''doc:'' @ j) (reindex_payload j) 0 q = (q', None)"
    using assms(1) [of j q] by (metis prod.collapse)
  have r: "reindex_loop enq (j # is) q m n = reindex_loop enq is q' (Suc m) n" using e by simp
  show ?case
    unfolding r using Cons reindex_loop_keeps [OF enq_has [OF e]] by auto
qed simp

end

lemma AllIDs_set: "AllIDs env db = Inr ids \<Longrightarrow> set ids = dr_id ` set (t_documents db)"
  by (auto simp: AllIDs_def dest!: pg_rows_Inr)


lemma quiet_AllIDs: "\<exists>ids. AllIDs (quiet_env coll now) db = Inr ids"
  by (simp add: AllIDs_def quiet_rows)

definition open_pgx :: pgx where
  "open_pgx = \<lparr>px_parse = (\<lambda>u. None), px_new = (\<lambda>u c. None), px_ping = None\<rparr>"

lemma open_pool: "NewPool open_pgx u = Inr default_pool"
  by (simp add: NewPool_def open_pgx_def)

lemma quiet_load: "\<exists>cfg. Load ascii_only sample_process [] DefaultFilePath = Inr cfg"
proof -
  have "Validate (loadEnv ascii_only sample_process defaults) = None"
    by (simp add: Validate_None loadEnv_def env_meili_def setString_def sample_process_def)
  then show ?thesis by (simp add: Load_def loadFlags_def loadFile_def DefaultFilePath_def sample_process_def)
qed


text \<open>An enqueue that fails, for whatever reason, is counted as skipped: with an unreachable database the
  command still succeeds, having queued nothing.\<close>

lemma reindex_failure_silent:
  assumes "\<And>n. \<exists>e. ee_db E n = Refused e"
  shows "fst (fst (reindex_loop (jobs_enq E) ids (js, n) a b)) = js
    \<and> snd (reindex_loop (jobs_enq E) ids (js, n) a b) = (a, b + length ids)"
proof (induction ids arbitrary: n b)
  case (Cons i ids)
  obtain e where "ee_db E n = Refused e" using assms by blast
  then show ?case using Cons [of "Suc n" "Suc b"] by (simp add: jobs_enq_def Enqueue_def Let_def)
qed simp

section \<open>Drift\<close>

lemma max_fold_le: "(m::int) \<le> fold (\<lambda>r m. if f r > m then f r else m) rs m"
proof (induction rs arbitrary: m)
  case (Cons r rs)
  have "f r \<le> fold (\<lambda>r m. if f r > m then f r else m) rs (f r)" by (rule Cons)
  then show ?case using Cons [of m] by auto
qed simp

lemma max_fold_pos:
  "0 < fold (\<lambda>r m. if f r > m then f r else m) rs (0::int) \<longleftrightarrow> (\<exists>r \<in> set rs. 0 < f r)"
proof (induction rs)
  case (Cons r rs)
  show ?case
  proof (cases "0 < f r")
    case True
    then show ?thesis using max_fold_le [of "f r" f rs] by auto
  qed (use Cons in auto)
qed simp

text \<open>The drift check passes exactly when both stores count the same number of documents for every type
  either of them reports.\<close>

lemma drift_clean_iff:
  assumes "CountByType env db = Inr pg" and "NewRegistry U (c_DocumentTypes cfg) = Inr reg" and "NewReadClient (c_Meili cfg) = Inr cl"
    and "DistinctParentsByType U srch (map dt_id (RegList reg)) [] = Inr idx"
  shows "snd (printDriftReport U srch env cfg db) = None \<longleftrightarrow> (\<forall>t \<in> fst ` set pg \<union> fst ` set idx. count_of pg t = count_of idx t)"
  using assms
  by (auto simp: printDriftReport_def Let_def max_fold_pos [of "\<lambda>r. \<bar>dr_Delta r\<bar>"] CompareDrift_def)

section \<open>Flags of the subcommands\<close>

lemma exit_anonymous: "exitCodeFor (Some (Errorf [Lit a, Wrap (New b)])) = 1"
  by (simp add: exitCodeFor_def)

lemma unknown_flag:
  "flag_arg s = FlagArg n v \<Longrightarrow> map_of fs n = None \<Longrightarrow> \<exists>t. parse_flags fs (s # args) c = Inl (New t)"
  by simp

text \<open>The configuration flags are flags of \<^verbatim>\<open>serve\<close> only: \<^verbatim>\<open>work\<close>, \<^verbatim>\<open>migrate\<close> and \<^verbatim>\<open>reindex\<close> parse
  their arguments with flag sets of their own first, so any of the flags \<^verbatim>\<open>Load\<close> knows, given to one of
  them, ends the command with exit code 1 before the configuration is read.\<close>

theorem config_flags_rejected:
  assumes "n \<in> fst ` set config_flags" and "flag_arg s = FlagArg n v"
  shows "exit_status (snd (runWork U P D (s # args) ix)) = 1 \<and> fst (runWork U P D (s # args) ix) = ix
    \<and> exitCodeFor (runMigrate U P M (s # args)) = 1
    \<and> (\<exists>e. runReindex U P L srch env enq db (s # args) q = ([], q, Some e) \<and> exitCodeFor (Some e) = 1)"
proof -
  have m: "map_of reindex_flags n = None" using assms(1) by (auto simp: reindex_flags_def config_flags_def)
  obtain t where t: "parse_flags [] (s # args) () = Inl (New t)"
    using unknown_flag [OF assms(2), where fs = "[]" and c = "()"] by (metis map_of.simps(1))
  obtain u where u: "parse_flags reindex_flags (s # args) \<lparr>ro_dryRun = False, ro_checkDrift = False\<rparr> = Inl (New u)"
    using unknown_flag [OF assms(2) m] by blast
  show ?thesis
    unfolding runWork_def runMigrate_def runReindex_def t u by (simp add: exit_anonymous)
qed

definition no_migrations :: migrate_lib where
  "no_migrations = \<lparr>mg_source = None, mg_database = (\<lambda>u. None), mg_up = (\<lambda>u. ErrNoChange)\<rparr>"

theorem config_flags_rejected_witness:
  "exitCodeFor (runMigrate ascii_only sample_process no_migrations [''--log-level'', ''debug'']) = 1
   \<and> exitCodeFor (runMigrate ascii_only sample_process no_migrations []) = 0"
proof -
  have f: "flag_arg ''--log-level'' = FlagArg ''log-level'' None" by code_simp
  have n: "''log-level'' \<in> fst ` set config_flags" by (simp add: config_flags_def)
  obtain cfg where cfg: "Load ascii_only sample_process [] DefaultFilePath = Inr cfg" using quiet_load by blast
  have "exitCodeFor (runMigrate ascii_only sample_process no_migrations []) = 0"
    using cfg by (simp add: runMigrate_def no_migrations_def NewMigrator_def exitCodeFor_def)
  with config_flags_rejected [OF n f, THEN conjunct2, THEN conjunct2, THEN conjunct1] show ?thesis by (rule conjI)
qed

section \<open>The admin ports\<close>

lemma NewAdmin_built: "\<exists>srv. NewAdmin A R cfg probes m = Some srv"
  by (simp add: NewAdmin_def admin_register)

lemma probes_None [simp]:
  "pg_Probe_Check ping = None \<longleftrightarrow> ping = None" "Probe_Check M ix = None \<longleftrightarrow> me_health M ix = None"
  by (auto simp: pg_Probe_Check_def Probe_Check_def Ping_def split: option.splits)

text \<open>The readiness of \<^verbatim>\<open>serve\<close>: 200 exactly while the database and the search server answer, and otherwise the
  names of those that do not; the search server counts although only the search endpoint needs it.\<close>

lemma serve_ready:
  assumes "NewAdmin (se_admin D) R cfg (serve_probes D) m = Some srv" and "r_RawPath (wh_req r) = []"
    and "r_RequestURI (wh_req r) \<noteq> ''*''" and "r_Method (wh_req r) = ''GET''" and "r_Path (wh_req r) = ''/readyz''"
  shows "rs_status (fst (srv r (ol, (p, ix)))) = (if se_ping D p = None \<and> me_health (se_meili D) ix = None then 200 else 503)"
    and "failing_probes (fst (srv r (ol, (p, ix)))) =
      (if se_ping D p = None then [] else [''postgres'']) @ (if me_health (se_meili D) ix = None then [] else [''meilisearch''])"
  using admin_health(2) [OF assms(1-4) assms(5), where s = "(p, ix)" and ol = ol] by (simp_all add: serve_probes_def AlwaysReady_def del: not_None_eq)

text \<open>The admin server of the worker, over the answer of the database, the time and the watermark of the
  scanner at each request: its probes are those of \<open>buildAdmin\<close>.\<close>

definition worker_admin :: "(goerr option \<times> time \<times> readyState) admin_env \<Rightarrow> req_env \<Rightarrow> (duration \<Rightarrow> string) \<Rightarrow> (duration \<Rightarrow> duration) \<Rightarrow> 'a Worker
    \<Rightarrow> (obs_log \<times> goerr option \<times> time \<times> readyState) handler option" where
  "worker_admin A R ds ro w =
     NewAdmin A R \<lparr>ca_Listen = ck_AdminListen (wk_cfg w), ca_ReadTimeout = 5 * second, ca_PprofEnabled = False\<rparr>
       [(fst AlwaysReady, \<lambda>s. snd AlwaysReady),
        (''postgres'', \<lambda>(ping, now, ready). poolProbe_Check ping),
        (''scanner'', \<lambda>(ping, now, ready). scanProbe_Check ds ro now
           \<lparr>sp_ready = ready, sp_interval = ck_ScannerInterval (wk_cfg w), sp_disabled = wk_disabled w\<rparr>)]
       (wk_metrics w)"

lemma worker_admin_ready:
  assumes "worker_admin A R ds ro w = Some srv" and "r_RawPath (wh_req r) = []"
    and "r_RequestURI (wh_req r) \<noteq> ''*''" and "r_Method (wh_req r) = ''GET''" and "r_Path (wh_req r) = ''/readyz''"
  shows "rs_status (fst (srv r (ol, (ping, now, wk_ready w)))) = rs_status (HealthReady U (buildAdmin ds ro ping now w))"
    and "failing_probes (fst (srv r (ol, (ping, now, wk_ready w)))) = failing_probes (HealthReady U (buildAdmin ds ro ping now w))"
  using admin_health(2) [OF assms(1) [unfolded worker_admin_def] assms(2-5), where s = "(ping, now, wk_ready w)" and ol = ol]
  by (simp_all add: ready_report buildAdmin_def AlwaysReady_def)

section \<open>The end of a worker\<close>

lemma leaser_Run_result: "map_option snd (leaser_Run l es st) \<in> {None, Some None}"
  by (induction l es st rule: leaser_Run.induct) (auto simp: map_option_case split: option.split)

lemma quiet_loops:
  assumes "wk_store w" and "wk_parsers w \<noteq> None" and "\<not> is_admin g"
  shows "goroutine_end U w g \<in> {None, Some None}"
proof (cases g)
  case (ProcessorLoop host pid uuid es js)
  obtain l where "runProcessor host pid uuid w = Inr l" using runProcessor_Inr [OF assms(1,2)] by blast
  then show ?thesis using leaser_Run_result [of l es "idle js"] by (simp add: ProcessorLoop)
qed (use assms in \<open>auto simp: runScanner_def NewScanner_def scanner_Run_def scanner_loop_result\<close>)

lemma eg_Wait_filter:
  assumes "\<forall>g \<in> set gs. \<not> P g \<longrightarrow> f g \<in> {None, Some None}" and "None \<notin> f ` set gs"
  shows "eg_Wait (map (the \<circ> f) gs) = eg_Wait (map (the \<circ> f) (filter P gs))"
  using assms by (induction gs) (auto split: option.split)

text \<open>Only the admin server ends a worker with an error: failing scans, failing polls and failing or panicking
  jobs do not. A built worker whose goroutines have all ended returns what its admin server alone gives.\<close>

lemma worker_fails_by_admin:
  assumes "NewWorker new (Some deps) = Inr w" and "wd_Store deps" and "wd_Parsers deps \<noteq> None"
    and "Worker_Run U gs ctxErr w = Some r"
  shows "r = Run_result (eg_Wait (map (the \<circ> goroutine_end U w) (filter is_admin gs))) ctxErr"
proof -
  have w: "wk_store w" "wk_parsers w \<noteq> None" using NewWorker_fields [OF assms(1)] assms(2,3) by auto
  show ?thesis
  proof (cases "wk_disabled w")
    case True
    then show ?thesis using assms(4) by (simp add: Worker_Run_def Let_def split: if_splits)
  next
    case False
    then have ended: "None \<notin> goroutine_end U w ` set gs" and r: "r = Run_result (eg_Wait (map (the \<circ> goroutine_end U w) gs)) ctxErr"
      using assms(4) by (simp_all add: Worker_Run_def Let_def split: if_splits)
    have "\<forall>g \<in> set gs. \<not> is_admin g \<longrightarrow> goroutine_end U w g \<in> {None, Some None}" using quiet_loops [OF w] by blast
    then show ?thesis unfolding r using eg_Wait_filter [OF _ ended] by metis
  qed
qed

section \<open>Starting the server\<close>

lemma server_builds_iff:
  assumes "NewRegistry U types = Inr reg" and "plain_types reg" and "he_wname E ''id''" and "sd_Registry deps = Some reg"
  shows "server_New E R deps \<noteq> None \<longleftrightarrow> set (type_ids reg) \<inter> reserved = {}"
proof -
  have "server_New E R deps \<noteq> None \<longleftrightarrow>
      BuildMainHandler E (sd_Handlers deps) reg (V1ChainFromConfig (sd_Config deps) (sd_RateLimit deps)) (sd_WebhookSecret deps) \<noteq> None"
    by (simp add: server_New_def assms(4))
  then show ?thesis using main_builds_iff [OF assms(1-3)] by (rule trans)
qed


definition quiet_otel :: "(unit, unit, unit, unit) otel" where
  "quiet_otel = \<lparr>ot_exporter = (\<lambda>e. Inr ()), ot_resource = (\<lambda>n v. Inr ()), ot_provider = (\<lambda>x r f d. ()), ot_noop = (),
     ot_sdk_shutdown = (\<lambda>t w. (w, None)), ot_exp_shutdown = (\<lambda>x w. (w, None))\<rparr>"

lemma quiet_tracer: "\<exists>tp. snd (NewTracerProvider quiet_otel cfg v c g) = Inr tp"
  by (simp add: NewTracerProvider_def quiet_otel_def Let_def)

definition quiet_admin :: "'s admin_env" where
  "quiet_admin = \<lparr>ae_unicode = ascii_only, ae_wname = (\<lambda>s. True), ae_redirect = (\<lambda>p l. HealthLive), ae_prom = (\<lambda>reg r s. (HealthLive, s)),
     ae_pprof = (\<lambda>name r s. (HealthLive, s))\<rparr>"

definition quiet_serve :: "(unit, unit, unit, unit, unit, jobs \<times> nat, unit, string \<rightharpoonup> (string \<times> json) list) serve_env" where
  "quiet_serve = \<lparr>se_otel = quiet_otel, se_global = \<lparr>og_provider = None, og_propagators = []\<rparr>, se_pgx = open_pgx, se_takes = by_name,
     se_http = sample_env, se_docs = mem_ops sample_store, se_search = (\<lambda>c. NoopClient), se_request = sample_req_env,
     se_admin = quiet_admin, se_ping = (\<lambda>p. None), se_meili = map_server ascii_only,
     se_ends = (\<lambda>cfg. [(True, ContextDone None), (False, ContextDone None)]), se_ctx = None\<rparr>"

text \<open>A process whose configuration file names the document types.\<close>

definition typed_process :: "ConfigDocumentType list \<Rightarrow> process" where
  "typed_process ts = sample_process\<lparr>pr_file := (\<lambda>p. Some (Inr [])), pr_yaml := (\<lambda>s c. Inr (c\<lparr>c_DocumentTypes := ts\<rparr>))\<rparr>"

lemma typed_load:
  "Load ascii_only (typed_process ts) [] DefaultFilePath = Inr (loadEnv ascii_only (typed_process ts) (defaults\<lparr>c_DocumentTypes := ts\<rparr>))"
proof -
  have "Validate (loadEnv ascii_only (typed_process ts) (defaults\<lparr>c_DocumentTypes := ts\<rparr>)) = None"
    by (simp add: Validate_None loadEnv_def env_meili_def setString_def typed_process_def sample_process_def)
  then show ?thesis by (simp add: Load_def loadFlags_def loadFile_def DefaultFilePath_def typed_process_def)
qed

lemma typed_fields:
  "c_DocumentTypes (loadEnv ascii_only (typed_process ts) (defaults\<lparr>c_DocumentTypes := ts\<rparr>)) = ts"
  "\<exists>cl. NewReadClient (c_Meili (loadEnv ascii_only (typed_process ts) (defaults\<lparr>c_DocumentTypes := ts\<rparr>))) = Inr cl"
  by (simp_all add: loadEnv_def env_meili_def setString_def typed_process_def sample_process_def NewReadClient_def newClient_def ReadKey_def defaults_def)


section \<open>Exit codes\<close>

text \<open>The exit codes tell how a process ended. Under a signal context that is live or cancelled,
  \<^verbatim>\<open>serve\<close> exits with 2 exactly when the first of its goroutines to fail reports an exceeded shutdown
  deadline, with 1 when it fails otherwise, with 0 when nothing fails or the failure is the cancellation
  itself; \<^verbatim>\<open>work\<close> gives 1 also for an exceeded deadline, so it never exits with 2 unless a goroutine
  itself reports that code's sentinel.\<close>

theorem exit_codes:
  assumes "ctxErr = None \<or> ctxErr = Some (Sentinel ContextCanceled)"
  shows "exitCodeFor (serve_result w ctxErr) =
      (case w of None \<Rightarrow> 0
       | Some e \<Rightarrow> if error_is e ContextCanceled then 0
                  else if error_is e ContextDeadlineExceeded \<or> error_is e ErrShutdownTimedOut then 2 else 1)
    \<and> exitCodeFor (work_result w ctxErr) =
      (case w of None \<Rightarrow> 0
       | Some e \<Rightarrow> if error_is e ContextCanceled then 0 else if error_is e ErrShutdownTimedOut then 2 else 1)"
  using assms by (auto simp: serve_result_def work_result_def Run_result_def exitCodeFor_def split: option.splits)

theorem exit_codes_witness:
  "exitCodeFor (serve_result (eg_Wait [serve_goroutine (False, ContextDone None),
       serve_goroutine (True, ContextDone (Some (Sentinel ContextDeadlineExceeded)))]) (Some (Sentinel ContextCanceled))) = 2
   \<and> exitCodeFor (work_result (wrap_opt ''worker admin server: ''
       (server_Start ''admin'' (ContextDone (Some (Sentinel ContextDeadlineExceeded))))) (Some (Sentinel ContextCanceled))) = 1"
  using exit_codes [of "Some (Sentinel ContextCanceled)" "eg_Wait [serve_goroutine (False, ContextDone None),
       serve_goroutine (True, ContextDone (Some (Sentinel ContextDeadlineExceeded)))]"]
    exit_codes [of "Some (Sentinel ContextCanceled)" "wrap_opt ''worker admin server: ''
       (server_Start ''admin'' (ContextDone (Some (Sentinel ContextDeadlineExceeded))))"]
  by (simp add: serve_goroutine_def wrap_opt_def server_Start_def)

text \<open>The drain budget ignores the configured shutdown timeout: the signal context has no deadline, so
  it is twenty seconds.\<close>

lemma drain_budget_fixed: "shutdown_budget now None = 20 * second"
  by (simp add: shutdown_budget_def)

end
