(* ===== verification/Spec2Isabelle.thy ===== *)
theory Spec2Isabelle
  imports MeiliQuery Cli
begin

text \<open>
  Verification of rfc-api, a Markdown portal backend in Go: the root theory. It imports the component
  theories, and holds the two properties that span the most of them: pagination over HTTP, and that the API
  process serves what the worker process ingested.

  \<^bold>\<open>The program.\<close> Documents (RFCs, ADRs, ...) live as Markdown files in GitHub repositories. The worker
  process (\<^verbatim>\<open>rfc-api work\<close>) scans the configured sources, compares the listed files with the stored
  documents and enqueues jobs; its leaser hands the jobs to handlers that fetch and parse a file, store the
  document in Postgres, refresh its review discussion, and write its sections to a Meilisearch index. The
  API process (\<^verbatim>\<open>rfc-api serve\<close>) answers read requests from the store and the index, and takes GitHub
  webhooks, which it turns into jobs. Both processes share the database, and the queue is a table of it.
  \<^verbatim>\<open>rfc-api reindex\<close> queues every document for indexing, \<^verbatim>\<open>rfc-api migrate\<close> applies the schema.

  \<^bold>\<open>Conventions.\<close> Prelude says how Go values are represented (byte strings, 64-bit integers with explicit
  wrap-around, times as nanoseconds, errors as trees that \<^verbatim>\<open>errors.Is\<close> searches) and has the string
  functions and generic lemmas. An operation that may fail returns \<open>goerr + 'a\<close>; a stateful one takes and
  returns its state. Code outside the repository is an argument: the Unicode tables, the texts of decoder
  errors, the database driver (\<open>PgEnv\<close>, \<open>enq_env\<close>), the GitHub API (\<open>gh_api\<close>, whose calls are numbered so
  that every call may answer differently), the Meilisearch server, the YAML and Markdown libraries, token
  buckets, OpenTelemetry and Prometheus, the environment of the process. Theorems hold for every value of these arguments unless a
  hypothesis says otherwise. Steps has finite runs of labelled step relations and the locale
  \<open>stable_under\<close> for invariants.

  \<^bold>\<open>Standard library.\<close> Keyset (sorting, binary search and pagination over any order), Json and JsonText
  (JSON values, their text, and a parser), Base64, GoTime (the calendar and RFC 3339), Url (queries, paths
  and their escaping), Sha256 (SHA-256, HMAC, hex), Flags (flag sets, durations), ServeMux (patterns,
  conflicts, matching and dispatch of \<^verbatim>\<open>net/http\<close>). The recursion of the JSON parser is on fuel, twice the
  length of the input plus two; every call consumes a character or descends once between two that do, so
  the fuel never runs out. All other recursion has a termination proof.

  \<^bold>\<open>Documents and listing.\<close>
  \<^item> Domain, Registry: \<^verbatim>\<open>internal/domain\<close>, \<^verbatim>\<open>docid\<close>, \<^verbatim>\<open>registry.go\<close>. The registry accepts exactly the valid
    configurations and its lookups agree (locale \<open>type_registry\<close>).
  \<^item> ListOpts, Store: \<^verbatim>\<open>internal/store/list\<close>, \<^verbatim>\<open>store/docs.go\<close>. The specification \<open>spec_page\<close> of a page and
    the locales \<open>id_order\<close> and \<open>docs_store\<close> that a backend has to satisfy.
  \<^item> MemStore: \<^verbatim>\<open>store/memory\<close>. Every operation, the representation invariant, refinement of \<open>spec_page\<close>.
  \<^item> Postgres, PostgresList, PostgresWrites: \<^verbatim>\<open>store/postgres/docs.go\<close>. The tables as lists of rows, each SQL
    statement an operation on them. The twenty-four list queries refine \<open>spec_page\<close>, so both stores answer
    alike; writes are atomic, keep the constraints of the schema, and are read back.
  \<^item> Service: \<^verbatim>\<open>internal/service\<close>, over any \<open>docs_store\<close> (locale \<open>docs_service\<close>). Following the cursors
    visits every row once, also while the store changes.

  \<^bold>\<open>HTTP.\<close>
  \<^item> CursorCodec: \<^verbatim>\<open>server/cursor\<close>, byte for byte. Decoding inverts encoding.
  \<^item> Http: \<^verbatim>\<open>httperr\<close>, \<^verbatim>\<open>render\<close>, \<^verbatim>\<open>routectx\<close>, \<^verbatim>\<open>reqctx\<close> and the read handlers of \<^verbatim>\<open>server/handler\<close>. A list
    request is answered from a fully validated query or with 400; below, that the Link header of a page
    leads to the next one.
  \<^item> Webhook: \<^verbatim>\<open>githubhmac.go\<close>, \<^verbatim>\<open>handler/webhook.go\<close>. Only signed deliveries reach the handler; what a push
    leaves in the queue.
  \<^item> Middleware: \<^verbatim>\<open>server/middleware\<close>, \<^verbatim>\<open>readiness.go\<close>. Rate limiting isolates clients, CORS denies by
    default, readiness reports the failing probes. A handler that may panic is a \<open>phandler\<close>; \<open>Recover\<close>
    turns it into one that does not.
  \<^item> Router: \<^verbatim>\<open>router.go\<close>. The nested multiplexers serve exactly the route table \<open>route_of\<close>; which type ids
    make the registration panic; a document is served under its URL.
  \<^item> Collectors: \<^verbatim>\<open>obs/metrics.go\<close>, \<^verbatim>\<open>worker/metrics.go\<close>. The collectors and their registration; what the
    program writes to them is the list of its calls, from which counters, gauges and histograms are read.
  \<^item> Server: \<^verbatim>\<open>server.go\<close>, \<^verbatim>\<open>admin.go\<close>, \<^verbatim>\<open>logger.go\<close>, \<^verbatim>\<open>metrics.go\<close>, \<^verbatim>\<open>otel.go\<close>. The whole servers. Every answered
    request is counted, timed and logged once under a bounded set of labels, and only a signed POST changes
    the queue; both follow from what each handler and each middleware keeps (locales \<open>request_invariant\<close>
    and \<open>limited_invariant\<close>). The admin port answers its probes.

  \<^bold>\<open>Worker.\<close>
  \<^item> Queue, Leaser: \<^verbatim>\<open>worker/queue\<close>. The jobs table as a transition system: invariant, exclusive leases,
    backoff, and the leaser among other workers; its metrics account for every job, and \<^verbatim>\<open>Run\<close>, over the
    list of the events it meets, returns once it is cancelled and its handlers have ended.
  \<^item> Enqueuer: the interface handlers write jobs to (locale \<open>enqueuer\<close>), interpreted on the queue.
  \<^item> Github: \<^verbatim>\<open>githubsource/client.go\<close>. The retry loop is bounded and recovers.
  \<^item> Parser: \<^verbatim>\<open>internal/parser\<close>. Links are exactly the references of the body; a parsed document is
    well-formed.
  \<^item> Ingest, Scanner, DiscussionFetch: the job handlers and the sweep. What each leaves in database and
    queue, and that scanning and ingesting settle; the loop of \<^verbatim>\<open>Scanner.Run\<close> over the ticks it meets.
  \<^item> Worker, WorkerSystem: \<^verbatim>\<open>worker.go\<close>. Construction and wiring; scans, jobs and queue operations interleaved
    keep every document typed and every job handled; readiness over the life of a worker.
  \<^item> Slug, MeiliIndex, MeiliQuery: \<^verbatim>\<open>internal/slug\<close>, \<^verbatim>\<open>search/meilisearch\<close>. Slugs of a document are distinct, an
    upsert replaces exactly the records of its document, a hit decodes to the section it was built from.

  \<^bold>\<open>Processes.\<close>
  \<^item> Config: \<^verbatim>\<open>config.go\<close>. Every layer, and the precedence flags, environment, file, defaults.
  \<^item> Tracing: \<^verbatim>\<open>obs/tracing.go\<close>. Construction, global installation and shutdown of the tracer.
  \<^item> Cli: \<^verbatim>\<open>cmd/rfc-api\<close>, \<^verbatim>\<open>pool.go\<close>, \<^verbatim>\<open>probe.go\<close>, \<^verbatim>\<open>db/migrate.go\<close>. Subcommands from arguments to exit code, with
    the panics of their construction: when \<^verbatim>\<open>serve\<close> starts, that only its admin server ends a worker with an
    error, what a reindex run queues.

  \<^bold>\<open>Not modelled.\<close> What OpenTelemetry and Prometheus do with spans and calls: the program does not read it
  back. Log lines, except the access log. The timers of \<^verbatim>\<open>Scanner.Run\<close> and \<^verbatim>\<open>Leaser.Run\<close>: their ticks come from a
  list of events. Goroutines are interleavings of steps; their scheduling within one operation is not
  modelled. The deadline of a request (\<^verbatim>\<open>Timeout\<close>) is a time, not the cancellation of a store call. The
  way of a panic through the middleware is modelled, the panics of handlers are not: Go's nil dereferences
  have no counterpart in these definitions. \<^verbatim>\<open>runServe\<close> and \<^verbatim>\<open>runWork\<close> take how their goroutines end as an
  argument. \<^verbatim>\<open>db/embed.go\<close> is one directive; the SQL it embeds is the schema PostgresWrites keeps.

  \<^bold>\<open>Findings.\<close> Several properties state behaviour that contradicts a comment or the intent of the code:
  jobs re-queued under the key of a running job are lost, webhook pushes store nothing, the second page of
  a search is refused, configuration flags are refused by three of the four subcommands, reserved type ids
  kill the server at start, requests that panic are on no metric, the gauge of the queue depth is never
  written. They are proved as they are.
\<close>

section \<open>Pagination over HTTP\<close>


definition second_cursor :: Cursor where
  "second_cursor = \<lparr>cur_sort = SortIDAsc, cur_value = 0, cur_id = ''ADR-0001''\<rparr>"


section \<open>From a file to a response\<close>

text \<open>The Postgres store as the read handlers of the API use it.\<close>

definition pg_ops :: "PgEnv \<Rightarrow> DB \<Rightarrow> docs_ops" where
  "pg_ops env db = \<lparr>op_Get = pg_Get env db, op_List = pg_List env db, op_CountAll = pg_CountAll env db, op_Links = pg_Links env db,
     op_Discussion = pg_Discussion env db, op_Authors = pg_Authors env db, op_Revisions = pg_Revisions env db\<rparr>"

lemma get_answer:
  assumes "op_Get (hd_Docs H) (Canonical (he_unicode E) t i) = Inr d"
  shows "\<exists>hs. fst (call E H DocsGet (routed_request R segs t label i r) ()) = \<lparr>rs_status = 200, rs_headers = hs, rs_body = BDoc d\<rparr>"
  using assms
  by (simp add: call_def docs_Get_def reply_def svc_Get_def render_JSON_def routed_request_def route_type_def ctx_From_def Let_def)


text \<open>The sample file of the ingest job, served by the sample server over the database the job leaves.\<close>

definition ingested :: "(DB \<times> jobs \<times> nat) \<times> goerr option" where
  "ingested = ingest_Handle (New []) (one_file ''abc'') [(''plain'', plain_parser)] (registry_of ascii_only default_types)
     (\<lambda>doc. pg_Upsert (quiet_env (<) 0) (Some doc)) (jobs_enq all_acked) (ingest_job ''abc'') (empty_db, ([], 0))"

lemma ingested_ok: "snd ingested = None"
  by code_simp

lemma sample_parsed:
  "case unmarshal_ingest (job_payload (ingest_job ''abc'')) of None \<Rightarrow> False
   | Some p \<Rightarrow> (case ingest_parse (one_file ''abc'') [(''plain'', plain_parser)] (registry_of ascii_only default_types) p of
       Inr (Some doc) \<Rightarrow> d_id doc = Canonical ascii_only ''rfc'' ''0001'' \<and> d_title doc = ''hello'' | _ \<Rightarrow> False)"
  by code_simp


end
